(* ===== verification/Prelude.thy ===== *)
theory Prelude
  imports Main "HOL-Library.Word" "HOL-Library.AList" "HOL-Library.Signed_Division"
begin

text \<open>
  The shared vocabulary of the development: the machine integers of the code, the effect
  type of its functions, the decimal printing of unsigned numbers, and the generic lemmas
  and theorem collections the component theories use.

  A function of the C++ code runs in some state, and it ends in one of three ways: it
  returns a value, it throws a \<^verbatim>\<open>jsonrpc::JsonRpcException\<close> (the only exception the
  code catches), or the process dies (a failed \<^verbatim>\<open>CHECK\<close>, a \<^verbatim>\<open>LOG (FATAL)\<close>, or an
  exception nobody catches). Changes made to the state before an exception stay, as they
  do in the code; the mutex guards release their locks on every path, so they are not
  part of the state.
\<close>

section \<open>Machine integers\<close>

text \<open>
  \<^verbatim>\<open>uint64_t\<close> and \<^verbatim>\<open>int64_t\<close> are both 64-bit words: \<open>uint\<close> and \<open>unat\<close> read one as
  unsigned, \<open>sint\<close> as two's complement. A C++ conversion between them keeps the bits.
\<close>

type_synonym uint32 = "32 word"
type_synonym int32 = "32 word"
type_synonym uint64 = "64 word"
type_synonym int64 = "64 word"
type_synonym uint256 = "256 word"

text \<open>
  A signed 64-bit product is exact when it fits; the division test of the code detects
  every product that does not.
\<close>

definition fits_int64 :: "int \<Rightarrow> bool" where
  "fits_int64 i \<longleftrightarrow> - (2 ^ 63) \<le> i \<and> i < 2 ^ 63"

lemma sint64_fits: "fits_int64 (sint (a :: int64))"
  using sint_ge [of a] sint_lt [of a] by (simp add: fits_int64_def)

lemma sint64_mult_fits: "fits_int64 (sint a * sint b) \<Longrightarrow> sint (a * b :: int64) = sint a * sint b"
  by (simp add: fits_int64_def sint_word_mult signed_take_bit_int_eq_self)

lemma sint64_mult_wrap: "\<exists>k. sint (a * b :: int64) = sint a * sint b + k * 2 ^ 64"
proof -
  have "take_bit 64 (sint (a * b)) = take_bit 64 (sint a * sint b)"
    by (simp add: sint_word_mult take_bit_signed_take_bit)
  then have "(sint (a * b) - sint a * sint b) mod 2 ^ 64 = 0"
    by (simp add: take_bit_eq_mod mod_eq_dvd_iff)
  then obtain k where "sint (a * b) - sint a * sint b = 2 ^ 64 * k"
    by (metis mod_0_imp_dvd dvdE)
  then show ?thesis by (intro exI [of _ k]) simp
qed

lemma overflow_test:
  assumes "0 < sint (u :: int64)"
  shows "sint (p * u) sdiv sint u = sint p \<longleftrightarrow> fits_int64 (sint p * sint u)"
proof
  assume fits: "fits_int64 (sint p * sint u)"
  have "sint p * sint u sdiv sint u = sint p"
    using assms by (simp add: signed_divide_int_def sgn_mult abs_mult mult_ac)
     (metis abs_mult_sgn mult.commute)
  with fits show "sint (p * u) sdiv sint u = sint p" by (simp add: sint64_mult_fits)
next
  assume q: "sint (p * u) sdiv sint u = sint p"
  obtain k where k: "sint (p * u) = sint p * sint u + k * 2 ^ 64"
    using sint64_mult_wrap by blast
  have r: "sint (p * u) - sint p * sint u = sint (p * u) smod sint u"
    using q minus_sdiv_mult_eq_smod [of "sint (p * u)" "sint u"] by simp
  have "\<bar>sint (p * u) smod sint u\<bar> < sint u"
    using smod_int_range [of "sint u" "sint (p * u)"] assms by auto
  moreover have "sint u < 2 ^ 63"
    using sint64_fits [of u] by (simp add: fits_int64_def)
  ultimately have "\<bar>k * 2 ^ 64\<bar> < 2 ^ 63" using r k by simp
  then have "k = 0" by (auto simp: abs_mult)
  with k sint64_fits [of "p * u"] show "fits_int64 (sint p * sint u)" by simp
qed

section \<open>Outcomes and programs\<close>

datatype exn = JsonRpcException int string

datatype 'a outcome = Ret 'a | Throw exn | Fatal

type_synonym ('s, 'a) prog = "'s \<Rightarrow> 'a outcome \<times> 's"

named_theorems prog_run "symbolic execution of programs"
named_theorems prog_inv "inversion of terminated runs"

definition ret :: "'a \<Rightarrow> ('s, 'a) prog" where
  "ret a = (\<lambda>s. (Ret a, s))"

definition throw :: "exn \<Rightarrow> ('s, 'a) prog" where
  "throw e = (\<lambda>s. (Throw e, s))"

definition fatal :: "('s, 'a) prog" where
  "fatal = (\<lambda>s. (Fatal, s))"

definition bnd :: "('s, 'a) prog \<Rightarrow> ('a \<Rightarrow> ('s, 'b) prog) \<Rightarrow> ('s, 'b) prog" where
  "bnd m f = (\<lambda>s. case m s of (r, s') \<Rightarrow>
     (case r of Ret a \<Rightarrow> f a s' | Throw e \<Rightarrow> (Throw e, s') | Fatal \<Rightarrow> (Fatal, s')))"

definition catch :: "('s, 'a) prog \<Rightarrow> (exn \<Rightarrow> ('s, 'a) prog) \<Rightarrow> ('s, 'a) prog" where
  "catch m h = (\<lambda>s. case m s of (r, s') \<Rightarrow>
     (case r of Throw e \<Rightarrow> h e s' | _ \<Rightarrow> (r, s')))"

text \<open>\<^verbatim>\<open>CHECK (b)\<close> followed by the rest of the function.\<close>

definition checked :: "bool \<Rightarrow> ('s, 'a) prog \<Rightarrow> ('s, 'a) prog" where
  "checked b m = (if b then m else fatal)"

definition gets :: "('s \<Rightarrow> 'a) \<Rightarrow> ('s, 'a) prog" where
  "gets f = (\<lambda>s. (Ret (f s), s))"

definition modifies :: "('s \<Rightarrow> 's) \<Rightarrow> ('s, unit) prog" where
  "modifies f = (\<lambda>s. (Ret (), f s))"

definition liftO :: "'a outcome \<Rightarrow> ('s, 'a) prog" where
  "liftO r = (\<lambda>s. (r, s))"

text \<open>
  A state is often a pair of the data a function owns and the outside world the RPC calls
  go to. \<open>onW\<close> runs a program of the world, \<open>onL\<close> one of the data.
\<close>

definition onW :: "('w, 'a) prog \<Rightarrow> ('p \<times> 'w, 'a) prog" where
  "onW m = (\<lambda>(p, w). case m w of (r, w') \<Rightarrow> (r, (p, w')))"

definition onL :: "('p, 'a) prog \<Rightarrow> ('p \<times> 'w, 'a) prog" where
  "onL m = (\<lambda>(p, w). case m p of (r, p') \<Rightarrow> (r, (p', w)))"

text \<open>A loop over the elements of a range, in order.\<close>

fun for_each :: "('a \<Rightarrow> ('s, unit) prog) \<Rightarrow> 'a list \<Rightarrow> ('s, unit) prog" where
  "for_each f [] = ret ()"
| "for_each f (x # xs) = bnd (f x) (\<lambda>_. for_each f xs)"

text \<open>A loop that carries local variables through the range.\<close>

fun fold_prog :: "('a \<Rightarrow> 'b \<Rightarrow> ('s, 'b) prog) \<Rightarrow> 'a list \<Rightarrow> 'b \<Rightarrow> ('s, 'b) prog" where
  "fold_prog f [] b = ret b"
| "fold_prog f (x # xs) b = bnd (f x b) (fold_prog f xs)"

subsection \<open>Running and inverting programs\<close>

lemma ret_run [prog_run, simp]: "ret a s = (Ret a, s)"
  by (simp add: ret_def)

lemma throw_run [prog_run, simp]: "throw e s = (Throw e, s)"
  by (simp add: throw_def)

lemma fatal_run [prog_run, simp]: "fatal s = (Fatal, s)"
  by (simp add: fatal_def)

lemma gets_run [prog_run, simp]: "gets f s = (Ret (f s), s)"
  by (simp add: gets_def)

lemma modifies_run [prog_run, simp]: "modifies f s = (Ret (), f s)"
  by (simp add: modifies_def)

lemma liftO_run [prog_run, simp]: "liftO r s = (r, s)"
  by (simp add: liftO_def)

lemma checked_True [prog_run, simp]: "checked True m = m"
  by (simp add: checked_def)

lemma checked_False [prog_run, simp]: "checked False m = fatal"
  by (simp add: checked_def)

lemma onW_run [prog_run]: "onW m (p, w) = (case m w of (r, w') \<Rightarrow> (r, (p, w')))"
  by (simp add: onW_def)

lemma bnd_ret_left [prog_run, simp]: "bnd (ret a) f = f a"
  by (simp add: bnd_def ret_def)

lemma bnd_gets [prog_run, simp]: "bnd (gets f) g s = g (f s) s"
  by (simp add: bnd_def gets_def)

lemma bnd_modifies [prog_run, simp]: "bnd (modifies f) g s = g () (f s)"
  by (simp add: bnd_def modifies_def)

lemma bnd_liftO [prog_run, simp]:
  "bnd (liftO (Ret a)) f = f a" "bnd (liftO (Throw e)) f = throw e" "bnd (liftO Fatal) f = fatal"
  by (simp_all add: bnd_def liftO_def fun_eq_iff)

lemma bnd_fatal_left [prog_run, simp]: "bnd fatal f = fatal"
  by (simp add: bnd_def fatal_def)

text \<open>The simplifier applies the run equations in the form \<open>ret a = Pair (Ret a)\<close>.\<close>

lemma bnd_Pair [prog_run, simp]:
  "bnd (Pair (Ret a)) f = f a" "bnd (Pair (Throw e)) f = Pair (Throw e)"
  "bnd (Pair Fatal) f = Pair Fatal"
  by (simp_all add: bnd_def fun_eq_iff)

lemma bnd_assoc: "bnd (bnd m f) g = bnd m (\<lambda>a. bnd (f a) g)"
  by (rule ext) (simp add: bnd_def split: prod.splits outcome.splits)

lemma bnd_ret_right: "bnd m ret = m"
  by (rule ext) (simp add: bnd_def ret_def split: prod.splits outcome.splits)

lemma bnd_run_Ret: "m s = (Ret a, s') \<Longrightarrow> bnd m f s = f a s'"
  by (simp add: bnd_def)

lemma bnd_run_Throw: "m s = (Throw e, s') \<Longrightarrow> bnd m f s = (Throw e, s')"
  by (simp add: bnd_def)

lemma bnd_run_Fatal: "m s = (Fatal, s') \<Longrightarrow> bnd m f s = (Fatal, s')"
  by (simp add: bnd_def)

lemma bnd_Ret_iff [prog_inv]:
  "bnd m f s = (Ret b, t) \<longleftrightarrow> (\<exists>a u. m s = (Ret a, u) \<and> f a u = (Ret b, t))"
  by (auto simp: bnd_def split: prod.splits outcome.splits)

lemma bnd_Fatal_iff:
  "bnd m f s = (Fatal, t) \<longleftrightarrow>
     m s = (Fatal, t) \<or> (\<exists>a u. m s = (Ret a, u) \<and> f a u = (Fatal, t))"
  by (auto simp: bnd_def split: prod.splits outcome.splits)

lemma bnd_Throw_iff:
  "bnd m f s = (Throw e, t) \<longleftrightarrow>
     m s = (Throw e, t) \<or> (\<exists>a u. m s = (Ret a, u) \<and> f a u = (Throw e, t))"
  by (auto simp: bnd_def split: prod.splits outcome.splits)

text \<open>The same for a run that ends in any way.\<close>

lemma bnd_eq_iff:
  "bnd m f s = (r, t) \<longleftrightarrow>
     (\<exists>a u. m s = (Ret a, u) \<and> f a u = (r, t)) \<or>
     (\<exists>e. m s = (Throw e, t) \<and> r = Throw e) \<or> (m s = (Fatal, t) \<and> r = Fatal)"
  by (auto simp: bnd_def split: prod.splits outcome.splits)

lemma checked_eq_iff: "checked b m s = (r, t) \<longleftrightarrow> b \<and> m s = (r, t) \<or> \<not> b \<and> r = Fatal \<and> t = s"
  by (auto simp: checked_def)

lemma catch_eq_iff:
  "catch m h s = (r, t) \<longleftrightarrow>
     (\<exists>e u. m s = (Throw e, u) \<and> h e u = (r, t)) \<or> (m s = (r, t) \<and> (\<forall>e. r \<noteq> Throw e))"
  by (auto simp: catch_def split: prod.splits outcome.splits)

lemma checked_Ret_iff [prog_inv]:
  "checked b m s = (Ret a, t) \<longleftrightarrow> b \<and> m s = (Ret a, t)"
  by (auto simp: checked_def)

lemma checked_Throw_iff [prog_inv]:
  "checked b m s = (Throw e, t) \<longleftrightarrow> b \<and> m s = (Throw e, t)"
  by (auto simp: checked_def)

lemma onW_Ret_iff [prog_inv]:
  "onW m s = (Ret a, t) \<longleftrightarrow> fst t = fst s \<and> m (snd s) = (Ret a, snd t)"
  by (cases s, cases t) (auto simp: onW_def split: prod.splits)

lemma onW_eq: "onW m s = (r, t) \<longleftrightarrow> fst t = fst s \<and> m (snd s) = (r, snd t)"
  by (cases s, cases t) (auto simp: onW_def split: prod.splits)

lemma catch_Ret_iff [prog_inv]:
  "catch m h s = (Ret a, t) \<longleftrightarrow>
     m s = (Ret a, t) \<or> (\<exists>e u. m s = (Throw e, u) \<and> h e u = (Ret a, t))"
  by (auto simp: catch_def split: prod.splits outcome.splits)

lemma for_each_append: "for_each f (xs @ ys) = bnd (for_each f xs) (\<lambda>_. for_each f ys)"
  by (induction xs) (simp_all add: bnd_assoc)

subsection \<open>Properties of every outcome\<close>

text \<open>
  \<open>keeps I m\<close>: whatever way \<open>m\<close> ends, it preserves \<open>I\<close>. This is the judgement used for
  frame conditions and invariants, which also have to hold after an exception.
\<close>

definition keeps :: "('s \<Rightarrow> bool) \<Rightarrow> ('s, 'a) prog \<Rightarrow> bool" where
  "keeps I m \<longleftrightarrow> (\<forall>s. I s \<longrightarrow> I (snd (m s)))"

named_theorems keeps_intro "programs that preserve a state predicate"

lemma keepsI: "(\<And>s r t. I s \<Longrightarrow> m s = (r, t) \<Longrightarrow> I t) \<Longrightarrow> keeps I m"
  unfolding keeps_def by (metis prod.collapse)

lemma keepsD: "keeps I m \<Longrightarrow> I s \<Longrightarrow> m s = (r, t) \<Longrightarrow> I t"
  unfolding keeps_def by (metis snd_conv)

lemma keeps_ret [keeps_intro]: "keeps I (ret a)"
  by (simp add: keeps_def)

lemma keeps_throw [keeps_intro]: "keeps I (throw e)"
  by (simp add: keeps_def)

lemma keeps_fatal [keeps_intro]: "keeps I fatal"
  by (simp add: keeps_def)

lemma keeps_gets [keeps_intro]: "keeps I (gets f)"
  by (simp add: keeps_def)

lemma keeps_liftO [keeps_intro]: "keeps I (liftO r)"
  by (simp add: keeps_def)

lemma keeps_modifies: "(\<And>s. I s \<Longrightarrow> I (f s)) \<Longrightarrow> keeps I (modifies f)"
  by (simp add: keeps_def)

lemma keeps_checked [keeps_intro]: "keeps I m \<Longrightarrow> keeps I (checked b m)"
  by (simp add: checked_def keeps_fatal)

lemma keeps_bnd [keeps_intro]: "keeps I m \<Longrightarrow> (\<And>a. keeps I (f a)) \<Longrightarrow> keeps I (bnd m f)"
  by (fastforce simp: keeps_def bnd_def split: prod.splits outcome.splits)

lemma keeps_catch [keeps_intro]: "keeps I m \<Longrightarrow> (\<And>e. keeps I (h e)) \<Longrightarrow> keeps I (catch m h)"
  by (fastforce simp: keeps_def catch_def split: prod.splits outcome.splits)

lemma keeps_if [keeps_intro]: "keeps I m \<Longrightarrow> keeps I n \<Longrightarrow> keeps I (if b then m else n)"
  by simp

lemma keeps_for_each [keeps_intro]: "(\<And>x. keeps I (f x)) \<Longrightarrow> keeps I (for_each f xs)"
  by (induction xs) (auto intro: keeps_intro)

lemma keeps_onW [keeps_intro]: "keeps (\<lambda>s. P (fst s)) (onW m)"
  by (auto simp: keeps_def onW_def split: prod.splits)

section \<open>Protocol-buffer fields\<close>

text \<open>
  An optional field of a proto2 message is an \<open>option\<close>: \<open>None\<close> when \<^verbatim>\<open>has_x ()\<close> is false.
  Reading an absent field gives its default: \<open>[]\<close> for a string, \<open>0\<close> for a number, and
  the first value of an enumeration.
\<close>

definition dflt :: "'a \<Rightarrow> 'a option \<Rightarrow> 'a" where
  "dflt d x = (case x of None \<Rightarrow> d | Some v \<Rightarrow> v)"

definition has :: "'a option \<Rightarrow> bool" where
  "has x \<longleftrightarrow> x \<noteq> None"

lemma dflt_simps [simp]: "dflt d None = d" "dflt d (Some v) = v"
  by (simp_all add: dflt_def)

lemma has_simps [simp]: "has None = False" "has (Some v) = True"
  by (simp_all add: has_def)

lemma has_iff: "has x \<longleftrightarrow> (\<exists>v. x = Some v)"
  by (auto simp: has_def)

lemma not_has_iff [simp]: "\<not> has x \<longleftrightarrow> x = None"
  by (simp add: has_def)

lemma has_dflt: "has x \<Longrightarrow> x = Some (dflt d x)"
  by (auto simp: has_iff)

section \<open>Decimal printing\<close>

text \<open>\<^verbatim>\<open>operator<<\<close> of an output stream on an unsigned number.\<close>

definition digit_char :: "nat \<Rightarrow> char" where
  "digit_char d = char_of (48 + d)"

fun show_nat :: "nat \<Rightarrow> string" where
  "show_nat n = (if n < 10 then [digit_char n] else show_nat (n div 10) @ [digit_char (n mod 10)])"

declare show_nat.simps [simp del]

fun read_nat :: "nat \<Rightarrow> string \<Rightarrow> nat" where
  "read_nat acc [] = acc"
| "read_nat acc (c # cs) = read_nat (10 * acc + (of_char c - 48)) cs"

lemma of_char_digit_char: "d < 10 \<Longrightarrow> (of_char (digit_char d) :: nat) = 48 + d"
  by (simp add: digit_char_def)

lemma read_nat_append: "read_nat acc (xs @ ys) = read_nat (read_nat acc xs) ys"
  by (induction xs arbitrary: acc) simp_all

lemma read_show_nat: "read_nat 0 (show_nat n) = n"
proof (induction n rule: show_nat.induct)
  case (1 n)
  show ?case
  proof (cases "n < 10")
    case True
    then show ?thesis by (simp add: show_nat.simps [of n] of_char_digit_char)
  next
    case False
    with "1.IH" have "read_nat 0 (show_nat (n div 10)) = n div 10" by simp
    with False show ?thesis
      by (simp add: show_nat.simps [of n] read_nat_append of_char_digit_char)
  qed
qed

lemma show_nat_inject [simp]: "show_nat m = show_nat n \<longleftrightarrow> m = n"
  by (metis read_show_nat)

lemma show_nat_digits: "c \<in> set (show_nat n) \<Longrightarrow> 48 \<le> (of_char c :: nat) \<and> (of_char c :: nat) < 58"
proof (induction n rule: show_nat.induct)
  case (1 n)
  show ?case
  proof (cases "n < 10")
    case True
    with "1.prems" show ?thesis by (simp add: show_nat.simps [of n] of_char_digit_char)
  next
    case False
    with "1" show ?thesis
      by (auto simp: show_nat.simps [of n] of_char_digit_char)
  qed
qed

section \<open>Lists and association lists\<close>

lemma append_sep_inject:
  "x \<notin> set as \<Longrightarrow> x \<notin> set bs \<Longrightarrow> as @ x # cs = bs @ x # ds \<longleftrightarrow> as = bs \<and> cs = ds"
  by (fastforce simp: append_eq_append_conv2 append_eq_Cons_conv Cons_eq_append_conv)

lemma map_of_filter_snd:
  "distinct (map fst xs) \<Longrightarrow>
     map_of (filter (\<lambda>(k, v). P v) xs) k =
       (case map_of xs k of None \<Rightarrow> None | Some v \<Rightarrow> if P v then Some v else None)"
  by (induction xs) (auto simp: map_of_eq_None_iff split: option.splits)

lemma distinct_filter_fst: "distinct (map fst xs) \<Longrightarrow> distinct (map fst (filter P xs))"
  by (induction xs) auto

lemma set_update_alist: "set (AList.update k v xs) \<subseteq> insert (k, v) (set xs)"
  by (induction xs) auto

lemmas alist_simps = update_conv' delete_conv'

section \<open>Runs of a step relation\<close>

inductive runs :: "('e \<Rightarrow> 's \<Rightarrow> 's \<Rightarrow> bool) \<Rightarrow> 's \<Rightarrow> 'e list \<Rightarrow> 's \<Rightarrow> bool"
  for step :: "'e \<Rightarrow> 's \<Rightarrow> 's \<Rightarrow> bool" where
  runs_nil: "runs step s [] s"
| runs_cons: "step e s t \<Longrightarrow> runs step t es u \<Longrightarrow> runs step s (e # es) u"

inductive_simps runs_nil_iff [simp]: "runs step s [] t"
inductive_simps runs_cons_iff: "runs step s (e # es) t"

lemma runs_append_iff:
  "runs step s (es @ fs) u \<longleftrightarrow> (\<exists>t. runs step s es t \<and> runs step t fs u)"
  by (induction es arbitrary: s) (auto simp: runs_cons_iff)

lemma runs_invariant:
  assumes "runs step s es t" and "I s" and "\<And>e s t. I s \<Longrightarrow> step e s t \<Longrightarrow> I t"
  shows "I t"
  using assms by (induction rule: runs.induct) blast+

text \<open>
  A detailed component implements an abstract one: every detailed step from a state of the
  invariant is an abstract step between the abstractions, and keeps the invariant. A client
  may then replace any run of the detailed component by a run of the abstract one.
\<close>

locale simulation =
  fixes cstep :: "'e \<Rightarrow> 'c \<Rightarrow> 'c \<Rightarrow> bool"
    and astep :: "'e \<Rightarrow> 'a \<Rightarrow> 'a \<Rightarrow> bool"
    and inv :: "'c \<Rightarrow> bool"
    and abs_of :: "'c \<Rightarrow> 'a"
  assumes inv_step: "inv s \<Longrightarrow> cstep e s t \<Longrightarrow> inv t"
    and sim_step: "inv s \<Longrightarrow> cstep e s t \<Longrightarrow> astep e (abs_of s) (abs_of t)"
begin

lemma inv_runs: "runs cstep s es t \<Longrightarrow> inv s \<Longrightarrow> inv t"
  by (erule runs_invariant) (auto intro: inv_step)

lemma sim_runs: "runs cstep s es t \<Longrightarrow> inv s \<Longrightarrow> runs astep (abs_of s) es (abs_of t)"
  by (induction rule: runs.induct) (auto intro: runs.intros sim_step inv_step)

end

end
