(* ===== verification/JsonValue.thy ===== *)
theory JsonValue
  imports Prelude Complex_Main "HOL-Library.Char_ord" "HOL-Library.List_Lexorder"
begin

text \<open>
  JSON values as the code handles them through jsoncpp's \<^verbatim>\<open>Json::Value\<close>. The library's
  value types are the constructors: signed and unsigned integers are different types for
  \<^verbatim>\<open>operator==\<close>, so they are different constructors. An object is a \<^verbatim>\<open>std::map\<close> from
  names to values: an association list that the setters keep ordered by name, so that
  equal objects are equal lists.
\<close>

datatype json =
    JNull
  | JInt int
  | JUInt int
  | JReal rat
  | JStr string
  | JBool bool
  | JArr "json list"
  | JObj "(string \<times> json) list"

section \<open>Type tests\<close>

definition isNull :: "json \<Rightarrow> bool" where
  "isNull j \<longleftrightarrow> j = JNull"

definition isObject :: "json \<Rightarrow> bool" where
  "isObject j \<longleftrightarrow> (case j of JObj _ \<Rightarrow> True | _ \<Rightarrow> False)"

definition isArray :: "json \<Rightarrow> bool" where
  "isArray j \<longleftrightarrow> (case j of JArr _ \<Rightarrow> True | _ \<Rightarrow> False)"

definition isString :: "json \<Rightarrow> bool" where
  "isString j \<longleftrightarrow> (case j of JStr _ \<Rightarrow> True | _ \<Rightarrow> False)"

definition isBool :: "json \<Rightarrow> bool" where
  "isBool j \<longleftrightarrow> (case j of JBool _ \<Rightarrow> True | _ \<Rightarrow> False)"

text \<open>
  The integer tests look at the value, not at the type: an unsigned number in range and a
  floating-point number without a fractional part pass \<^verbatim>\<open>isInt ()\<close> too.
\<close>

definition integral_in :: "int \<Rightarrow> int \<Rightarrow> json \<Rightarrow> bool" where
  "integral_in lo hi j \<longleftrightarrow>
     (case j of
        JInt i \<Rightarrow> lo \<le> i \<and> i \<le> hi
      | JUInt i \<Rightarrow> lo \<le> i \<and> i \<le> hi
      | JReal r \<Rightarrow> of_int (floor r) = r \<and> lo \<le> floor r \<and> floor r \<le> hi
      | _ \<Rightarrow> False)"

definition isInt :: "json \<Rightarrow> bool" where
  "isInt = integral_in (- (2 ^ 31)) (2 ^ 31 - 1)"

definition isUInt :: "json \<Rightarrow> bool" where
  "isUInt = integral_in 0 (2 ^ 32 - 1)"

definition isInt64 :: "json \<Rightarrow> bool" where
  "isInt64 = integral_in (- (2 ^ 63)) (2 ^ 63 - 1)"

definition isUInt64 :: "json \<Rightarrow> bool" where
  "isUInt64 = integral_in 0 (2 ^ 64 - 1)"

section \<open>Reading values\<close>

text \<open>The number of a value that passed one of the integer tests.\<close>

definition jnum :: "json \<Rightarrow> int" where
  "jnum j = (case j of JInt i \<Rightarrow> i | JUInt i \<Rightarrow> i | JReal r \<Rightarrow> floor r | _ \<Rightarrow> 0)"

definition asUInt :: "json \<Rightarrow> uint32" where
  "asUInt j = word_of_int (jnum j)"

definition asUInt64 :: "json \<Rightarrow> uint64" where
  "asUInt64 j = word_of_int (jnum j)"

definition asInt64 :: "json \<Rightarrow> int64" where
  "asInt64 j = word_of_int (jnum j)"

text \<open>
  \<^verbatim>\<open>asUInt ()\<close> without a preceding type test: null is zero, a boolean is zero or one, a
  floating-point number in range is truncated, and anything else raises an error nobody
  catches.
\<close>

definition convUInt :: "json \<Rightarrow> uint32 outcome" where
  "convUInt j =
     (case j of
        JNull \<Rightarrow> Ret 0
      | JBool b \<Rightarrow> Ret (if b then 1 else 0)
      | JReal r \<Rightarrow> if 0 \<le> r \<and> r \<le> 2 ^ 32 - 1 then Ret (word_of_int (floor r)) else Fatal
      | _ \<Rightarrow> if isUInt j then Ret (asUInt j) else Fatal)"

definition asBool :: "json \<Rightarrow> bool" where
  "asBool j = (case j of JBool b \<Rightarrow> b | _ \<Rightarrow> False)"

text \<open>The text of a value that passed \<^verbatim>\<open>isString ()\<close>.\<close>

definition jtext :: "json \<Rightarrow> string" where
  "jtext j = (case j of JStr s \<Rightarrow> s | _ \<Rightarrow> [])"

text \<open>
  \<^verbatim>\<open>asString ()\<close> without a preceding type test: null is the empty string, numbers and
  booleans are printed, and an array or an object raises an error nobody catches. How the
  library prints a floating-point number is a parameter.
\<close>

definition show_int :: "int \<Rightarrow> string" where
  "show_int i = (if i < 0 then CHR ''-'' # show_nat (nat (- i)) else show_nat (nat i))"

definition asString :: "(rat \<Rightarrow> string) \<Rightarrow> json \<Rightarrow> string outcome" where
  "asString real_str j =
     (case j of
        JNull \<Rightarrow> Ret []
      | JStr s \<Rightarrow> Ret s
      | JBool b \<Rightarrow> Ret (if b then ''true'' else ''false'')
      | JInt i \<Rightarrow> Ret (show_int i)
      | JUInt i \<Rightarrow> Ret (show_int i)
      | JReal r \<Rightarrow> Ret (real_str r)
      | JArr _ \<Rightarrow> Fatal
      | JObj _ \<Rightarrow> Fatal)"

text \<open>The elements of a value that passed \<^verbatim>\<open>isArray ()\<close>.\<close>

definition jelems :: "json \<Rightarrow> json list" where
  "jelems j = (case j of JArr xs \<Rightarrow> xs | _ \<Rightarrow> [])"

text \<open>
  \<^verbatim>\<open>val["name"]\<close> on an object or null (null when there is no such member). On any other
  value the library raises an error nobody catches: \<open>jidx\<close> is the access where the code has
  not tested the type first.
\<close>

definition jget :: "json \<Rightarrow> string \<Rightarrow> json" where
  "jget j k = (case j of JObj kvs \<Rightarrow> (case map_of kvs k of None \<Rightarrow> JNull | Some v \<Rightarrow> v) | _ \<Rightarrow> JNull)"

definition jidx :: "json \<Rightarrow> string \<Rightarrow> ('s, json) prog" where
  "jidx j k = checked (isObject j \<or> isNull j) (ret (jget j k))"

definition isMember :: "json \<Rightarrow> string \<Rightarrow> bool" where
  "isMember j k \<longleftrightarrow> (case j of JObj kvs \<Rightarrow> map_of kvs k \<noteq> None | _ \<Rightarrow> False)"

section \<open>Building values\<close>

fun kv_insert :: "string \<Rightarrow> json \<Rightarrow> (string \<times> json) list \<Rightarrow> (string \<times> json) list" where
  "kv_insert k v [] = [(k, v)]"
| "kv_insert k v ((k', v') # r) =
     (if k = k' then (k, v) # r
      else if k < k' then (k, v) # (k', v') # r
      else (k', v') # kv_insert k v r)"

definition jempty :: json where
  "jempty = JObj []"

definition jset :: "string \<Rightarrow> json \<Rightarrow> json \<Rightarrow> json" where
  "jset k v j = (case j of JObj kvs \<Rightarrow> JObj (kv_insert k v kvs) | JNull \<Rightarrow> JObj [(k, v)] | _ \<Rightarrow> j)"

definition jremove :: "string \<Rightarrow> json \<Rightarrow> json" where
  "jremove k j = (case j of JObj kvs \<Rightarrow> JObj (filter (\<lambda>(k', v). k' \<noteq> k) kvs) | _ \<Rightarrow> j)"

section \<open>Laws\<close>

lemma type_tests [simp]:
  "isObject (JObj kvs)" "isArray (JArr xs)" "isString (JStr s)" "isBool (JBool b)" "isNull JNull"
  "\<not> isObject JNull" "\<not> isArray JNull" "\<not> isString JNull" "\<not> isNull (JObj kvs)"
  "\<not> isNull (JStr s)" "\<not> isNull (JInt i)" "\<not> isNull (JUInt i)" "\<not> isNull (JArr xs)" "\<not> isNull (JBool b)"
  "\<not> isObject (JStr s)" "\<not> isObject (JInt i)" "\<not> isString (JInt i)"
  by (simp_all add: isObject_def isArray_def isString_def isBool_def isNull_def)

lemma isObject_iff: "isObject j \<longleftrightarrow> (\<exists>kvs. j = JObj kvs)"
  by (cases j) (simp_all add: isObject_def)

lemma isString_iff: "isString j \<longleftrightarrow> (\<exists>s. j = JStr s)"
  by (cases j) (simp_all add: isString_def)

lemma isArray_iff: "isArray j \<longleftrightarrow> (\<exists>xs. j = JArr xs)"
  by (cases j) (simp_all add: isArray_def)

lemma read_simps [simp]:
  "jtext (JStr s) = s" "jelems (JArr xs) = xs" "jnum (JInt i) = i" "jnum (JUInt i) = i"
  "asBool (JBool b) = b" "asString f (JStr s) = Ret s" "asString f JNull = Ret []"
  by (simp_all add: jtext_def jelems_def jnum_def asBool_def asString_def)

lemma isUInt_JInt [simp]: "isUInt (JInt i) \<longleftrightarrow> 0 \<le> i \<and> i < 2 ^ 32"
  by (auto simp: isUInt_def integral_in_def)

lemma isUInt_JUInt [simp]: "isUInt (JUInt i) \<longleftrightarrow> 0 \<le> i \<and> i < 2 ^ 32"
  by (auto simp: isUInt_def integral_in_def)

lemma isInt_JInt [simp]: "isInt (JInt i) \<longleftrightarrow> - (2 ^ 31) \<le> i \<and> i < 2 ^ 31"
  by (auto simp: isInt_def integral_in_def)

lemma isUInt64_JInt [simp]: "isUInt64 (JInt i) \<longleftrightarrow> 0 \<le> i \<and> i < 2 ^ 64"
  by (auto simp: isUInt64_def integral_in_def)

lemma isInt64_JInt [simp]: "isInt64 (JInt i) \<longleftrightarrow> - (2 ^ 63) \<le> i \<and> i < 2 ^ 63"
  by (auto simp: isInt64_def integral_in_def)

lemma convUInt_isUInt: "isUInt j \<Longrightarrow> convUInt j = Ret (asUInt j)"
  by (cases j) (auto simp: convUInt_def isUInt_def integral_in_def asUInt_def jnum_def le_floor_iff
      floor_le_iff split: if_splits)

lemma not_number [simp]:
  "\<not> isUInt JNull" "\<not> isUInt (JStr s)" "\<not> isUInt64 JNull" "\<not> isUInt64 (JStr s)"
  "\<not> isUInt (JObj kvs)" "\<not> isInt JNull"
  by (simp_all add: isUInt_def isUInt64_def isInt_def integral_in_def)

lemma map_of_kv_insert [simp]: "map_of (kv_insert k v kvs) = (map_of kvs)(k \<mapsto> v)"
  by (induction k v kvs rule: kv_insert.induct) (auto simp: fun_eq_iff)

lemma map_of_kv_remove:
  "map_of (filter (\<lambda>(k', v). k' \<noteq> k) kvs) = (map_of kvs)(k := None)"
  by (induction kvs) (auto simp: fun_eq_iff)

lemma isObject_build [simp]:
  "isObject jempty" "isObject j \<Longrightarrow> isObject (jset k v j)" "isObject j \<Longrightarrow> isObject (jremove k j)"
  by (auto simp: isObject_def jempty_def jset_def jremove_def split: json.splits)

lemma jget_jempty [simp]: "jget jempty k = JNull"
  by (simp add: jget_def jempty_def)

lemma jget_jset [simp]:
  "isObject j \<Longrightarrow> jget (jset k v j) k' = (if k' = k then v else jget j k')"
  by (auto simp: isObject_def jget_def jset_def split: json.splits)

lemma isMember_jempty [simp]: "\<not> isMember jempty k"
  by (simp add: isMember_def jempty_def)

lemma isMember_jset [simp]:
  "isObject j \<Longrightarrow> isMember (jset k v j) k' \<longleftrightarrow> k' = k \<or> isMember j k'"
  by (auto simp: isObject_def isMember_def jset_def split: json.splits)

lemma jget_jremove [simp]:
  "isObject j \<Longrightarrow> jget (jremove k j) k' = (if k' = k then JNull else jget j k')"
  by (auto simp: isObject_def jget_def jremove_def map_of_kv_remove split: json.splits)

lemma isMember_jremove [simp]:
  "isObject j \<Longrightarrow> isMember (jremove k j) k' \<longleftrightarrow> k' \<noteq> k \<and> isMember j k'"
  by (auto simp: isObject_def isMember_def jremove_def map_of_kv_remove split: json.splits)

lemma jidx_object [simp]: "isObject j \<Longrightarrow> jidx j k = ret (jget j k)"
  by (simp add: jidx_def)

lemma uint_asUInt: "isUInt j \<Longrightarrow> uint (asUInt j) = jnum j"
  by (cases j) (auto simp: isUInt_def integral_in_def asUInt_def jnum_def uint_word_of_int
      take_bit_eq_mod)

lemma uint_asUInt64: "isUInt64 j \<Longrightarrow> uint (asUInt64 j) = jnum j"
  by (cases j) (auto simp: isUInt64_def integral_in_def asUInt64_def jnum_def uint_word_of_int
      take_bit_eq_mod)

end
