(* ===== verification/Protos.thy ===== *)
theory Protos
  imports JsonValue
begin

text \<open>
  The protocol buffers of \<^verbatim>\<open>src/src/proto\<close>: orders, trades, the messages two traders
  exchange, and the global state. Optional scalar fields are options; a \<^verbatim>\<open>map\<close> field is an
  association list with distinct keys (the code never depends on the order in which a
  protobuf map is traversed); a repeated field is a list. Submessages whose presence the
  code never tests are plain values that start out as the empty message.
\<close>

type_synonym Asset = string

section \<open>orders.proto\<close>

datatype order_type = ASK | BID

record Order =
  order_account :: "string option"
  order_id :: "uint64 option"
  order_asset :: "string option"
  order_min_units :: "uint64 option"
  order_max_units :: "uint64 option"
  order_type :: "order_type option"
  order_price_sat :: "uint64 option"
  order_locked :: "bool option"

definition empty_order :: Order where
  "empty_order = \<lparr>order_account = None, order_id = None, order_asset = None,
     order_min_units = None, order_max_units = None, order_type = None,
     order_price_sat = None, order_locked = None\<rparr>"

record OrdersOfAccount =
  ooa_account :: "string option"
  ooa_orders :: "(uint64 \<times> Order) list"

definition empty_ooa :: OrdersOfAccount where
  "empty_ooa = \<lparr>ooa_account = None, ooa_orders = []\<rparr>"

record OrderbookForAsset =
  ofa_asset :: "string option"
  ofa_bids :: "Order list"
  ofa_asks :: "Order list"

definition empty_ofa :: OrderbookForAsset where
  "empty_ofa = \<lparr>ofa_asset = None, ofa_bids = [], ofa_asks = []\<rparr>"

type_synonym OrderbookByAsset = "(string \<times> OrderbookForAsset) list"

section \<open>trades.proto\<close>

datatype trade_status = INITIATED | PENDING | SUCCESS | FAILED | ABANDONED

datatype trade_role = MAKER | TAKER

record Trade =
  trade_state :: "trade_status option"
  trade_start_time :: "int option"
  trade_counterparty :: "string option"
  trade_type :: "order_type option"
  trade_asset :: "string option"
  trade_units :: "uint64 option"
  trade_price_sat :: "uint64 option"
  trade_role :: "trade_role option"

record OutPoint =
  op_hash :: "string option"
  op_n :: "uint32 option"

record SellerData =
  sd_name_address :: "string option"
  sd_chi_address :: "string option"
  sd_name_output :: "OutPoint option"

definition empty_sd :: SellerData where
  "empty_sd = \<lparr>sd_name_address = None, sd_chi_address = None, sd_name_output = None\<rparr>"

record TradeState =
  ts_order :: Order
  ts_units :: "uint64 option"
  ts_counterparty :: "string option"
  ts_start_time :: "int option"
  ts_state :: "trade_status option"
  ts_seller_data :: "SellerData option"
  ts_our_psbt :: "string option"
  ts_their_psbt :: "string option"
  ts_conflict_height :: "uint64 option"

definition empty_ts :: TradeState where
  "empty_ts = \<lparr>ts_order = empty_order, ts_units = None, ts_counterparty = None,
     ts_start_time = None, ts_state = None, ts_seller_data = None, ts_our_psbt = None,
     ts_their_psbt = None, ts_conflict_height = None\<rparr>"

section \<open>processing.proto\<close>

record TakingOrder =
  to_id :: "uint64 option"
  to_units :: "uint64 option"

record TradePsbt =
  tp_psbt :: "string option"

record ProcessingMessage =
  pm_counterparty :: "string option"
  pm_identifier :: "string option"
  pm_taking_order :: "TakingOrder option"
  pm_seller_data :: "SellerData option"
  pm_psbt :: "TradePsbt option"

definition empty_pm :: ProcessingMessage where
  "empty_pm = \<lparr>pm_counterparty = None, pm_identifier = None, pm_taking_order = None,
     pm_seller_data = None, pm_psbt = None\<rparr>"

section \<open>state.proto\<close>

record State =
  st_account :: "string option"
  st_own_orders :: OrdersOfAccount
  st_next_free_id :: "uint64 option"
  st_trades :: "TradeState list"
  st_trade_archive :: "Trade list"

text \<open>The constructor of the wrapper class: an empty state with just the account set.\<close>

definition init_state :: "string \<Rightarrow> State" where
  "init_state account = \<lparr>st_account = Some account, st_own_orders = empty_ooa,
     st_next_free_id = None, st_trades = [], st_trade_archive = []\<rparr>"

abbreviation state_account :: "State \<Rightarrow> string" where
  "state_account s \<equiv> dflt [] (st_account s)"

abbreviation own_orders :: "State \<Rightarrow> (uint64 \<times> Order) list" where
  "own_orders s \<equiv> ooa_orders (st_own_orders s)"

end
