(* ===== verification/Env.thy ===== *)
theory Env
  imports Protos
begin

text \<open>
  What the code calls and this repository does not contain: the JSON-RPC interface of Xaya
  Core (wallet and blockchain), the RPC interface of the g/dem game state processor, the
  system clock, and the conversion functions of libxayautil and jsoncpp. They are a record
  of functions over an abstract world \<open>'w\<close>, and every definition that uses one takes the
  record as an argument. A call may change the world, return a value or throw; nothing
  else is assumed of it.

  The game-specific \<^verbatim>\<open>AssetSpec\<close> interface (\<^verbatim>\<open>src/src/assetspec.hpp\<close>) is a second record.
\<close>


type_synonym Amount = int64

record 'w env =
  name_show :: "string \<Rightarrow> ('w, json) prog"
  gettxout :: "json \<Rightarrow> ('w, json) prog"
  getblockheader :: "string \<Rightarrow> ('w, json) prog"
  decodepsbt :: "string \<Rightarrow> ('w, json) prog"
  lockunspent :: "bool \<Rightarrow> json \<Rightarrow> ('w, bool) prog"
  getnewaddress :: "('w, string) prog"
  walletcreatefundedpsbt :: "json \<Rightarrow> json \<Rightarrow> int \<Rightarrow> json \<Rightarrow> ('w, json) prog"
  createpsbt :: "json \<Rightarrow> json \<Rightarrow> ('w, string) prog"
  namepsbt :: "string \<Rightarrow> int \<Rightarrow> json \<Rightarrow> ('w, json) prog"
  joinpsbts :: "json \<Rightarrow> ('w, string) prog"
  walletprocesspsbt :: "string \<Rightarrow> ('w, json) prog"
  combinepsbt :: "json \<Rightarrow> ('w, string) prog"
  finalizepsbt :: "string \<Rightarrow> ('w, json) prog"
  sendrawtransaction :: "string \<Rightarrow> ('w, string) prog"
  checktrade :: "string \<Rightarrow> ('w, json) prog"
  clock_now :: "('w, int) prog"
  ChiAmountToJson :: "Amount \<Rightarrow> json"
  ChiAmountFromJson :: "json \<Rightarrow> Amount option"
  uint256_FromHex :: "string \<Rightarrow> uint256 option"
  uint256_ToHex :: "uint256 \<Rightarrow> string"
  writeString :: "json \<Rightarrow> string"
  realToString :: "rat \<Rightarrow> string"

text \<open>
  \<^verbatim>\<open>CanSell\<close> fills in the hash of the block it looked at when it returns true: \<open>Some hash\<close>
  is true with that hash, \<open>None\<close> is false. \<^verbatim>\<open>GetTransferMove\<close> only builds a value, so it has
  no state; an implementation may still fail a \<^verbatim>\<open>CHECK\<close> in it.
\<close>

record 'w AssetSpec =
  GetGameId :: string
  IsAsset :: "Asset \<Rightarrow> ('w, bool) prog"
  CanSell :: "string \<Rightarrow> Asset \<Rightarrow> Amount \<Rightarrow> ('w, uint256 option) prog"
  CanBuy :: "string \<Rightarrow> Asset \<Rightarrow> Amount \<Rightarrow> ('w, bool) prog"
  GetTransferMove :: "string \<Rightarrow> string \<Rightarrow> Asset \<Rightarrow> Amount \<Rightarrow> json outcome"

text \<open>The command-line flags that the trade logic reads (\<^verbatim>\<open>DEFINE_int32\<close>).\<close>

record flags =
  democrit_confirmations :: int32
  democrit_feerate_wo_names :: int32
  democrit_trade_timeout_ms :: int32

definition default_flags :: flags where
  "default_flags = \<lparr>democrit_confirmations = 6, democrit_feerate_wo_names = 1000,
     democrit_trade_timeout_ms = 30000\<rparr>"

end
