(* ===== verification/Checker.thy ===== *)
theory Checker
  imports Env
begin

text \<open>
  The verification of a trade before a party signs it: \<^verbatim>\<open>src/src/checker.cpp\<close> and
  \<^verbatim>\<open>private/checker.hpp\<close>. The checker is the security-critical part of the daemon: what it
  lets through is what buyer and seller put their signatures on. The first sections are the
  code, the later ones say what a positive answer of each check means.
\<close>

section \<open>Outpoints and names\<close>

definition MAX_BLOCK_ANCESTORS_CHECKED :: nat where
  "MAX_BLOCK_ANCESTORS_CHECKED = 3"

definition GetXayaName :: "string \<Rightarrow> string" where
  "GetXayaName account = ''p/'' @ account"

definition OutPointFromJson :: "json \<Rightarrow> ('s, OutPoint) prog" where
  "OutPointFromJson val =
     checked (isObject val) (
     let outTxid = jget val ''txid''; outVout = jget val ''vout'' in
     checked (isString outTxid \<and> isUInt outVout) (
     ret \<lparr>op_hash = Some (jtext outTxid), op_n = Some (asUInt outVout)\<rparr>))"

definition GetNameOutPoint :: "'w env \<Rightarrow> string \<Rightarrow> ('w, OutPoint) prog" where
  "GetNameOutPoint E account = bnd (name_show E (GetXayaName account)) OutPointFromJson"

section \<open>The trade's value and total\<close>

record TradeChecker =
  tc_buyer :: string
  tc_seller :: string
  tc_asset :: Asset
  tc_price :: Amount
  tc_units :: Amount

definition GetNameUpdateValue :: "'w env \<Rightarrow> 'w AssetSpec \<Rightarrow> TradeChecker \<Rightarrow> string outcome" where
  "GetNameUpdateValue E sp tc =
     (case GetTransferMove sp (tc_seller tc) (tc_buyer tc) (tc_asset tc) (tc_units tc) of
        Ret move \<Rightarrow>
          (let g = jset ''dem'' jempty (jset (GetGameId sp) move jempty);
               mv = jset ''g'' g jempty
           in Ret (writeString E mv))
      | Throw e \<Rightarrow> Throw e
      | Fatal \<Rightarrow> Fatal)"

text \<open>
  The product is a signed 64-bit multiplication; a compiled program wraps around and the
  division that follows detects it. The result is the returned flag and the output argument.
\<close>

definition GetTotalSat :: "TradeChecker \<Rightarrow> ('s, bool \<times> Amount) prog" where
  "GetTotalSat tc =
     (let total = tc_price tc * tc_units tc in
      checked (0 < sint (tc_units tc)) (
      if sint total sdiv sint (tc_units tc) \<noteq> sint (tc_price tc) then ret (False, total)
      else ret (True, total)))"

section \<open>The buyer's checks\<close>

fun IsBlockAncestor :: "'w env \<Rightarrow> uint256 \<Rightarrow> uint256 \<Rightarrow> nat \<Rightarrow> ('w, bool) prog" where
  "IsBlockAncestor E ancestor child 0 = ret (ancestor = child)"
| "IsBlockAncestor E ancestor child (Suc n) =
     (if ancestor = child then ret True else
      bnd (getblockheader E (uint256_ToHex E child)) (\<lambda>childData.
      checked (isObject childData) (
      let prevVal = jget childData ''previousblockhash'' in
      if isNull prevVal then ret False else
      checked (isString prevVal) (
      case uint256_FromHex E (jtext prevVal) of
        None \<Rightarrow> fatal
      | Some parent \<Rightarrow> IsBlockAncestor E ancestor parent n))))"

text \<open>The result is the output argument when the function returns true.\<close>

definition CheckForBuyerTrade ::
    "'w env \<Rightarrow> 'w AssetSpec \<Rightarrow> TradeChecker \<Rightarrow> ('w, OutPoint option) prog" where
  "CheckForBuyerTrade E sp tc =
     bnd (IsAsset sp (tc_asset tc)) (\<lambda>isA.
     if \<not> isA then ret None else
     bnd (CanBuy sp (tc_buyer tc) (tc_asset tc) (tc_units tc)) (\<lambda>canB.
     if \<not> canB then ret None else
     bnd (GetNameOutPoint E (tc_seller tc)) (\<lambda>nameInput.
     bnd (gettxout E (JArr [JStr (dflt [] (op_hash nameInput)),
                            JUInt (uint (dflt 0 (op_n nameInput)))])) (\<lambda>utxoData.
     if isNull utxoData then ret None else
     checked (isObject utxoData) (
     let utxoBlockVal = jget utxoData ''bestblock'' in
     checked (isString utxoBlockVal) (
     case uint256_FromHex E (jtext utxoBlockVal) of
       None \<Rightarrow> fatal
     | Some utxoBlock \<Rightarrow>
         bnd (CanSell sp (tc_seller tc) (tc_asset tc) (tc_units tc)) (\<lambda>sell.
         case sell of
           None \<Rightarrow> ret None
         | Some gspBlock \<Rightarrow>
             bnd (IsBlockAncestor E utxoBlock gspBlock MAX_BLOCK_ANCESTORS_CHECKED) (\<lambda>anc.
             if \<not> anc then ret None else ret (Some nameInput)))))))))"

text \<open>How many inputs the signing changed.\<close>

definition count_changed :: "json list \<Rightarrow> json list \<Rightarrow> nat" where
  "count_changed before after = length (filter (\<lambda>(b, a). b \<noteq> a) (zip before after))"

definition CheckForBuyerSignature :: "'w env \<Rightarrow> string \<Rightarrow> string \<Rightarrow> ('w, bool) prog" where
  "CheckForBuyerSignature E beforeStr afterStr =
     bnd (decodepsbt E beforeStr) (\<lambda>before.
     bnd (decodepsbt E afterStr) (\<lambda>after.
     bnd (jidx before ''tx'') (\<lambda>txBefore.
     bnd (jidx after ''tx'') (\<lambda>txAfter.
     checked (txBefore = txAfter) (
     bnd (jidx before ''inputs'') (\<lambda>inputsBefore.
     checked (isArray inputsBefore) (
     bnd (jidx after ''inputs'') (\<lambda>inputsAfter.
     checked (isArray inputsAfter) (
     checked (length (jelems inputsBefore) = length (jelems inputsAfter)) (
     let count = count_changed (jelems inputsBefore) (jelems inputsAfter) in
     if count + 1 \<noteq> length (jelems inputsBefore) then ret False else ret True))))))))))"

section \<open>The seller's checks\<close>

definition MatchesAddress :: "json \<Rightarrow> string \<Rightarrow> ('s, bool) prog" where
  "MatchesAddress scriptPubKey addr =
     checked (isObject scriptPubKey) (
     let addresses = jget scriptPubKey ''addresses'' in
     if isArray addresses \<and> length (jelems addresses) = 1
        \<and> isString (jelems addresses ! 0) \<and> jtext (jelems addresses ! 0) = addr
     then ret True else
     let address = jget scriptPubKey ''address'' in
     if isString address \<and> jtext address = addr then ret True else ret False)"

text \<open>One round of the loop over the transaction's outputs, with the two flags it carries.\<close>

definition seller_output_step ::
    "'w env \<Rightarrow> 'w AssetSpec \<Rightarrow> TradeChecker \<Rightarrow> SellerData \<Rightarrow> Amount \<Rightarrow> json \<Rightarrow> bool \<times> bool
      \<Rightarrow> ('w, bool \<times> bool) prog" where
  "seller_output_step E sp tc sd expectedTotal out found =
     (case found of (foundChi, foundName) \<Rightarrow>
      checked (isObject out) (
      let scriptPubKey = jget out ''scriptPubKey'' in
      checked (isObject scriptPubKey) (
      let nameOp = jget scriptPubKey ''nameOp'' in
      if isObject nameOp then
        bnd (liftO (asString (realToString E) (jget nameOp ''name_encoding''))) (\<lambda>nameEnc.
        checked (nameEnc = ''utf8'') (
        bnd (liftO (asString (realToString E) (jget nameOp ''value_encoding''))) (\<lambda>valueEnc.
        checked (valueEnc = ''utf8'') (
        checked (isMember nameOp ''name'' \<and> isMember nameOp ''value'') (
        bnd (liftO (asString (realToString E) (jget nameOp ''op''))) (\<lambda>opStr.
        if opStr \<noteq> ''name_update'' then ret (foundChi, foundName) else
        bnd (liftO (asString (realToString E) (jget nameOp ''name''))) (\<lambda>name.
        if name \<noteq> GetXayaName (tc_seller tc) then ret (foundChi, foundName) else
        bnd (liftO (asString (realToString E) (jget nameOp ''value''))) (\<lambda>val.
        bnd (liftO (GetNameUpdateValue E sp tc)) (\<lambda>expected.
        if val \<noteq> expected then ret (foundChi, foundName) else
        bnd (MatchesAddress scriptPubKey (dflt [] (sd_name_address sd))) (\<lambda>m.
        if \<not> m then ret (foundChi, foundName) else ret (foundChi, True)))))))))))
      else
        checked (isNull nameOp) (
        bnd (MatchesAddress scriptPubKey (dflt [] (sd_chi_address sd))) (\<lambda>m.
        if \<not> m then ret (foundChi, foundName) else
        case ChiAmountFromJson E (jget out ''value'') of
          None \<Rightarrow> fatal
        | Some payment \<Rightarrow>
            if sint payment < sint expectedTotal then ret (foundChi, foundName)
            else ret (True, foundName))))))"

definition CheckForSellerOutputs ::
    "'w env \<Rightarrow> 'w AssetSpec \<Rightarrow> TradeChecker \<Rightarrow> string \<Rightarrow> SellerData \<Rightarrow> ('w, bool) prog" where
  "CheckForSellerOutputs E sp tc psbt sd =
     checked (has (sd_chi_address sd) \<and> has (sd_name_address sd)) (
     bnd (decodepsbt E psbt) (\<lambda>decoded.
     checked (isObject decoded) (
     let tx = jget decoded ''tx'' in
     checked (isObject tx) (
     let vout = jget tx ''vout'' in
     checked (isArray vout) (
     bnd (GetTotalSat tc) (\<lambda>(ok, expectedTotal).
     if \<not> ok then ret False else
     checked (0 \<le> sint expectedTotal) (
     bnd (fold_prog (seller_output_step E sp tc sd expectedTotal) (jelems vout)
            (expectedTotal = 0, False)) (\<lambda>(foundChi, foundName).
     if \<not> foundChi then ret False else
     if \<not> foundName then ret False else ret True))))))))"

text \<open>The loop that looks for the name input; \<open>None\<close> is the index \<open>-1\<close>.\<close>

fun find_name_input :: "OutPoint \<Rightarrow> json list \<Rightarrow> nat \<Rightarrow> ('s, nat option) prog" where
  "find_name_input nmOut [] i = ret None"
| "find_name_input nmOut (inp # ins) i =
     checked (isObject inp) (
     let hashVal = jget inp ''txid'' in
     checked (isString hashVal) (
     let nVal = jget inp ''vout'' in
     checked (isUInt nVal) (
     if jtext hashVal = dflt [] (op_hash nmOut) \<and> asUInt nVal = dflt 0 (op_n nmOut)
     then ret (Some i)
     else find_name_input nmOut ins (Suc i))))"

text \<open>The loop that compares all the other inputs.\<close>

fun others_unchanged :: "nat \<Rightarrow> nat \<Rightarrow> json list \<Rightarrow> json list \<Rightarrow> bool" where
  "others_unchanged idx i (b # bs) (a # as) =
     (if i = idx then others_unchanged idx (Suc i) bs as
      else if b \<noteq> a then False
      else others_unchanged idx (Suc i) bs as)"
| "others_unchanged idx i _ _ = True"

definition CheckForSellerSignature ::
    "'w env \<Rightarrow> string \<Rightarrow> string \<Rightarrow> SellerData \<Rightarrow> ('w, bool) prog" where
  "CheckForSellerSignature E beforeStr afterStr sd =
     (case sd_name_output sd of
        None \<Rightarrow> fatal
      | Some nmOut \<Rightarrow>
          checked (has (op_hash nmOut) \<and> has (op_n nmOut)) (
          bnd (decodepsbt E beforeStr) (\<lambda>before.
          bnd (decodepsbt E afterStr) (\<lambda>after.
          bnd (jidx before ''tx'') (\<lambda>tx.
          bnd (jidx after ''tx'') (\<lambda>txAfter.
          checked (tx = txAfter) (
          checked (isObject tx) (
          let vin = jget tx ''vin'' in
          checked (isArray vin) (
          bnd (find_name_input nmOut (jelems vin) 0) (\<lambda>inputIndex.
          case inputIndex of
            None \<Rightarrow> ret False
          | Some idx \<Rightarrow>
              bnd (jidx before ''inputs'') (\<lambda>inputsBefore.
              checked (isArray inputsBefore) (
              bnd (jidx after ''inputs'') (\<lambda>inputsAfter.
              checked (isArray inputsAfter) (
              checked (length (jelems inputsBefore) = length (jelems inputsAfter)) (
              ret (others_unchanged idx 0 (jelems inputsBefore) (jelems inputsAfter)))))))))))))))))"

section \<open>The total\<close>

lemma GetTotalSat_spec:
  "GetTotalSat tc s =
     (if 0 < sint (tc_units tc)
      then (Ret (fits_int64 (sint (tc_price tc) * sint (tc_units tc)), tc_price tc * tc_units tc), s)
      else (Fatal, s))"
  by (simp add: GetTotalSat_def checked_def overflow_test Let_def)

section \<open>What the checks establish\<close>

definition address_matches :: "json \<Rightarrow> string \<Rightarrow> bool" where
  "address_matches scriptPubKey addr \<longleftrightarrow>
     jget scriptPubKey ''addresses'' = JArr [JStr addr] \<or> jget scriptPubKey ''address'' = JStr addr"

definition is_chi_payment :: "'w env \<Rightarrow> string \<Rightarrow> int \<Rightarrow> json \<Rightarrow> bool" where
  "is_chi_payment E addr amount out \<longleftrightarrow>
     (let scriptPubKey = jget out ''scriptPubKey'' in
      isNull (jget scriptPubKey ''nameOp'') \<and> address_matches scriptPubKey addr \<and>
      (case ChiAmountFromJson E (jget out ''value'') of
         None \<Rightarrow> False | Some payment \<Rightarrow> amount \<le> sint payment))"

definition is_name_update :: "'w env \<Rightarrow> string \<Rightarrow> string \<Rightarrow> string \<Rightarrow> json \<Rightarrow> bool" where
  "is_name_update E name val addr out \<longleftrightarrow>
     (let scriptPubKey = jget out ''scriptPubKey''; nameOp = jget scriptPubKey ''nameOp'';
          str = asString (realToString E) in
      isObject nameOp \<and> str (jget nameOp ''op'') = Ret ''name_update'' \<and>
      str (jget nameOp ''name'') = Ret name \<and> str (jget nameOp ''value'') = Ret val \<and>
      address_matches scriptPubKey addr)"

lemma MatchesAddress_eq:
  "MatchesAddress spk addr = checked (isObject spk) (ret (address_matches spk addr))"
proof -
  have "(isArray j \<and> length (jelems j) = 1 \<and> isString (jelems j ! 0) \<and> jtext (jelems j ! 0) = addr)
          \<longleftrightarrow> j = JArr [JStr addr]" for j
    by (auto simp: isArray_iff isString_iff length_Suc_conv)
  moreover have "isString j \<and> jtext j = addr \<longleftrightarrow> j = JStr addr" for j
    by (auto simp: isString_iff)
  ultimately show ?thesis
    by (simp add: MatchesAddress_def address_matches_def Let_def)
qed

lemma seller_output_step_sound:
  assumes "seller_output_step E sp tc sd amt out (fc, fn) w = (Ret (fc', fn'), w')"
  shows "w' = w"
    "fc' \<longleftrightarrow> fc \<or> is_chi_payment E (dflt [] (sd_chi_address sd)) (sint amt) out"
    "fn' \<longleftrightarrow> fn \<or> (\<exists>val. GetNameUpdateValue E sp tc = Ret val \<and>
        is_name_update E (GetXayaName (tc_seller tc)) val (dflt [] (sd_name_address sd)) out)"
  using assms
  by (auto simp: seller_output_step_def MatchesAddress_eq prog_inv Let_def is_chi_payment_def
      is_name_update_def isNull_def isObject_iff split: if_splits option.splits)


lemma seller_outputs_fold:
  assumes "fold_prog (seller_output_step E sp tc sd amt) outs (fc, fn) w = (Ret (fc', fn'), w')"
  shows "w' = w \<and>
    (fc' \<longleftrightarrow> fc \<or> (\<exists>out\<in>set outs. is_chi_payment E (dflt [] (sd_chi_address sd)) (sint amt) out)) \<and>
    (fn' \<longleftrightarrow> fn \<or> (\<exists>val. GetNameUpdateValue E sp tc = Ret val \<and> (\<exists>out\<in>set outs.
        is_name_update E (GetXayaName (tc_seller tc)) val (dflt [] (sd_name_address sd)) out)))"
  using assms
proof (induction outs arbitrary: fc fn w)
  case Nil
  then show ?case by auto
next
  case (Cons out outs)
  from Cons.prems obtain fc1 fn1 w1 where
      step: "seller_output_step E sp tc sd amt out (fc, fn) w = (Ret (fc1, fn1), w1)"
    and rest: "fold_prog (seller_output_step E sp tc sd amt) outs (fc1, fn1) w1 = (Ret (fc', fn'), w')"
    by (auto simp: prog_inv)
  from Cons.IH [OF rest] seller_output_step_sound [OF step] show ?case by auto
qed

lemma CheckForSellerOutputs_spec:
  assumes "CheckForSellerOutputs E sp tc psbt sd w = (Ret b, w')"
  shows "\<exists>decoded. decodepsbt E psbt w = (Ret decoded, w') \<and>
    (let outs = jelems (jget (jget decoded ''tx'') ''vout'');
         due = sint (tc_price tc) * sint (tc_units tc) in
     b \<longleftrightarrow> fits_int64 due \<and>
       (due = 0 \<or> (\<exists>out\<in>set outs. is_chi_payment E (dflt [] (sd_chi_address sd)) due out)) \<and>
       (\<exists>val. GetNameUpdateValue E sp tc = Ret val \<and> (\<exists>out\<in>set outs.
          is_name_update E (GetXayaName (tc_seller tc)) val (dflt [] (sd_name_address sd)) out)))"
proof -
  let ?due = "sint (tc_price tc) * sint (tc_units tc)"
  from assms obtain decoded w1 where dec: "decodepsbt E psbt w = (Ret decoded, w1)"
    and upos: "0 < sint (tc_units tc)"
    and rest: "(if \<not> fits_int64 ?due then (Ret False, w1)
        else bnd (fold_prog (seller_output_step E sp tc sd (tc_price tc * tc_units tc))
              (jelems (jget (jget decoded ''tx'') ''vout'')) (tc_price tc * tc_units tc = 0, False))
            (\<lambda>(foundChi, foundName). ret (foundChi \<and> foundName)) w1) = (Ret b, w')"
    by (auto simp: CheckForSellerOutputs_def prog_inv Let_def GetTotalSat_spec split: if_splits)
  show ?thesis
  proof (cases "fits_int64 ?due")
    case True
    with rest obtain fc fn where
        fold: "fold_prog (seller_output_step E sp tc sd (tc_price tc * tc_units tc))
          (jelems (jget (jget decoded ''tx'') ''vout'')) (tc_price tc * tc_units tc = 0, False) w1
          = (Ret (fc, fn), w')" and b: "b = (fc \<and> fn)"
      by (auto simp: prog_inv)
    have zero: "tc_price tc * tc_units tc = 0 \<longleftrightarrow> ?due = 0"
      by (simp only: sint64_mult_fits [OF True, symmetric] signed_eq_0_iff)
    from seller_outputs_fold [OF fold] dec b True show ?thesis
      by (auto simp: sint64_mult_fits zero Let_def)
  next
    case False
    with rest dec show ?thesis by (auto simp: Let_def)
  qed
qed


subsection \<open>Signatures\<close>

text \<open>The input spends the given output.\<close>

definition spends :: "OutPoint \<Rightarrow> json \<Rightarrow> bool" where
  "spends nmOut inp \<longleftrightarrow> jtext (jget inp ''txid'') = dflt [] (op_hash nmOut) \<and>
     asUInt (jget inp ''vout'') = dflt 0 (op_n nmOut)"

lemma find_name_input_spec:
  assumes "find_name_input nmOut ins i s = (Ret r, s')"
  shows "s' = s \<and> (case r of
      None \<Rightarrow> (\<forall>inp\<in>set ins. \<not> spends nmOut inp)
    | Some k \<Rightarrow> i \<le> k \<and> k - i < length ins \<and> spends nmOut (ins ! (k - i)) \<and>
        (\<forall>j < k - i. \<not> spends nmOut (ins ! j)))"
  using assms
proof (induction nmOut ins i rule: find_name_input.induct)
  case (1 nmOut i)
  then show ?case by auto
next
  case (2 nmOut inp ins i)
  show ?case
  proof (cases "spends nmOut inp")
    case True
    with "2.prems" show ?thesis by (auto simp: prog_inv Let_def spends_def)
  next
    case False
    with "2.prems" have "find_name_input nmOut ins (Suc i) s = (Ret r, s')"
      by (auto simp: prog_inv Let_def spends_def)
    note IH = "2.IH" [OF refl refl False [unfolded spends_def] this]
    show ?thesis
    proof (cases r)
      case None
      with IH False show ?thesis by auto
    next
      case (Some k)
      with IH obtain d where "k = Suc i + d" by (auto simp: le_iff_add)
      with IH False Some show ?thesis by (auto simp: nth_Cons split: nat.splits)
    qed
  qed
qed

lemma others_unchanged_spec:
  "length bs = length as \<Longrightarrow>
     others_unchanged idx i bs as \<longleftrightarrow> (\<forall>j < length bs. i + j \<noteq> idx \<longrightarrow> bs ! j = as ! j)"
proof (induction idx i bs as rule: others_unchanged.induct)
  case (1 idx i b bs a as)
  show ?case
  proof (cases "i = idx \<or> b = a")
    case True
    then have "others_unchanged idx i (b # bs) (a # as) \<longleftrightarrow> others_unchanged idx (Suc i) bs as"
      by auto
    also have "\<dots> \<longleftrightarrow> (\<forall>j < length bs. Suc i + j \<noteq> idx \<longrightarrow> bs ! j = as ! j)"
      using True "1.IH" "1.prems" by (cases "i = idx") simp_all
    finally show ?thesis using True by (auto simp: All_less_Suc2)
  next
    case False
    then show ?thesis by (auto simp: All_less_Suc2)
  qed
qed auto

lemma CheckForSellerSignature_spec:
  assumes "CheckForSellerSignature E beforeStr afterStr sd w = (Ret b, w')"
  shows "\<exists>nmOut before after w1. sd_name_output sd = Some nmOut \<and>
    decodepsbt E beforeStr w = (Ret before, w1) \<and> decodepsbt E afterStr w1 = (Ret after, w') \<and>
    jget before ''tx'' = jget after ''tx'' \<and>
    (let vin = jelems (jget (jget before ''tx'') ''vin'');
         inB = jelems (jget before ''inputs''); inA = jelems (jget after ''inputs'') in
     b \<longleftrightarrow> (\<exists>idx < length vin. spends nmOut (vin ! idx) \<and> (\<forall>j < idx. \<not> spends nmOut (vin ! j)) \<and>
        length inB = length inA \<and> (\<forall>j < length inB. j \<noteq> idx \<longrightarrow> inB ! j = inA ! j)))"
proof -
  from assms obtain nmOut where nm: "sd_name_output sd = Some nmOut"
    by (cases "sd_name_output sd") (auto simp: CheckForSellerSignature_def)
  from assms obtain before after w1 w2 r w3 where
      dec: "decodepsbt E beforeStr w = (Ret before, w1)" "decodepsbt E afterStr w1 = (Ret after, w2)"
        "jget before ''tx'' = jget after ''tx''"
    and r: "find_name_input nmOut (jelems (jget (jget before ''tx'') ''vin'')) 0 w2 = (Ret r, w3)"
    and rest: "(case r of None \<Rightarrow> ret False | Some idx \<Rightarrow>
        checked (length (jelems (jget before ''inputs'')) = length (jelems (jget after ''inputs''))) (
        ret (others_unchanged idx 0 (jelems (jget before ''inputs'')) (jelems (jget after ''inputs''))))) w3
        = (Ret b, w')"
    by (cases rule: option.exhaust [of "sd_name_output sd"])
       (fastforce simp: CheckForSellerSignature_def prog_inv Let_def jidx_def nm split: option.splits)+
  from rest have b: "b = (case r of None \<Rightarrow> False | Some idx \<Rightarrow>
        length (jelems (jget before ''inputs'')) = length (jelems (jget after ''inputs'')) \<and>
        others_unchanged idx 0 (jelems (jget before ''inputs'')) (jelems (jget after ''inputs'')))"
    and w: "w' = w3"
    by (auto simp: prog_inv split: option.splits)
  have "b \<longleftrightarrow> (\<exists>idx < length (jelems (jget (jget before ''tx'') ''vin'')).
      spends nmOut (jelems (jget (jget before ''tx'') ''vin'') ! idx) \<and>
      (\<forall>j < idx. \<not> spends nmOut (jelems (jget (jget before ''tx'') ''vin'') ! j)) \<and>
      length (jelems (jget before ''inputs'')) = length (jelems (jget after ''inputs'')) \<and>
      (\<forall>j < length (jelems (jget before ''inputs'')). j \<noteq> idx \<longrightarrow>
        jelems (jget before ''inputs'') ! j = jelems (jget after ''inputs'') ! j))"
    using find_name_input_spec [OF r] b
    by (auto simp: others_unchanged_spec split: option.splits)
       (metis linorder_neqE_nat)
  then show ?thesis using nm dec w find_name_input_spec [OF r] by (auto simp: Let_def)
qed

lemma count_changed_all_but_one:
  assumes "length bs = length as"
  shows "count_changed bs as + 1 = length bs \<longleftrightarrow> (\<exists>!i. i < length bs \<and> bs ! i = as ! i)"
proof -
  let ?S = "{i. i < length bs \<and> bs ! i = as ! i}"
  have "count_changed bs as = card {i. i < length bs \<and> bs ! i \<noteq> as ! i}"
    using assms by (auto simp: count_changed_def length_filter_conv_card intro!: arg_cong [where f = card])
  moreover have "card {i. i < length bs \<and> bs ! i \<noteq> as ! i} + card ?S = card {..< length bs}"
  proof -
    have "{..< length bs} = {i. i < length bs \<and> bs ! i \<noteq> as ! i} \<union> ?S" by auto
    then show ?thesis by (simp only:) (rule card_Un_disjoint [symmetric]; auto)
  qed
  ultimately have "count_changed bs as + 1 = length bs \<longleftrightarrow> card ?S = 1" by auto
  also have "\<dots> \<longleftrightarrow> (\<exists>!i. i < length bs \<and> bs ! i = as ! i)"
    unfolding One_nat_def card_1_singleton_iff set_eq_iff by (simp add: Ex1_def) blast
  finally show ?thesis .
qed

lemma CheckForBuyerSignature_spec:
  assumes "CheckForBuyerSignature E beforeStr afterStr w = (Ret b, w')"
  shows "\<exists>before after w1. decodepsbt E beforeStr w = (Ret before, w1) \<and>
    decodepsbt E afterStr w1 = (Ret after, w') \<and> jget before ''tx'' = jget after ''tx'' \<and>
    (let inB = jelems (jget before ''inputs''); inA = jelems (jget after ''inputs'') in
     length inB = length inA \<and> (b \<longleftrightarrow> (\<exists>!i. i < length inB \<and> inB ! i = inA ! i)))"
proof -
  from assms obtain before after w1 where
      "decodepsbt E beforeStr w = (Ret before, w1)" "decodepsbt E afterStr w1 = (Ret after, w')"
      "jget before ''tx'' = jget after ''tx''"
    and len: "length (jelems (jget before ''inputs'')) = length (jelems (jget after ''inputs''))"
    and b: "b = (count_changed (jelems (jget before ''inputs'')) (jelems (jget after ''inputs'')) + 1
        = length (jelems (jget before ''inputs'')))"
    by (fastforce simp: CheckForBuyerSignature_def prog_inv Let_def jidx_def split: if_splits)
  then show ?thesis using count_changed_all_but_one [OF len] by (auto simp: Let_def)
qed

section \<open>Ancestor blocks\<close>

fun nth_parent :: "(uint256 \<Rightarrow> uint256 option) \<Rightarrow> nat \<Rightarrow> uint256 \<Rightarrow> uint256 option" where
  "nth_parent par 0 h = Some h"
| "nth_parent par (Suc k) h = Option.bind (par h) (nth_parent par k)"

text \<open>
  What \<^verbatim>\<open>getblockheader\<close> answers for the blocks of a chain that is not reorganised while
  the check runs: the header of a known block names its parent block, the genesis block has
  none, and asking changes nothing.
\<close>

locale block_headers =
  fixes E :: "'w env"
    and known :: "uint256 set"
    and par :: "uint256 \<Rightarrow> uint256 option"
  assumes hex: "h \<in> known \<Longrightarrow> uint256_FromHex E (uint256_ToHex E h) = Some h"
    and header: "h \<in> known \<Longrightarrow> \<exists>hdr. getblockheader E (uint256_ToHex E h) w = (Ret hdr, w) \<and>
      isObject hdr \<and> jget hdr ''previousblockhash'' =
        (case par h of None \<Rightarrow> JNull | Some p \<Rightarrow> JStr (uint256_ToHex E p))"
    and closed: "h \<in> known \<Longrightarrow> par h = Some p \<Longrightarrow> p \<in> known"
begin

lemma IsBlockAncestor_eq:
  "child \<in> known \<Longrightarrow>
     IsBlockAncestor E ancestor child n w = (Ret (\<exists>k\<le>n. nth_parent par k child = Some ancestor), w)"
proof (induction n arbitrary: child)
  case 0
  then show ?case by auto
next
  case (Suc n)
  show ?case
  proof (cases "ancestor = child")
    case True
    then show ?thesis by (auto intro: exI [of _ 0])
  next
    case False
    obtain hdr where hdr: "getblockheader E (uint256_ToHex E child) w = (Ret hdr, w)" "isObject hdr"
        "jget hdr ''previousblockhash'' =
          (case par child of None \<Rightarrow> JNull | Some p \<Rightarrow> JStr (uint256_ToHex E p))"
      using header [OF Suc.prems] by blast
    have ex: "(\<exists>k\<le>Suc n. nth_parent par k child = Some ancestor) \<longleftrightarrow>
        (\<exists>k\<le>n. nth_parent par (Suc k) child = Some ancestor)"
      using False by (metis Suc_le_mono nth_parent.simps(1) not0_implies_Suc option.inject)
    show ?thesis
    proof (cases "par child")
      case None
      with False hdr ex show ?thesis by (simp add: bnd_run_Ret Let_def)
    next
      case (Some p)
      with Suc.prems have p: "p \<in> known" by (rule closed)
      from False hdr Some hex [OF p] Suc.IH [OF p] ex show ?thesis
        by (simp add: bnd_run_Ret Let_def)
    qed
  qed
qed

end

end
