(* ===== verification/MyOrders.thy ===== *)
theory MyOrders
  imports Env "HOL-Library.Sublist"
begin

text \<open>
  The user's own orders: \<^verbatim>\<open>src/src/myorders.cpp\<close>. All operations work on the global state;
  the program state is the pair of that state and the outside world. The two virtual
  methods of the class, which the daemon overrides, are a record of functions.

  \<^verbatim>\<open>RunRefresh\<close> moves every valid order out of the state while it validates the next one.
  When a validation throws, the moves already made stay: the orders left behind in the
  state are empty messages.
\<close>

section \<open>The class\<close>

record 'w MyOrdersVirtual =
  ValidateOrder :: "string \<Rightarrow> Order \<Rightarrow> ('w, bool) prog"
  UpdateOrders :: "State \<Rightarrow> OrdersOfAccount \<Rightarrow> ('w, unit) prog"

text \<open>The methods of the base class: every order is valid, and nobody is told of updates.\<close>

definition base_virtual :: "'w MyOrdersVirtual" where
  "base_virtual = \<lparr>ValidateOrder = (\<lambda>account o'. ret True), UpdateOrders = (\<lambda>s oo. ret ())\<rparr>"

definition set_own :: "(uint64 \<times> Order) list \<Rightarrow> State \<Rightarrow> State" where
  "set_own os s = s\<lparr>st_own_orders := (st_own_orders s)\<lparr>ooa_orders := os\<rparr>\<rparr>"

abbreviation is_locked :: "Order \<Rightarrow> bool" where
  "is_locked o' \<equiv> dflt False (order_locked o')"

definition InternalGetOrders :: "bool \<Rightarrow> State \<Rightarrow> OrdersOfAccount" where
  "InternalGetOrders includeLocked s =
     \<lparr>ooa_account = Some (state_account s),
      ooa_orders = filter (\<lambda>(oid, o'). includeLocked \<or> \<not> is_locked o') (own_orders s)\<rparr>"

definition GetOrders :: "State \<Rightarrow> OrdersOfAccount" where
  "GetOrders s = InternalGetOrders True s"

definition refresh_step ::
    "'w MyOrdersVirtual \<Rightarrow> string \<Rightarrow> uint64 \<times> Order \<Rightarrow> (uint64 \<times> Order) list
      \<Rightarrow> (State \<times> 'w, (uint64 \<times> Order) list) prog" where
  "refresh_step V account entry updated =
     (case entry of (oid, o') \<Rightarrow>
      bnd (onW (ValidateOrder V account o')) (\<lambda>valid.
      if valid then
        bnd (modifies (\<lambda>(s, w). (set_own (AList.update oid empty_order (own_orders s)) s, w))) (\<lambda>_.
        ret (updated @ [(oid, o')]))
      else ret updated))"

definition RunRefresh :: "'w MyOrdersVirtual \<Rightarrow> (State \<times> 'w, unit) prog" where
  "RunRefresh V =
     bnd (gets fst) (\<lambda>s0.
     bnd (fold_prog (refresh_step V (state_account s0)) (own_orders s0) []) (\<lambda>updated.
     bnd (modifies (\<lambda>(s, w).
       (s\<lparr>st_own_orders := \<lparr>ooa_account = None, ooa_orders = updated\<rparr>\<rparr>, w))) (\<lambda>_.
     bnd (gets fst) (\<lambda>s.
     onW (UpdateOrders V s (InternalGetOrders False s))))))"

definition Add :: "'w MyOrdersVirtual \<Rightarrow> Order \<Rightarrow> (State \<times> 'w, bool) prog" where
  "Add V o' =
     bnd (gets fst) (\<lambda>s.
     bnd (onW (ValidateOrder V (state_account s) o')) (\<lambda>valid.
     if \<not> valid then ret False else
     let cleared = o'\<lparr>order_account := None, order_id := None\<rparr>;
         oid = dflt 0 (st_next_free_id s) in
     bnd (modifies (\<lambda>(s, w).
       (set_own (AList.update oid cleared (own_orders s)) (s\<lparr>st_next_free_id := Some (oid + 1)\<rparr>), w))) (\<lambda>_.
     bnd (RunRefresh V) (\<lambda>_. ret True))))"

definition RemoveById :: "'w MyOrdersVirtual \<Rightarrow> uint64 \<Rightarrow> (State \<times> 'w, unit) prog" where
  "RemoveById V oid =
     bnd (modifies (\<lambda>(s, w). (set_own (AList.delete oid (own_orders s)) s, w))) (\<lambda>_.
     RunRefresh V)"

text \<open>The result is the output argument when the function returns true.\<close>

definition TryLock :: "'w MyOrdersVirtual \<Rightarrow> uint64 \<Rightarrow> (State \<times> 'w, Order option) prog" where
  "TryLock V oid =
     bnd (gets fst) (\<lambda>s.
     case map_of (own_orders s) oid of
       None \<Rightarrow> ret None
     | Some o' \<Rightarrow>
         if is_locked o' then ret None else
         let out = o'\<lparr>order_account := Some (state_account s), order_id := Some oid\<rparr> in
         bnd (modifies (\<lambda>(s, w).
           (set_own (AList.update oid (o'\<lparr>order_locked := Some True\<rparr>) (own_orders s)) s, w))) (\<lambda>_.
         bnd (RunRefresh V) (\<lambda>_. ret (Some out))))"

definition Unlock :: "'w MyOrdersVirtual \<Rightarrow> uint64 \<Rightarrow> (State \<times> 'w, unit) prog" where
  "Unlock V oid =
     bnd (gets fst) (\<lambda>s.
     case map_of (own_orders s) oid of
       None \<Rightarrow> fatal
     | Some o' \<Rightarrow>
         checked (is_locked o') (
         bnd (modifies (\<lambda>(s, w).
           (set_own (AList.update oid (o'\<lparr>order_locked := None\<rparr>) (own_orders s)) s, w))) (\<lambda>_.
         RunRefresh V)))"

section \<open>Basic laws\<close>

lemma set_own_simps [simp]:
  "own_orders (set_own os s) = os" "st_account (set_own os s) = st_account s"
  "st_next_free_id (set_own os s) = st_next_free_id s" "st_trades (set_own os s) = st_trades s"
  "st_trade_archive (set_own os s) = st_trade_archive s"
  by (simp_all add: set_own_def)

text \<open>What no operation of this class touches: the account, the trades and the archive.\<close>

definition frame :: "State \<Rightarrow> string option \<times> TradeState list \<times> Trade list" where
  "frame s = (st_account s, st_trades s, st_trade_archive s)"

lemma frame_simps [simp]:
  "frame (set_own os s) = frame s" "frame (st_next_free_id_update f s) = frame s"
  "frame (st_own_orders_update g s) = frame s"
  by (simp_all add: frame_def)

lemma keeps_frame_modifies:
  "(\<And>s. frame (f s) = frame s) \<Longrightarrow> keeps (\<lambda>sw. P (frame (fst sw))) (modifies (\<lambda>(s, w). (f s, w)))"
  by (rule keeps_modifies) auto

lemma keeps_onW_frame: "keeps (\<lambda>sw. P (frame (fst sw))) (onW m)"
  by (auto simp: keeps_def onW_def split: prod.splits)

lemma keeps_fold_prog: "(\<And>x b. keeps I (f x b)) \<Longrightarrow> keeps I (fold_prog f xs b)"
  by (induction xs arbitrary: b) (auto intro: keeps_intro)

lemma keeps_case_option [keeps_intro]:
  "keeps I m \<Longrightarrow> (\<And>x. keeps I (f x)) \<Longrightarrow> keeps I (case r of None \<Rightarrow> m | Some x \<Rightarrow> f x)"
  by (cases r) auto

lemmas frame_keeps = keeps_intro keeps_onW_frame keeps_frame_modifies keeps_fold_prog

lemma RunRefresh_frame: "keeps (\<lambda>sw. P (frame (fst sw))) (RunRefresh V)"
  unfolding RunRefresh_def
  by (auto intro!: frame_keeps simp: refresh_step_def split: prod.splits)

section \<open>What a refresh keeps\<close>

lemma subseq_set: "subseq xs ys \<Longrightarrow> set xs \<subseteq> set ys"
  by (induction rule: list_emb.induct) auto

lemma subseq_distinct_fst: "subseq xs ys \<Longrightarrow> distinct (map fst ys) \<Longrightarrow> distinct (map fst xs)"
  by (induction rule: list_emb.induct) (auto dest: subseq_set)

lemma refresh_step_Ret:
  "refresh_step V account (oid, ord) acc (s, w) = (Ret r, t) \<longleftrightarrow>
     (\<exists>valid w1. ValidateOrder V account ord w = (Ret valid, w1) \<and>
        r = (if valid then acc @ [(oid, ord)] else acc) \<and>
        t = (if valid then set_own (AList.update oid empty_order (own_orders s)) s else s, w1))"
  by (auto simp: refresh_step_def prog_inv split: if_splits)

lemma refresh_fold_Ret:
  assumes "fold_prog (refresh_step V account) entries acc (s, w) = (Ret updated, (s', w'))"
  shows "\<exists>kept os. updated = acc @ kept \<and> subseq kept entries \<and> s' = set_own os s"
  using assms
proof (induction entries arbitrary: acc s w)
  case Nil
  then have "updated = acc" and "s' = s" by auto
  moreover have "s = set_own (own_orders s) s" by (simp add: set_own_def)
  ultimately show ?case by (intro exI [of _ "[]"] exI [of _ "own_orders s"]) auto
next
  case (Cons e es)
  obtain oid ord where e: "e = (oid, ord)" by (cases e)
  from Cons.prems e obtain valid w1 where
    "fold_prog (refresh_step V account) es (if valid then acc @ [e] else acc)
       (if valid then set_own (AList.update oid empty_order (own_orders s)) s else s, w1)
     = (Ret updated, (s', w'))"
    by (auto simp: refresh_step_Ret bnd_Ret_iff)
  from Cons.IH [OF this] obtain kept os where
    "updated = (if valid then acc @ [e] else acc) @ kept" "subseq kept es"
    "s' = set_own os (if valid then set_own (AList.update oid empty_order (own_orders s)) s else s)"
    by blast
  then show ?case
    by (intro exI [of _ "if valid then e # kept else kept"] exI [of _ os])
       (auto simp: set_own_def)
qed

lemma RunRefresh_Ret:
  assumes "RunRefresh V (s, w) = (Ret u, (s', w'))"
  obtains os where "subseq os (own_orders s)"
    "s' = s\<lparr>st_own_orders := \<lparr>ooa_account = None, ooa_orders = os\<rparr>\<rparr>"
proof -
  from assms obtain updated s1 w1 where
      fold: "fold_prog (refresh_step V (state_account s)) (own_orders s) [] (s, w) = (Ret updated, (s1, w1))"
    and s': "s' = s1\<lparr>st_own_orders := \<lparr>ooa_account = None, ooa_orders = updated\<rparr>\<rparr>"
    by (auto simp: RunRefresh_def prog_inv)
  from refresh_fold_Ret [OF fold] obtain os where "subseq updated (own_orders s)" "s1 = set_own os s"
    by auto
  with s' that [of updated] show thesis by (simp add: set_own_def)
qed

section \<open>Well-formed own orders and held locks\<close>

abbreviation next_id :: "State \<Rightarrow> uint64" where
  "next_id s \<equiv> dflt 0 (st_next_free_id s)"

definition orders_wf :: "State \<Rightarrow> bool" where
  "orders_wf s \<longleftrightarrow> distinct (map fst (own_orders s)) \<and> (\<forall>oid \<in> fst ` set (own_orders s). oid < next_id s)"

text \<open>
  An order is held when its ID has been given out and it is not available any more: it is
  either locked or gone.
\<close>

definition held :: "uint64 \<Rightarrow> State \<Rightarrow> bool" where
  "held oid s \<longleftrightarrow> oid < next_id s \<and> (\<forall>ord. map_of (own_orders s) oid = Some ord \<longrightarrow> is_locked ord)"

lemma orders_wf_init: "orders_wf (init_state account)"
  by (simp add: orders_wf_def init_state_def empty_ooa_def)

lemma map_of_subseq:
  assumes "distinct (map fst xs)" "subseq os xs" "map_of os k = Some v"
  shows "map_of xs k = Some v"
  using assms by (meson map_of_SomeD map_of_is_SomeI subseq_set subsetD)

lemma orders_wf_refresh:
  assumes "orders_wf s" "subseq os (own_orders s)"
  shows "orders_wf (s\<lparr>st_own_orders := \<lparr>ooa_account = None, ooa_orders = os\<rparr>\<rparr>)"
  using assms by (auto simp: orders_wf_def dest: subseq_set subseq_distinct_fst)

section \<open>What the operations do to the orders\<close>

text \<open>A refresh after the own orders were set to \<open>os\<close>.\<close>

definition refreshed :: "(uint64 \<times> Order) list \<Rightarrow> State \<Rightarrow> State \<Rightarrow> bool" where
  "refreshed os s s' \<longleftrightarrow> (\<exists>kept. subseq kept os \<and>
     s' = s\<lparr>st_own_orders := \<lparr>ooa_account = None, ooa_orders = kept\<rparr>\<rparr>)"

lemma RunRefresh_refreshed:
  "RunRefresh V (s, w) = (Ret u, (s', w')) \<Longrightarrow> refreshed (own_orders s) s s'"
  by (elim RunRefresh_Ret) (auto simp: refreshed_def)

lemma RunRefresh_set_own:
  "RunRefresh V (set_own os s, w) = (Ret u, (s', w')) \<Longrightarrow> refreshed os s s'"
  by (drule RunRefresh_refreshed) (auto simp: refreshed_def set_own_def)

lemma Add_True:
  assumes "Add V ord (s, w) = (Ret True, (s', w'))"
  shows "refreshed (AList.update (next_id s) (ord\<lparr>order_account := None, order_id := None\<rparr>) (own_orders s))
    (s\<lparr>st_next_free_id := Some (next_id s + 1)\<rparr>) s'"
  using assms by (auto simp: Add_def prog_inv Let_def dest!: RunRefresh_set_own split: if_splits)

lemma Add_False: "Add V ord (s, w) = (Ret False, (s', w')) \<Longrightarrow> s' = s"
  by (auto simp: Add_def prog_inv Let_def split: if_splits)

lemma RemoveById_Ret:
  "RemoveById V oid (s, w) = (Ret u, (s', w')) \<Longrightarrow> refreshed (AList.delete oid (own_orders s)) s s'"
  by (auto simp: RemoveById_def prog_inv dest!: RunRefresh_set_own)

lemma TryLock_Some:
  assumes "TryLock V oid (s, w) = (Ret (Some out), (s', w'))"
  obtains ord where "map_of (own_orders s) oid = Some ord" "\<not> is_locked ord"
    "out = ord\<lparr>order_account := Some (state_account s), order_id := Some oid\<rparr>"
    "refreshed (AList.update oid (ord\<lparr>order_locked := Some True\<rparr>) (own_orders s)) s s'"
  using assms
  by (auto simp: TryLock_def prog_inv Let_def dest!: RunRefresh_set_own
      split: if_splits option.splits)

lemma TryLock_None:
  assumes "TryLock V oid (s, w) = (Ret None, (s', w'))"
  shows "s' = s \<and> w' = w \<and> (\<forall>ord. map_of (own_orders s) oid = Some ord \<longrightarrow> is_locked ord)"
  using assms by (auto simp: TryLock_def prog_inv Let_def split: if_splits option.splits)

lemma Unlock_Ret:
  assumes "Unlock V oid (s, w) = (Ret u, (s', w'))"
  obtains ord where "map_of (own_orders s) oid = Some ord" "is_locked ord"
    "refreshed (AList.update oid (ord\<lparr>order_locked := None\<rparr>) (own_orders s)) s s'"
  using assms
  by (auto simp: Unlock_def prog_inv dest!: RunRefresh_set_own split: option.splits)

subsection \<open>Effects on well-formedness and locks\<close>

lemma refreshed_wf:
  assumes "refreshed os s s'" "distinct (map fst os)" "\<forall>oid \<in> fst ` set os. oid < next_id s"
  shows "orders_wf s'"
  using assms by (fastforce simp: refreshed_def orders_wf_def dest: subseq_set subseq_distinct_fst)

lemma refreshed_held:
  assumes "refreshed os s s'" "distinct (map fst os)" "oid < next_id s"
    "\<And>ord. map_of os oid = Some ord \<Longrightarrow> is_locked ord"
  shows "held oid s'"
proof -
  from assms(1) obtain kept where "subseq kept os"
      and s': "s' = s\<lparr>st_own_orders := \<lparr>ooa_account = None, ooa_orders = kept\<rparr>\<rparr>"
    by (auto simp: refreshed_def)
  have "is_locked ord" if "map_of kept oid = Some ord" for ord
    by (rule assms(4), rule map_of_subseq [OF assms(2) \<open>subseq kept os\<close> that])
  with assms(3) s' show ?thesis by (simp add: held_def)
qed

lemma word_less_inc: "(b :: uint64) \<noteq> - 1 \<Longrightarrow> b < b + 1"
proof -
  assume "b \<noteq> - 1"
  then have "unat (1 + b) = Suc (unat b)"
    using max_word_wrap [of b] by (intro unatSuc) (auto simp: add.commute)
  then show "b < b + 1" by (simp add: word_less_nat_alt add.commute)
qed

lemma word_less_Suc: "(a :: uint64) < b \<Longrightarrow> b \<noteq> - 1 \<Longrightarrow> a < b + 1"
  by (erule less_trans) (rule word_less_inc)

section \<open>Runs of operations\<close>

text \<open>
  The completed operations on the own orders, in any order and from any state of the outside
  world: this is what the other parts of the daemon and its threads do to them. An addition
  is a step while the 64-bit counter of order IDs has not reached its last value.
\<close>

datatype own_event =
    EvAdd Order | EvReject Order | EvRemove uint64 | EvLock uint64 | EvRefuse uint64
  | EvUnlock uint64 | EvRefresh

inductive own_step :: "'w MyOrdersVirtual \<Rightarrow> own_event \<Rightarrow> State \<Rightarrow> State \<Rightarrow> bool"
  for V :: "'w MyOrdersVirtual" where
  add: "Add V ord (s, w) = (Ret True, (s', w')) \<Longrightarrow> next_id s \<noteq> - 1 \<Longrightarrow> own_step V (EvAdd ord) s s'"
| reject: "Add V ord (s, w) = (Ret False, (s', w')) \<Longrightarrow> own_step V (EvReject ord) s s'"
| remove: "RemoveById V oid (s, w) = (Ret u, (s', w')) \<Longrightarrow> own_step V (EvRemove oid) s s'"
| lock: "TryLock V oid (s, w) = (Ret (Some out), (s', w')) \<Longrightarrow> own_step V (EvLock oid) s s'"
| refuse: "TryLock V oid (s, w) = (Ret None, (s', w')) \<Longrightarrow> own_step V (EvRefuse oid) s s'"
| unlock: "Unlock V oid (s, w) = (Ret u, (s', w')) \<Longrightarrow> own_step V (EvUnlock oid) s s'"
| refresh: "RunRefresh V (s, w) = (Ret u, (s', w')) \<Longrightarrow> own_step V EvRefresh s s'"

inductive_cases own_step_lockE: "own_step V (EvLock oid) s s'"

lemma update_wf:
  assumes "orders_wf s" "oid < n" "next_id s \<le> n"
  shows "distinct (map fst (AList.update oid ord (own_orders s)))"
    "\<forall>k \<in> fst ` set (AList.update oid ord (own_orders s)). k < n"
  using assms by (auto simp: orders_wf_def distinct_update dom_update)

lemma in_orders_less: "orders_wf s \<Longrightarrow> map_of (own_orders s) oid = Some ord \<Longrightarrow> oid < next_id s"
  by (force simp: orders_wf_def dest: map_of_SomeD)

lemma own_step_wf:
  assumes "own_step V e s s'" "orders_wf s"
  shows "orders_wf s'"
  using assms
proof (induction rule: own_step.induct)
  case (add ord s w s' w')
  then have "next_id s < next_id s + 1" by (simp add: word_less_inc)
  then show ?case
    using Add_True [OF add.hyps(1)] update_wf [OF add.prems, of "next_id s" "next_id s + 1"]
    by (elim refreshed_wf) auto
next
  case (remove oid s w u s' w')
  from remove.prems have "distinct (map fst (AList.delete oid (own_orders s)))"
    "\<forall>k \<in> fst ` set (AList.delete oid (own_orders s)). k < next_id s"
    using dom_delete_subset [of oid "own_orders s"]
    unfolding orders_wf_def by (simp add: distinct_delete, blast)
  with RemoveById_Ret [OF remove.hyps] show ?case by (rule refreshed_wf)
next
  case (lock oid s w out s' w')
  then show ?case
    by (elim TryLock_Some, elim refreshed_wf) (use in_orders_less update_wf in blast)+
next
  case (unlock oid s w u s' w')
  then show ?case
    by (elim Unlock_Ret, elim refreshed_wf) (use in_orders_less update_wf in blast)+
next
  case (refresh s w u s' w')
  from refresh.prems show ?case
    by (intro refreshed_wf [OF RunRefresh_refreshed [OF refresh.hyps]]) (simp_all add: orders_wf_def)
qed (auto dest: Add_False TryLock_None)

lemma own_step_lock:
  assumes "own_step V (EvLock oid) s s'" "orders_wf s"
  shows "\<not> held oid s \<and> held oid s'"
  using assms(1)
proof (rule own_step_lockE)
  fix w out w'
  assume "TryLock V oid (s, w) = (Ret (Some out), s', w')"
  then obtain ord where ord: "map_of (own_orders s) oid = Some ord" "\<not> is_locked ord"
    and r: "refreshed (AList.update oid (ord\<lparr>order_locked := Some True\<rparr>) (own_orders s)) s s'"
    by (rule TryLock_Some)
  have less: "oid < next_id s" using in_orders_less [OF assms(2) ord(1)] .
  from r have "held oid s'"
    by (rule refreshed_held) (use less update_wf(1) [OF assms(2) less] in \<open>auto simp: update_conv'\<close>)
  with ord show ?thesis by (auto simp: held_def)
qed

lemma own_step_held:
  assumes "own_step V e s s'" "orders_wf s" "e \<noteq> EvUnlock oid" "held oid s"
  shows "held oid s'"
  using assms
proof (induction rule: own_step.induct)
  case (add ord s w s' w')
  then have less: "oid < next_id s" and neq: "oid \<noteq> next_id s" by (auto simp: held_def)
  from add.hyps(2) less have "oid < next_id s + 1" by (simp add: word_less_Suc)
  moreover note inc = word_less_inc [OF add.hyps(2)]
  ultimately show ?case
    using neq add.prems update_wf(1) [OF add.prems(1) inc order.strict_implies_order [OF inc]]
    by (intro refreshed_held [OF Add_True [OF add.hyps(1)]]) (auto simp: update_conv' held_def)
next
  case (remove k s w u s' w')
  then show ?case
    by (intro refreshed_held [OF RemoveById_Ret [OF remove.hyps]])
       (auto simp: held_def delete_conv' distinct_delete orders_wf_def split: if_splits)
next
  case (lock k s w out s' w')
  from lock.hyps lock.prems(1) show ?case
  proof (cases rule: TryLock_Some)
    case (1 ord)
    then show ?thesis
      using lock.prems update_wf(1) [OF lock.prems(1) in_orders_less [OF lock.prems(1) 1(1)]]
      by (intro refreshed_held [OF 1(4)]) (auto simp: held_def update_conv' split: if_splits)
  qed
next
  case (unlock k s w u s' w')
  from unlock.hyps show ?case
  proof (cases rule: Unlock_Ret)
    case (1 ord)
    then show ?thesis
      using unlock.prems update_wf(1) [OF unlock.prems(1) in_orders_less [OF unlock.prems(1) 1(1)]]
      by (intro refreshed_held [OF 1(3)]) (auto simp: held_def update_conv' split: if_splits)
  qed
next
  case (refresh s w u s' w')
  then show ?case
    by (intro refreshed_held [OF RunRefresh_refreshed [OF refresh.hyps]])
       (auto simp: held_def orders_wf_def)
qed (auto dest: Add_False TryLock_None)

section \<open>Exclusive locks\<close>

text \<open>
  The contract of a store of lockable items: a lock is only given out on an item nobody
  holds, and a held item stays held until it is unlocked. A client may conclude that between
  two locks of the same item there is an unlock.
\<close>

locale lock_store =
  fixes step :: "'e \<Rightarrow> 's \<Rightarrow> 's \<Rightarrow> bool"
    and inv :: "'s \<Rightarrow> bool"
    and holds :: "'k \<Rightarrow> 's \<Rightarrow> bool"
    and lk :: "'k \<Rightarrow> 'e"
    and unlk :: "'k \<Rightarrow> 'e"
  assumes inv_step: "inv s \<Longrightarrow> step e s t \<Longrightarrow> inv t"
    and lk_free: "inv s \<Longrightarrow> step (lk k) s t \<Longrightarrow> \<not> holds k s"
    and lk_holds: "inv s \<Longrightarrow> step (lk k) s t \<Longrightarrow> holds k t"
    and holds_step: "inv s \<Longrightarrow> step e s t \<Longrightarrow> e \<noteq> unlk k \<Longrightarrow> holds k s \<Longrightarrow> holds k t"
begin

lemma inv_runs: "runs step s es t \<Longrightarrow> inv s \<Longrightarrow> inv t"
  by (erule runs_invariant) (auto intro: inv_step)

lemma holds_runs:
  "runs step s es t \<Longrightarrow> inv s \<Longrightarrow> unlk k \<notin> set es \<Longrightarrow> holds k s \<Longrightarrow> holds k t"
  by (induction rule: runs.induct) (auto intro: inv_step holds_step)

lemma unlock_between_locks:
  assumes "inv s" "runs step s (as @ lk k # bs @ lk k # cs) t"
  shows "unlk k \<in> set bs"
proof (rule ccontr)
  assume no: "unlk k \<notin> set bs"
  from assms(2) obtain s1 s2 s3 s4 where run: "runs step s as s1" "step (lk k) s1 s2"
      "runs step s2 bs s3" "step (lk k) s3 s4"
    by (auto simp: runs_append_iff runs_cons_iff)
  from run(1) assms(1) have i1: "inv s1" by (rule inv_runs)
  with run(2) have "inv s2" "holds k s2" by (auto intro: inv_step lk_holds)
  with run(3) no have "inv s3" "holds k s3" by (auto intro: inv_runs holds_runs)
  with run(4) show False by (auto dest: lk_free)
qed

end

interpretation own: lock_store "own_step V" orders_wf held EvLock EvUnlock
  for V :: "'w MyOrdersVirtual"
  by unfold_locales (auto dest: own_step_wf own_step_lock own_step_held)

section \<open>What a refresh keeps and tells\<close>

text \<open>
  The contract of a validation that neither fails nor changes the world: \<open>ok\<close> says which orders
  of an account are valid.
\<close>

locale order_validator =
  fixes V :: "'w MyOrdersVirtual"
    and ok :: "string \<Rightarrow> Order \<Rightarrow> bool"
    and quiet :: "'w \<Rightarrow> bool"
  assumes validate: "quiet w \<Longrightarrow> ValidateOrder V account ord w = (Ret (ok account ord), w)"
begin

lemma refresh_fold:
  "quiet w \<Longrightarrow> \<exists>os. fold_prog (refresh_step V account) entries acc (s, w) =
     (Ret (acc @ filter (\<lambda>(oid, ord). ok account ord) entries), (set_own os s, w))"
proof (induction entries arbitrary: acc s)
  case Nil
  then show ?case by (intro exI [of _ "own_orders s"]) (simp add: set_own_def)
next
  case (Cons e es)
  obtain oid ord where e: "e = (oid, ord)" by (cases e)
  let ?s1 = "if ok account ord then set_own (AList.update oid empty_order (own_orders s)) s else s"
  have "refresh_step V account e acc (s, w) = (Ret (if ok account ord then acc @ [e] else acc), (?s1, w))"
    using validate [OF Cons.prems, of account ord] by (simp add: refresh_step_def e bnd_def onW_def)
  moreover from Cons.IH [OF Cons.prems, of "if ok account ord then acc @ [e] else acc" ?s1] obtain os where
    "fold_prog (refresh_step V account) es (if ok account ord then acc @ [e] else acc) (?s1, w) =
      (Ret ((if ok account ord then acc @ [e] else acc) @ filter (\<lambda>(oid, ord). ok account ord) es), (set_own os ?s1, w))"
    by blast
  ultimately show ?case using e by (intro exI [of _ os]) (auto simp: bnd_run_Ret set_own_def)
qed

lemma refresh_eq:
  assumes "quiet w"
  shows "RunRefresh V (s, w) =
    (let s' = s\<lparr>st_own_orders := \<lparr>ooa_account = None,
           ooa_orders = filter (\<lambda>(oid, ord). ok (state_account s) ord) (own_orders s)\<rparr>\<rparr> in
     case UpdateOrders V s' (InternalGetOrders False s') w of (r, w') \<Rightarrow> (r, (s', w')))"
proof -
  from refresh_fold [OF assms, of "state_account s" "own_orders s" "[]" s] obtain os where
    "fold_prog (refresh_step V (state_account s)) (own_orders s) [] (s, w) =
      (Ret (filter (\<lambda>(oid, ord). ok (state_account s) ord) (own_orders s)), (set_own os s, w))" by auto
  then show ?thesis by (simp add: RunRefresh_def bnd_run_Ret set_own_def onW_def Let_def)
qed

end

interpretation base: order_validator base_virtual "\<lambda>account ord. True" "\<lambda>w. True"
  by unfold_locales (simp add: base_virtual_def)

section \<open>Properties\<close>


definition one_order :: State where
  "one_order = (init_state ''me'')\<lparr>st_next_free_id := Some 1,
     st_own_orders := \<lparr>ooa_account = None, ooa_orders = [(0, empty_order)]\<rparr>\<rparr>"

definition one_locked :: State where
  "one_locked = set_own [(0, empty_order\<lparr>order_locked := Some True\<rparr>)] one_order"

lemma one_order_steps:
  "own_step (base_virtual :: unit MyOrdersVirtual) (EvLock 0) one_order one_locked"
  "own_step (base_virtual :: unit MyOrdersVirtual) (EvUnlock 0) one_locked one_order"
proof -
  have "TryLock base_virtual 0 (one_order, ()) =
      (Ret (Some (empty_order\<lparr>order_account := Some ''me'', order_id := Some 0\<rparr>)), (one_locked, ()))" by code_simp
  then show "own_step (base_virtual :: unit MyOrdersVirtual) (EvLock 0) one_order one_locked" by (rule own_step.lock)
  have "Unlock base_virtual 0 (one_locked, ()) = (Ret (), (one_order, ()))" by code_simp
  then show "own_step (base_virtual :: unit MyOrdersVirtual) (EvUnlock 0) one_locked one_order" by (rule own_step.unlock)
qed


text \<open>
  With a validation that answers, a refresh keeps exactly the valid own orders, in their
  order, and publishes exactly those of them that are not locked, under our account.
\<close>

theorem refresh_publishes_unlocked_valid:
  assumes "order_validator V ok quiet" "quiet w"
  shows "\<exists>r s' w'. RunRefresh V (s, w) = (r, (s', w')) \<and>
    own_orders s' = filter (\<lambda>(oid, ord). ok (state_account s) ord) (own_orders s) \<and>
    UpdateOrders V s' \<lparr>ooa_account = Some (state_account s),
      ooa_orders = filter (\<lambda>(oid, ord). ok (state_account s) ord \<and> \<not> is_locked ord) (own_orders s)\<rparr> w = (r, w')"
proof -
  let ?s' = "s\<lparr>st_own_orders := \<lparr>ooa_account = None,
      ooa_orders = filter (\<lambda>(oid, ord). ok (state_account s) ord) (own_orders s)\<rparr>\<rparr>"
  have "InternalGetOrders False ?s' = \<lparr>ooa_account = Some (state_account s),
      ooa_orders = filter (\<lambda>(oid, ord). ok (state_account s) ord \<and> \<not> is_locked ord) (own_orders s)\<rparr>"
    by (auto simp: InternalGetOrders_def intro!: filter_cong)
  then show ?thesis
    using order_validator.refresh_eq [OF assms(1), OF assms(2), of s]
    by (cases "UpdateOrders V ?s' (InternalGetOrders False ?s') w") (auto simp: Let_def)
qed

theorem refresh_publishes_unlocked_valid_witness:
  "\<exists>r s' w'. RunRefresh base_virtual (one_locked, ()) = (r, (s', w')) \<and>
    own_orders s' = filter (\<lambda>(oid, ord). True) (own_orders one_locked) \<and>
    UpdateOrders base_virtual s' \<lparr>ooa_account = Some (state_account one_locked),
      ooa_orders = filter (\<lambda>(oid, ord). True \<and> \<not> is_locked ord) (own_orders one_locked)\<rparr> () = (r, w')"
  by (rule refresh_publishes_unlocked_valid [OF base.order_validator_axioms]) simp

definition second_fails :: "nat MyOrdersVirtual" where
  "second_fails = \<lparr>ValidateOrder = (\<lambda>account ord n.
       if n = 0 then (Ret True, 1) else (Throw (JsonRpcException (- 1) ''unavailable''), n)),
     UpdateOrders = (\<lambda>s oo. ret ())\<rparr>"

text \<open>
  A refresh is not safe against exceptions. When the validation of a later order throws,
  the valid orders before it have already been moved out of the state: they stay behind as
  empty, unlocked orders.
\<close>

theorem refresh_exception_loses_orders:
  "\<exists>s s' w'. map_of (own_orders s) 0 = Some (empty_order\<lparr>order_asset := Some ''gold'', order_locked := Some True\<rparr>) \<and>
     RunRefresh second_fails (s, 0) = (Throw (JsonRpcException (- 1) ''unavailable''), (s', w')) \<and>
     map_of (own_orders s') 0 = Some empty_order"
proof -
  let ?s = "set_own [(0, empty_order\<lparr>order_asset := Some ''gold'', order_locked := Some True\<rparr>), (1, empty_order)] one_order"
  have "RunRefresh second_fails (?s, 0) = (Throw (JsonRpcException (- 1) ''unavailable''),
      (set_own [(0, empty_order), (1, empty_order)] ?s, 1))" by code_simp
  then show ?thesis by (intro exI [of _ ?s] exI conjI) (assumption | simp)+
qed

end
