(* ===== verification/Trades.thy ===== *)
theory Trades
  imports Checker MyOrders
begin

text \<open>
  One trade: the class \<^verbatim>\<open>Trade\<close> of \<^verbatim>\<open>src/src/trades.cpp\<close>. A trade object wraps one
  \<^verbatim>\<open>TradeState\<close> message for the user's account; its methods run on the pair of that message
  and the outside world. The trade manager's members (RPC connections, asset spec, flags,
  own orders) are the record \<open>TM\<close>.

  The checker that the constructor builds depends only on the account and on the order,
  units and counterparty of the message, which no method changes, so the methods build it
  when they need it. \<^verbatim>\<open>isMutable\<close> is true where a mutating method is called. An output message is only
  used by a caller when the method returns true: the result is then \<open>Some\<close> of it.
\<close>

section \<open>Helpers on the wallet\<close>

definition NAME_VALUE :: Amount where
  "NAME_VALUE = 1000000"

definition outpoint_json :: "OutPoint \<Rightarrow> json" where
  "outpoint_json out = jset ''vout'' (JInt (sint (dflt 0 (op_n out) :: int32)))
     (jset ''txid'' (JStr (dflt [] (op_hash out))) jempty)"

definition LockUnspent :: "'w env \<Rightarrow> bool \<Rightarrow> OutPoint \<Rightarrow> ('w, bool) prog" where
  "LockUnspent E lock out =
     catch (lockunspent E (\<not> lock) (JArr [outpoint_json out])) (\<lambda>exc. ret False)"

definition UnlockPsbtInputs :: "'w env \<Rightarrow> string \<Rightarrow> ('w, unit) prog" where
  "UnlockPsbtInputs E psbt =
     bnd (decodepsbt E psbt) (\<lambda>decoded.
     checked (isObject decoded) (
     let tx = jget decoded ''tx'' in
     checked (isObject tx) (
     let vin = jget tx ''vin'' in
     checked (isArray vin) (
     for_each (\<lambda>inp. bnd (OutPointFromJson inp) (\<lambda>out. bnd (LockUnspent E False out) (\<lambda>_. ret ())))
       (jelems vin)))))"

text \<open>The signed PSBT and the flag whether it is complete.\<close>

definition SignPsbt :: "'w env \<Rightarrow> string \<Rightarrow> ('w, string \<times> bool) prog" where
  "SignPsbt E psbt =
     bnd (walletprocesspsbt E psbt) (\<lambda>reply.
     checked (isObject reply) (
     let psbtVal = jget reply ''psbt'' in
     checked (isString psbtVal) (
     let completeVal = jget reply ''complete'' in
     checked (isBool completeVal) (
     ret (jtext psbtVal, asBool completeVal)))))"

section \<open>Views of a trade\<close>

abbreviation ord_account :: "TradeState \<Rightarrow> string" where
  "ord_account pb \<equiv> dflt [] (order_account (ts_order pb))"

abbreviation ord_id :: "TradeState \<Rightarrow> uint64" where
  "ord_id pb \<equiv> dflt 0 (order_id (ts_order pb))"

abbreviation ord_type :: "TradeState \<Rightarrow> order_type" where
  "ord_type pb \<equiv> dflt ASK (order_type (ts_order pb))"

abbreviation counterparty :: "TradeState \<Rightarrow> string" where
  "counterparty pb \<equiv> dflt [] (ts_counterparty pb)"

abbreviation status :: "TradeState \<Rightarrow> trade_status" where
  "status pb \<equiv> dflt INITIATED (ts_state pb)"

definition GetRole :: "string \<Rightarrow> TradeState \<Rightarrow> trade_role" where
  "GetRole account pb = (if ord_account pb = account then MAKER else TAKER)"

definition GetOrderType :: "string \<Rightarrow> TradeState \<Rightarrow> order_type" where
  "GetOrderType account pb =
     (if GetRole account pb = MAKER then ord_type pb
      else case ord_type pb of BID \<Rightarrow> ASK | ASK \<Rightarrow> BID)"

definition BuildTradeChecker :: "string \<Rightarrow> TradeState \<Rightarrow> TradeChecker" where
  "BuildTradeChecker account pb =
     (case (case GetOrderType account pb of
              BID \<Rightarrow> (account, counterparty pb)
            | ASK \<Rightarrow> (counterparty pb, account)) of (buyer, seller) \<Rightarrow>
      \<lparr>tc_buyer = buyer, tc_seller = seller, tc_asset = dflt [] (order_asset (ts_order pb)),
       tc_price = dflt 0 (order_price_sat (ts_order pb)), tc_units = dflt 0 (ts_units pb)\<rparr>)"

definition GetIdentifier :: "TradeState \<Rightarrow> string" where
  "GetIdentifier pb = ord_account pb @ CHR 0x0A # show_nat (unat (ord_id pb))"

definition InitProcessingMessage :: "TradeState \<Rightarrow> ProcessingMessage" where
  "InitProcessingMessage pb =
     empty_pm\<lparr>pm_counterparty := Some (counterparty pb), pm_identifier := Some (GetIdentifier pb)\<rparr>"

definition SetTakingOrder :: "TradeState \<Rightarrow> ProcessingMessage \<Rightarrow> ProcessingMessage" where
  "SetTakingOrder pb msg =
     msg\<lparr>pm_taking_order := Some \<lparr>to_id = Some (ord_id pb), to_units = Some (dflt 0 (ts_units pb))\<rparr>\<rparr>"

definition IsFinalised :: "TradeState \<Rightarrow> bool" where
  "IsFinalised pb =
     (case ts_state pb of
        None \<Rightarrow> False
      | Some st \<Rightarrow> (case st of ABANDONED \<Rightarrow> True | SUCCESS \<Rightarrow> True | FAILED \<Rightarrow> True | _ \<Rightarrow> False))"

definition GetPublicInfo :: "string \<Rightarrow> TradeState \<Rightarrow> Trade" where
  "GetPublicInfo account pb =
     \<lparr>trade_state = Some (status pb), trade_start_time = Some (dflt 0 (ts_start_time pb)),
      trade_counterparty = Some (counterparty pb), trade_type = Some (GetOrderType account pb),
      trade_asset = Some (dflt [] (order_asset (ts_order pb))), trade_units = Some (dflt 0 (ts_units pb)),
      trade_price_sat = Some (dflt 0 (order_price_sat (ts_order pb))),
      trade_role = Some (GetRole account pb)\<rparr>"

definition Matches :: "ProcessingMessage \<Rightarrow> TradeState \<Rightarrow> bool" where
  "Matches msg pb \<longleftrightarrow> dflt [] (pm_counterparty msg) = counterparty pb \<and>
     dflt [] (pm_identifier msg) = GetIdentifier pb"

section \<open>Messages of the counterparty\<close>

definition MergeSellerData :: "string \<Rightarrow> SellerData \<Rightarrow> TradeState \<Rightarrow> TradeState" where
  "MergeSellerData account sd pb =
     (if GetOrderType account pb = ASK then pb
      else if has (ts_seller_data pb) then pb
      else if \<not> has (sd_name_address sd) \<or> \<not> has (sd_chi_address sd) \<or> has (sd_name_output sd) then pb
      else if dflt [] (sd_name_address sd) = dflt [] (sd_chi_address sd) then pb
      else pb\<lparr>ts_seller_data := Some sd\<rparr>)"

definition MergePsbt :: "TradePsbt \<Rightarrow> TradeState \<Rightarrow> TradeState" where
  "MergePsbt psbt pb =
     (if has (ts_their_psbt pb) then pb
      else pb\<lparr>ts_their_psbt := Some (dflt [] (tp_psbt psbt))\<rparr>)"

definition HandleMessage :: "string \<Rightarrow> ProcessingMessage \<Rightarrow> TradeState \<Rightarrow> TradeState" where
  "HandleMessage account msg pb =
     (if status pb \<noteq> INITIATED then pb else
      let pb1 = (case pm_seller_data msg of None \<Rightarrow> pb | Some sd \<Rightarrow> MergeSellerData account sd pb) in
      case pm_psbt msg of None \<Rightarrow> pb1 | Some psbt \<Rightarrow> MergePsbt psbt pb1)"

section \<open>The next step of a trade\<close>

record 'w TradeManager =
  tm_env :: "'w env"
  tm_spec :: "'w AssetSpec"
  tm_flags :: flags
  tm_myOrders :: "'w MyOrdersVirtual"

definition CreateSellerData :: "'w TradeManager \<Rightarrow> string \<Rightarrow> (TradeState \<times> 'w, bool) prog" where
  "CreateSellerData TM account =
     bnd (gets fst) (\<lambda>pb.
     if GetOrderType account pb \<noteq> ASK then ret False else
     if has (ts_seller_data pb) then ret False else
     bnd (onW (GetNameOutPoint (tm_env TM) account)) (\<lambda>nameOut.
     bnd (onW (LockUnspent (tm_env TM) True nameOut)) (\<lambda>locked.
     if \<not> locked then ret False else
     bnd (onW (getnewaddress (tm_env TM))) (\<lambda>nameAddr.
     bnd (onW (getnewaddress (tm_env TM))) (\<lambda>chiAddr.
     bnd (modifies (\<lambda>(pb, w). (pb\<lparr>ts_seller_data := Some \<lparr>sd_name_address = Some nameAddr,
       sd_chi_address = Some chiAddr, sd_name_output = Some nameOut\<rparr>\<rparr>, w))) (\<lambda>_.
     ret True))))))"

text \<open>The three steps of \<^verbatim>\<open>ConstructTransaction\<close>: the funded payment, the name update, the join.\<close>

definition psbt_of :: "json \<Rightarrow> ('s, string) prog" where
  "psbt_of resp =
     checked (isObject resp) (
     let psbtVal = jget resp ''psbt'' in
     checked (isString psbtVal) (ret (jtext psbtVal)))"

definition FundPayment :: "'w env \<Rightarrow> flags \<Rightarrow> SellerData \<Rightarrow> Amount \<Rightarrow> ('w, string) prog" where
  "FundPayment E F sd amt =
     (let outputs = JArr [jset (dflt [] (sd_chi_address sd)) (ChiAmountToJson E amt) jempty];
          options = jset ''lockUnspents'' (JBool True)
            (jset ''fee_rate'' (JInt (sint (democrit_feerate_wo_names F))) jempty) in
      bnd (walletcreatefundedpsbt E (JArr []) outputs 0 options) psbt_of)"

definition NameOperation ::
    "'w env \<Rightarrow> 'w AssetSpec \<Rightarrow> TradeChecker \<Rightarrow> SellerData \<Rightarrow> string \<Rightarrow> OutPoint \<Rightarrow> ('w, string) prog" where
  "NameOperation E sp tc sd sellerName nameIn =
     (let inputs = JArr [outpoint_json nameIn];
          outputs = JArr [jset (dflt [] (sd_name_address sd)) (ChiAmountToJson E NAME_VALUE) jempty] in
      bnd (createpsbt E inputs outputs) (\<lambda>namePart.
      bnd (liftO (GetNameUpdateValue E sp tc)) (\<lambda>val.
      let nameOp = jset ''value'' (JStr val) (jset ''name'' (JStr (''p/'' @ sellerName))
            (jset ''op'' (JStr ''name_update'') jempty)) in
      bnd (namepsbt E namePart 0 nameOp) psbt_of)))"

definition ConstructTransaction ::
    "'w TradeManager \<Rightarrow> string \<Rightarrow> TradeState \<Rightarrow> TradeChecker \<Rightarrow> OutPoint \<Rightarrow> ('w, string) prog" where
  "ConstructTransaction TM account pb tc nameIn =
     checked (GetOrderType account pb = BID) (
     let sd = dflt empty_sd (ts_seller_data pb) in
     checked (has (sd_chi_address sd) \<and> has (sd_name_address sd)) (
     bnd (GetTotalSat tc) (\<lambda>(ok, total).
     checked ok (
     bnd (FundPayment (tm_env TM) (tm_flags TM) sd total) (\<lambda>chiPart.
     bnd (NameOperation (tm_env TM) (tm_spec TM) tc sd (counterparty pb) nameIn) (\<lambda>namePart.
     joinpsbts (tm_env TM) (JArr [JStr chiPart, JStr namePart])))))))"

text \<open>
  \<^verbatim>\<open>HasReply\<close> in the order of its blocks. A block either returns from the method with a
  result or falls through to the next one.
\<close>

datatype flow = Return "ProcessingMessage option" | Continue

definition SellerSigns :: "'w TradeManager \<Rightarrow> string \<Rightarrow> (TradeState \<times> 'w, flow) prog" where
  "SellerSigns TM account =
     bnd (gets fst) (\<lambda>pb.
     if \<not> (GetOrderType account pb = ASK \<and> \<not> has (ts_our_psbt pb)) then ret Continue else
     let tc = BuildTradeChecker account pb; theirs = dflt [] (ts_their_psbt pb);
         sd = dflt empty_sd (ts_seller_data pb) in
     checked (has (ts_their_psbt pb)) (
     bnd (onW (CheckForSellerOutputs (tm_env TM) (tm_spec TM) tc theirs sd)) (\<lambda>outputsOk.
     if \<not> outputsOk then ret (Return None) else
     bnd (onW (SignPsbt (tm_env TM) theirs)) (\<lambda>(psbt, complete).
     bnd (onW (CheckForSellerSignature (tm_env TM) theirs psbt sd)) (\<lambda>sigOk.
     if \<not> sigOk then ret (Return None) else
     if (case GetRole account pb of MAKER \<Rightarrow> \<not> complete | TAKER \<Rightarrow> complete) then ret (Return None) else
     bnd (modifies (\<lambda>(pb, w). (pb\<lparr>ts_our_psbt := Some psbt\<rparr>, w))) (\<lambda>_.
     ret Continue))))))"

definition BuyerConstructs :: "'w TradeManager \<Rightarrow> string \<Rightarrow> (TradeState \<times> 'w, flow) prog" where
  "BuyerConstructs TM account =
     bnd (gets fst) (\<lambda>pb.
     if \<not> (GetOrderType account pb = BID \<and> \<not> has (ts_our_psbt pb)) then ret Continue else
     let tc = BuildTradeChecker account pb in
     bnd (onW (CheckForBuyerTrade (tm_env TM) (tm_spec TM) tc)) (\<lambda>trade.
     case trade of
       None \<Rightarrow> ret (Return None)
     | Some nameIn \<Rightarrow>
         bnd (onW (ConstructTransaction TM account pb tc nameIn)) (\<lambda>unsignedPsbt.
         bnd (onW (SignPsbt (tm_env TM) unsignedPsbt)) (\<lambda>(signedPsbt, complete).
         bnd (onW (CheckForBuyerSignature (tm_env TM) unsignedPsbt signedPsbt)) (\<lambda>sigOk.
         if \<not> sigOk then
           bnd (onW (UnlockPsbtInputs (tm_env TM) signedPsbt)) (\<lambda>_. ret (Return None))
         else
         checked (\<not> complete) (
         bnd (modifies (\<lambda>(pb, w). (pb\<lparr>ts_our_psbt := Some signedPsbt\<rparr>, w))) (\<lambda>_.
         if GetRole account pb = MAKER then
           ret (Return (Some ((InitProcessingMessage pb)\<lparr>pm_psbt := Some \<lparr>tp_psbt = Some unsignedPsbt\<rparr>\<rparr>)))
         else ret Continue))))))) "

definition set_state :: "trade_status \<Rightarrow> (TradeState \<times> 'w, unit) prog" where
  "set_state st = modifies (\<lambda>(pb, w). (pb\<lparr>ts_state := Some st\<rparr>, w))"

definition TakerShares :: "string \<Rightarrow> (TradeState \<times> 'w, flow) prog" where
  "TakerShares account =
     bnd (gets fst) (\<lambda>pb.
     case ts_our_psbt pb of
       None \<Rightarrow> fatal
     | Some ours \<Rightarrow>
         if GetRole account pb = TAKER then
           bnd (set_state PENDING) (\<lambda>_.
           ret (Return (Some ((InitProcessingMessage pb)\<lparr>pm_psbt := Some \<lparr>tp_psbt = Some ours\<rparr>\<rparr>))))
         else ret Continue)"

definition BroadcastTrade :: "'w env \<Rightarrow> string \<Rightarrow> (TradeState \<times> 'w, unit) prog" where
  "BroadcastTrade E finalPsbt =
     bnd (onW (finalizepsbt E finalPsbt)) (\<lambda>finalised.
     checked (isObject finalised) (
     let completeVal = jget finalised ''complete'' in
     checked (isBool completeVal) (
     if \<not> asBool completeVal then ret () else
     let hexVal = jget finalised ''hex'' in
     checked (isString hexVal) (
     bnd (onW (sendrawtransaction E (jtext hexVal))) (\<lambda>txid.
     set_state PENDING)))))"

definition MakerFinishes :: "'w TradeManager \<Rightarrow> string \<Rightarrow> (TradeState \<times> 'w, ProcessingMessage option) prog" where
  "MakerFinishes TM account =
     bnd (gets fst) (\<lambda>pb.
     checked (GetRole account pb = MAKER) (
     if \<not> has (ts_their_psbt pb) then ret None else
     let theirs = dflt [] (ts_their_psbt pb); ours = dflt [] (ts_our_psbt pb) in
     bnd (case GetOrderType account pb of
            BID \<Rightarrow> onW (combinepsbt (tm_env TM) (JArr [JStr theirs, JStr ours]))
          | ASK \<Rightarrow> ret ours) (\<lambda>finalPsbt.
     bnd (BroadcastTrade (tm_env TM) finalPsbt) (\<lambda>_. ret None))))"

definition after :: "('s, flow) prog \<Rightarrow> ('s, ProcessingMessage option) prog \<Rightarrow> ('s, ProcessingMessage option) prog" where
  "after m n = bnd m (\<lambda>f. case f of Return r \<Rightarrow> ret r | Continue \<Rightarrow> n)"

definition HasReply :: "'w TradeManager \<Rightarrow> string \<Rightarrow> (TradeState \<times> 'w, ProcessingMessage option) prog" where
  "HasReply TM account =
     bnd (gets fst) (\<lambda>pb0.
     if status pb0 \<noteq> INITIATED then ret None else
     bnd (CreateSellerData TM account) (\<lambda>created.
     bnd (gets fst) (\<lambda>pb.
     if created then
       (case ts_seller_data pb of
          None \<Rightarrow> fatal
        | Some sd \<Rightarrow> ret (Some ((InitProcessingMessage pb)\<lparr>pm_seller_data := Some (sd\<lparr>sd_name_output := None\<rparr>)\<rparr>)))
     else if \<not> has (ts_seller_data pb) then ret None
     else if GetOrderType account pb = ASK \<and> \<not> has (ts_their_psbt pb) then ret None
     else
       after (SellerSigns TM account) (
       after (BuyerConstructs TM account) (
       after (TakerShares account) (
       MakerFinishes TM account))))))"

section \<open>Updates from the blockchain\<close>

definition GetCurrentTime :: "'w env \<Rightarrow> ('w, int) prog" where
  "GetCurrentTime E = bnd (clock_now E) (\<lambda>nanos. ret (nanos sdiv 1000000000))"

text \<open>In milliseconds.\<close>

definition GetTradeTimeout :: "flags \<Rightarrow> int" where
  "GetTradeTimeout F = sint (democrit_trade_timeout_ms F)"

text \<open>The loop over the inputs: is one of them gone?\<close>

fun some_input_spent :: "'w env \<Rightarrow> json list \<Rightarrow> ('w, bool) prog" where
  "some_input_spent E [] = ret False"
| "some_input_spent E (inp # ins) =
     checked (isObject inp) (
     let hashVal = jget inp ''txid'' in
     checked (isString hashVal) (
     let nVal = jget inp ''vout'' in
     checked (isUInt nVal) (
     bnd (gettxout E (JArr [JStr (jtext hashVal), JUInt (uint (asUInt nVal))])) (\<lambda>utxoData.
     if isNull utxoData then ret True else some_input_spent E ins))))"

definition clear_conflict_height :: "(TradeState \<times> 'w, unit) prog" where
  "clear_conflict_height = modifies (\<lambda>(pb, w). (pb\<lparr>ts_conflict_height := None\<rparr>, w))"

text \<open>\<^verbatim>\<open>height + FLAGS_democrit_confirmations <= curHeight + 1\<close> in \<^verbatim>\<open>uint64_t\<close>.\<close>

definition is_final :: "flags \<Rightarrow> uint64 \<Rightarrow> uint64 \<Rightarrow> bool" where
  "is_final F height curHeight \<longleftrightarrow> height + scast (democrit_confirmations F) \<le> curHeight + 1"

text \<open>
  What \<^verbatim>\<open>Update\<close> asks for a pending trade: the decoded transaction, the GSP's height and its
  data on the trade.
\<close>

definition QueryTrade :: "'w env \<Rightarrow> string \<Rightarrow> ('w, json \<times> uint64 \<times> json) prog" where
  "QueryTrade E ours =
     bnd (decodepsbt E ours) (\<lambda>decoded.
     checked (isObject decoded) (
     let tx = jget decoded ''tx'' in
     checked (isObject tx) (
     let btxidVal = jget tx ''btxid'' in
     checked (isString btxidVal) (
     bnd (checktrade E (jtext btxidVal)) (\<lambda>check.
     checked (isObject check) (
     let curHeightVal = jget check ''height'' in
     checked (isUInt curHeightVal) (
     let curHeight = ucast (asUInt curHeightVal); dataVal = jget check ''data'' in
     checked (isObject dataVal) (
     checked (isString (jget dataVal ''state'')) (
     ret (tx, curHeight, dataVal))))))))))"

text \<open>Whether the GSP has the trade confirmed deep enough.\<close>

definition ConfirmedFinal :: "flags \<Rightarrow> uint64 \<Rightarrow> json \<Rightarrow> ('s, bool) prog" where
  "ConfirmedFinal F curHeight dataVal =
     (if jtext (jget dataVal ''state'') = ''confirmed'' then
        let confHeightVal = jget dataVal ''height'' in
        checked (isUInt confHeightVal) (
        let confHeight = ucast (asUInt confHeightVal) in
        checked (confHeight \<le> curHeight) (ret (is_final F confHeight curHeight)))
      else ret False)"

definition UpdateConflict :: "'w env \<Rightarrow> flags \<Rightarrow> json \<Rightarrow> uint64 \<Rightarrow> (TradeState \<times> 'w, unit) prog" where
  "UpdateConflict E F tx curHeight =
     (let vin = jget tx ''vin'' in
      checked (isArray vin) (
      bnd (onW (some_input_spent E (jelems vin))) (\<lambda>conflicted.
      if \<not> conflicted then clear_conflict_height else
      bnd (gets fst) (\<lambda>pb.
      case ts_conflict_height pb of
        None \<Rightarrow> modifies (\<lambda>(pb, w). (pb\<lparr>ts_conflict_height := Some curHeight\<rparr>, w))
      | Some h \<Rightarrow> if is_final F h curHeight then set_state FAILED else ret ()))))"

definition UpdatePending :: "'w env \<Rightarrow> flags \<Rightarrow> string \<Rightarrow> (TradeState \<times> 'w, unit) prog" where
  "UpdatePending E F ours =
     bnd (onW (QueryTrade E ours)) (\<lambda>(tx, curHeight, dataVal).
     bnd (ConfirmedFinal F curHeight dataVal) (\<lambda>final.
     if final then set_state SUCCESS else
     if jtext (jget dataVal ''state'') \<noteq> ''unknown'' then clear_conflict_height else
     UpdateConflict E F tx curHeight))"

definition Update :: "'w TradeManager \<Rightarrow> (TradeState \<times> 'w, unit) prog" where
  "Update TM =
     bnd (gets fst) (\<lambda>pb.
     if status pb = INITIATED then
       bnd (onW (GetCurrentTime (tm_env TM))) (\<lambda>now.
       if (now - dflt 0 (ts_start_time pb)) * 1000 > GetTradeTimeout (tm_flags TM)
       then set_state ABANDONED else ret ())
     else if status pb \<noteq> PENDING then ret ()
     else
       (case ts_our_psbt pb of
          None \<Rightarrow> fatal
        | Some ours \<Rightarrow> UpdatePending (tm_env TM) (tm_flags TM) ours))"

section \<open>The end of a trade\<close>

definition HandleSuccess :: "'w TradeManager \<Rightarrow> string \<Rightarrow> TradeState \<Rightarrow> (State \<times> 'w, unit) prog" where
  "HandleSuccess TM account pb =
     (if GetRole account pb = MAKER then
        bnd (RemoveById (tm_myOrders TM) (ord_id pb)) (\<lambda>_.
        let newMax = dflt 0 (order_max_units (ts_order pb)) - dflt 0 (ts_units pb);
            newOrder = (ts_order pb)\<lparr>order_id := None, order_max_units := Some newMax\<rparr> in
        if 0 < newMax \<and> dflt 0 (order_min_units newOrder) \<le> newMax then
          bnd (Add (tm_myOrders TM) newOrder) (\<lambda>_. ret ())
        else ret ())
      else ret ())"

definition HandleFailure :: "'w TradeManager \<Rightarrow> string \<Rightarrow> TradeState \<Rightarrow> (State \<times> 'w, unit) prog" where
  "HandleFailure TM account pb =
     bnd (if GetRole account pb = MAKER then Unlock (tm_myOrders TM) (ord_id pb) else ret ()) (\<lambda>_.
     bnd (case sd_name_output (dflt empty_sd (ts_seller_data pb)) of
            None \<Rightarrow> ret ()
          | Some out \<Rightarrow> onW (bnd (LockUnspent (tm_env TM) False out) (\<lambda>_. ret ()))) (\<lambda>_.
     case ts_our_psbt pb of
       Some ours \<Rightarrow>
         if GetOrderType account pb = BID then onW (UnlockPsbtInputs (tm_env TM) ours) else ret ()
     | None \<Rightarrow> ret ()))"

section \<open>Both parties see the same trade\<close>

text \<open>
  The two trade objects of one trade: the same order and units, each with the other account
  as counterparty.
\<close>

definition mirrored :: "string \<Rightarrow> string \<Rightarrow> TradeState \<Rightarrow> TradeState \<Rightarrow> bool" where
  "mirrored maker taker pbM pbT \<longleftrightarrow>
     maker \<noteq> taker \<and> ts_order pbM = ts_order pbT \<and> ts_units pbM = ts_units pbT \<and>
     ord_account pbM = maker \<and> counterparty pbM = taker \<and> counterparty pbT = maker"

lemma mirrored_roles:
  assumes "mirrored maker taker pbM pbT"
  shows "GetRole maker pbM = MAKER" "GetRole taker pbT = TAKER"
    "GetOrderType maker pbM \<noteq> GetOrderType taker pbT"
    "BuildTradeChecker maker pbM = BuildTradeChecker taker pbT"
    "GetIdentifier pbM = GetIdentifier pbT"
  using assms
  by (auto simp: mirrored_def GetRole_def GetOrderType_def BuildTradeChecker_def GetIdentifier_def
      split: order_type.splits)

text \<open>Line breaks do not occur in Xaya names, so the identifier determines maker and order ID.\<close>

lemma GetIdentifier_inject:
  assumes "CHR 0x0A \<notin> set (ord_account a)" "CHR 0x0A \<notin> set (ord_account b)"
  shows "GetIdentifier a = GetIdentifier b \<longleftrightarrow> ord_account a = ord_account b \<and> ord_id a = ord_id b"
  using assms by (simp add: GetIdentifier_def append_sep_inject unat_arith_simps(3))

section \<open>What one message changes\<close>

definition seller_data_ok :: "SellerData \<Rightarrow> bool" where
  "seller_data_ok sd \<longleftrightarrow> has (sd_name_address sd) \<and> has (sd_chi_address sd) \<and>
     \<not> has (sd_name_output sd) \<and> sd_name_address sd \<noteq> sd_chi_address sd"

lemma MergeSellerData_eq:
  "MergeSellerData account sd pb =
     (if GetOrderType account pb = BID \<and> ts_seller_data pb = None \<and> seller_data_ok sd
      then pb\<lparr>ts_seller_data := Some sd\<rparr> else pb)"
  by (cases "GetOrderType account pb")
     (auto simp: MergeSellerData_def seller_data_ok_def has_iff)

subsection \<open>The blocks of the reply\<close>

lemmas run_simps = bnd_eq_iff checked_eq_iff catch_eq_iff onW_eq Let_def


lemma CreateSellerData_or:
  assumes "CreateSellerData TM account (pb, w) = (r, (pb', w'))"
  shows "(pb' = pb \<and> r \<noteq> Ret True) \<or>
    (\<exists>out nameAddr chiAddr. r = Ret True \<and> GetOrderType account pb = ASK \<and> ts_seller_data pb = None \<and>
      pb' = pb\<lparr>ts_seller_data := Some \<lparr>sd_name_address = Some nameAddr, sd_chi_address = Some chiAddr,
         sd_name_output = Some out\<rparr>\<rparr> \<and> has (op_hash out) \<and> has (op_n out))"
proof (cases "GetOrderType account pb = ASK \<and> \<not> has (ts_seller_data pb)")
  case False
  with assms show ?thesis by (auto simp: CreateSellerData_def run_simps split: if_splits)
next
  case True
  have out: "has (op_hash out) \<and> has (op_n out)"
    if "GetNameOutPoint (tm_env TM) account w = (Ret out, w1)" for out w1
    using that by (auto simp: GetNameOutPoint_def OutPointFromJson_def run_simps split: if_splits)
  from True assms show ?thesis
    by (simp add: CreateSellerData_def run_simps split: if_splits) (fastforce dest: out)
qed

lemma SellerSigns_or:
  assumes "SellerSigns TM account (pb, w) = (r, (pb', w'))"
  shows "(pb' = pb \<and> (r = Ret Continue \<longrightarrow> GetOrderType account pb = BID \<or> has (ts_our_psbt pb)) \<and>
      (\<forall>m. r \<noteq> Ret (Return (Some m)))) \<or>
   (\<exists>psbt theirs w1 w2. r = Ret Continue \<and> GetOrderType account pb = ASK \<and> ts_our_psbt pb = None \<and>
      pb' = pb\<lparr>ts_our_psbt := Some psbt\<rparr> \<and> ts_their_psbt pb = Some theirs \<and>
      CheckForSellerOutputs (tm_env TM) (tm_spec TM) (BuildTradeChecker account pb) theirs
         (dflt empty_sd (ts_seller_data pb)) w = (Ret True, w1) \<and>
      SignPsbt (tm_env TM) theirs w1 = (Ret (psbt, GetRole account pb = MAKER), w2) \<and>
      CheckForSellerSignature (tm_env TM) theirs psbt (dflt empty_sd (ts_seller_data pb)) w2 = (Ret True, w'))"
proof (cases "GetOrderType account pb = ASK \<and> \<not> has (ts_our_psbt pb)")
  case False
  with assms show ?thesis by (cases "GetOrderType account pb") (auto simp: SellerSigns_def run_simps)
next
  case True
  show ?thesis
  proof (cases "GetRole account pb")
    case MAKER
    with True assms show ?thesis
      by (simp add: SellerSigns_def run_simps split: if_splits) (fastforce simp: has_iff)
  next
    case TAKER
    with True assms show ?thesis
      by (simp add: SellerSigns_def run_simps split: if_splits) (fastforce simp: has_iff)
  qed
qed


lemma BuyerConstructs_or:
  assumes "BuyerConstructs TM account (pb, w) = (r, (pb', w'))"
  shows "(pb' = pb \<and> (r = Ret Continue \<longrightarrow> GetOrderType account pb = ASK \<or> has (ts_our_psbt pb)) \<and>
      (\<forall>m. r \<noteq> Ret (Return (Some m)))) \<or>
   (\<exists>nameIn unsigned signed w1 w2 w3. GetOrderType account pb = BID \<and> ts_our_psbt pb = None \<and>
      pb' = pb\<lparr>ts_our_psbt := Some signed\<rparr> \<and>
      CheckForBuyerTrade (tm_env TM) (tm_spec TM) (BuildTradeChecker account pb) w = (Ret (Some nameIn), w1) \<and>
      ConstructTransaction TM account pb (BuildTradeChecker account pb) nameIn w1 = (Ret unsigned, w2) \<and>
      SignPsbt (tm_env TM) unsigned w2 = (Ret (signed, False), w3) \<and>
      CheckForBuyerSignature (tm_env TM) unsigned signed w3 = (Ret True, w') \<and>
      r = Ret (if GetRole account pb = MAKER
         then Return (Some ((InitProcessingMessage pb)\<lparr>pm_psbt := Some \<lparr>tp_psbt = Some unsigned\<rparr>\<rparr>)) else Continue))"
proof (cases "GetOrderType account pb = BID \<and> \<not> has (ts_our_psbt pb)")
  case False
  with assms show ?thesis by (cases "GetOrderType account pb") (auto simp: BuyerConstructs_def run_simps)
next
  case True
  show ?thesis
  proof (cases "GetRole account pb")
    case MAKER
    with True assms show ?thesis
      by (simp add: BuyerConstructs_def run_simps split: if_splits option.splits) (fastforce simp: has_iff)
  next
    case TAKER
    with True assms show ?thesis
      by (simp add: BuyerConstructs_def run_simps split: if_splits option.splits) (fastforce simp: has_iff)
  qed
qed

lemma TakerShares_or:
  assumes "TakerShares account (pb, w) = (r, (pb', w'))"
  shows "w' = w \<and>
    ((pb' = pb \<and> r = Fatal \<and> ts_our_psbt pb = None) \<or>
     (pb' = pb \<and> r = Ret Continue \<and> has (ts_our_psbt pb) \<and> GetRole account pb = MAKER) \<or>
     (\<exists>ours. ts_our_psbt pb = Some ours \<and> GetRole account pb = TAKER \<and>
        pb' = pb\<lparr>ts_state := Some PENDING\<rparr> \<and>
        r = Ret (Return (Some ((InitProcessingMessage pb)\<lparr>pm_psbt := Some \<lparr>tp_psbt = Some ours\<rparr>\<rparr>)))))"
  using assms
  by (cases "ts_our_psbt pb"; cases "GetRole account pb") (auto simp: TakerShares_def set_state_def run_simps)

definition broadcast :: "'w env \<Rightarrow> string \<Rightarrow> 'w \<Rightarrow> 'w \<Rightarrow> bool" where
  "broadcast E finalPsbt w w' \<longleftrightarrow> (\<exists>finalised hex txid w1.
     finalizepsbt E finalPsbt w = (Ret finalised, w1) \<and> jget finalised ''complete'' = JBool True \<and>
     jget finalised ''hex'' = JStr hex \<and> sendrawtransaction E hex w1 = (Ret txid, w'))"

lemma BroadcastTrade_or:
  assumes "BroadcastTrade E finalPsbt (pb, w) = (r, (pb', w'))"
  shows "pb' = pb \<or> r = Ret () \<and> pb' = pb\<lparr>ts_state := Some PENDING\<rparr> \<and> broadcast E finalPsbt w w'"
proof -
  have bool: "isBool j \<Longrightarrow> asBool j \<Longrightarrow> j = JBool True" for j
    by (cases j) (auto simp: isBool_def asBool_def)
  from assms show ?thesis
    by (auto simp: BroadcastTrade_def set_state_def run_simps broadcast_def isString_iff
        split: if_splits dest!: bool)
qed

lemma MakerFinishes_or:
  assumes "MakerFinishes TM account (pb, w) = (r, (pb', w'))"
  shows "(pb' = pb \<and> (\<forall>m. r \<noteq> Ret (Some m))) \<or>
    (\<exists>finalPsbt w1. r = Ret None \<and> GetRole account pb = MAKER \<and> has (ts_their_psbt pb) \<and>
      pb' = pb\<lparr>ts_state := Some PENDING\<rparr> \<and> broadcast (tm_env TM) finalPsbt w1 w')"
  using assms
  by (cases "GetOrderType account pb")
     (auto simp: MakerFinishes_def run_simps split: if_splits dest!: BroadcastTrade_or)

end
