(* ===== verification/TradeLife.thy ===== *)
theory TradeLife
  imports Trades
begin

text \<open>
  The life of one trade. The first part says what a whole call of \<^verbatim>\<open>HasReply\<close> does, in every
  outcome; the second what \<^verbatim>\<open>Update\<close> does; the third puts both into a step relation and
  shows the invariant of a trade, the order of its states, and when signatures leave
  the wallet.
\<close>

section \<open>Replies\<close>

lemma after_eq_iff:
  "after m n s = (r, t) \<longleftrightarrow>
     (\<exists>x. m s = (Ret (Return x), t) \<and> r = Ret x) \<or> (\<exists>u. m s = (Ret Continue, u) \<and> n u = (r, t)) \<or>
     (\<exists>e. m s = (Throw e, t) \<and> r = Throw e) \<or> (m s = (Fatal, t) \<and> r = Fatal)"
  by (cases "m s"; cases "fst (m s)") (auto simp: after_def bnd_def split: flow.splits)

text \<open>A seller's data that we made: both addresses and the outpoint of the name.\<close>

definition own_seller_data :: "SellerData \<Rightarrow> bool" where
  "own_seller_data sd \<longleftrightarrow> has (sd_name_address sd) \<and> has (sd_chi_address sd) \<and>
     (\<exists>out. sd_name_output sd = Some out \<and> has (op_hash out) \<and> has (op_n out))"

text \<open>The signing steps: our PSBT may be filled in, and the trade may become pending.\<close>

definition signed_change :: "TradeState \<Rightarrow> TradeState \<Rightarrow> bool" where
  "signed_change pb pb' \<longleftrightarrow>
     pb' = pb \<or> (\<exists>p. (ts_our_psbt pb = None \<or> ts_our_psbt pb = Some p) \<and>
       (pb' = pb\<lparr>ts_our_psbt := Some p\<rparr> \<or> pb' = pb\<lparr>ts_our_psbt := Some p, ts_state := Some PENDING\<rparr>))"

definition reply_change :: "string \<Rightarrow> TradeState \<Rightarrow> TradeState \<Rightarrow> bool" where
  "reply_change account pb pb' \<longleftrightarrow>
     pb' = pb \<or>
     status pb = INITIATED \<and> GetOrderType account pb = ASK \<and> ts_seller_data pb = None \<and>
       (\<exists>sd. own_seller_data sd \<and> pb' = pb\<lparr>ts_seller_data := Some sd\<rparr>) \<or>
     status pb = INITIATED \<and> has (ts_seller_data pb) \<and> signed_change pb pb'"

lemma view_our_psbt [simp]:
  "GetRole account (pb\<lparr>ts_our_psbt := x\<rparr>) = GetRole account pb"
  "GetOrderType account (pb\<lparr>ts_our_psbt := x\<rparr>) = GetOrderType account pb"
  "InitProcessingMessage (pb\<lparr>ts_our_psbt := x\<rparr>) = InitProcessingMessage pb"
  "BuildTradeChecker account (pb\<lparr>ts_our_psbt := x\<rparr>) = BuildTradeChecker account pb"
  by (simp_all add: GetRole_def GetOrderType_def InitProcessingMessage_def GetIdentifier_def BuildTradeChecker_def
      split: order_type.splits)

lemma finish_or:
  assumes "after (TakerShares account) (MakerFinishes TM account) (pb, w) = (r, (pb', w'))"
  shows "(pb' = pb \<and> (\<forall>m. r \<noteq> Ret (Some m)) \<and> (has (ts_our_psbt pb) \<longrightarrow> GetRole account pb = MAKER)) \<or>
    has (ts_our_psbt pb) \<and> pb' = pb\<lparr>ts_state := Some PENDING\<rparr> \<and>
      (GetRole account pb = TAKER \<and> w' = w \<and>
        r = Ret (Some ((InitProcessingMessage pb)\<lparr>pm_psbt := Some \<lparr>tp_psbt = ts_our_psbt pb\<rparr>\<rparr>)) \<or>
       GetRole account pb = MAKER \<and> has (ts_their_psbt pb) \<and> r = Ret None \<and>
        (\<exists>finalPsbt w1. broadcast (tm_env TM) finalPsbt w1 w'))"
  using assms unfolding after_eq_iff
  by (auto dest!: TakerShares_or MakerFinishes_or)

text \<open>The signed PSBT of the seller is the one the checks were made for.\<close>

definition seller_signed :: "'w TradeManager \<Rightarrow> string \<Rightarrow> TradeState \<Rightarrow> 'w \<Rightarrow> string \<Rightarrow> 'w \<Rightarrow> bool" where
  "seller_signed TM account pb w psbt w' \<longleftrightarrow>
     (\<exists>theirs w1 w2. ts_their_psbt pb = Some theirs \<and>
        CheckForSellerOutputs (tm_env TM) (tm_spec TM) (BuildTradeChecker account pb) theirs
          (dflt empty_sd (ts_seller_data pb)) w = (Ret True, w1) \<and>
        SignPsbt (tm_env TM) theirs w1 = (Ret (psbt, GetRole account pb = MAKER), w2) \<and>
        CheckForSellerSignature (tm_env TM) theirs psbt (dflt empty_sd (ts_seller_data pb)) w2 = (Ret True, w'))"

definition buyer_signed ::
    "'w TradeManager \<Rightarrow> string \<Rightarrow> TradeState \<Rightarrow> 'w \<Rightarrow> string \<Rightarrow> string \<Rightarrow> 'w \<Rightarrow> bool" where
  "buyer_signed TM account pb w bare psbt w' \<longleftrightarrow>
     (\<exists>nameIn w1 w2 w3.
        CheckForBuyerTrade (tm_env TM) (tm_spec TM) (BuildTradeChecker account pb) w = (Ret (Some nameIn), w1) \<and>
        ConstructTransaction TM account pb (BuildTradeChecker account pb) nameIn w1 = (Ret bare, w2) \<and>
        SignPsbt (tm_env TM) bare w2 = (Ret (psbt, False), w3) \<and>
        CheckForBuyerSignature (tm_env TM) bare psbt w3 = (Ret True, w'))"

lemma SellerSigns_BID: "GetOrderType account pb = BID \<Longrightarrow> SellerSigns TM account (pb, w) = (Ret Continue, (pb, w))"
  by (simp add: SellerSigns_def bnd_run_Ret [OF gets_run])

lemma BuyerConstructs_ASK: "GetOrderType account pb = ASK \<Longrightarrow> BuyerConstructs TM account (pb, w) = (Ret Continue, (pb, w))"
  by (simp add: BuyerConstructs_def bnd_run_Ret [OF gets_run])

text \<open>The signed PSBT that a pass through the first two blocks leaves behind.\<close>

definition our_signature :: "'w TradeManager \<Rightarrow> string \<Rightarrow> TradeState \<Rightarrow> 'w \<Rightarrow> string \<Rightarrow> 'w \<Rightarrow> bool" where
  "our_signature TM account pb w psbt w' \<longleftrightarrow>
     (case GetOrderType account pb of
        ASK \<Rightarrow> seller_signed TM account pb w psbt w'
      | BID \<Rightarrow> \<exists>bare. buyer_signed TM account pb w bare psbt w')"

lemma sign_or:
  assumes "after (SellerSigns TM account) (after (BuyerConstructs TM account) n) (pb, w) = (r, (pb', w'))"
  shows "(pb' = pb \<and> (\<forall>m. r \<noteq> Ret (Some m))) \<or>
    (GetOrderType account pb = BID \<and> GetRole account pb = MAKER \<and> ts_our_psbt pb = None \<and>
      (\<exists>bare signed. pb' = pb\<lparr>ts_our_psbt := Some signed\<rparr> \<and> buyer_signed TM account pb w bare signed w' \<and>
        r = Ret (Some ((InitProcessingMessage pb)\<lparr>pm_psbt := Some \<lparr>tp_psbt = Some bare\<rparr>\<rparr>)))) \<or>
    (\<exists>pb1 w1. n (pb1, w1) = (r, (pb', w')) \<and>
      (pb1 = pb \<and> has (ts_our_psbt pb) \<or>
       ts_our_psbt pb = None \<and> (\<exists>psbt. pb1 = pb\<lparr>ts_our_psbt := Some psbt\<rparr> \<and> our_signature TM account pb w psbt w1)))"
proof (cases "GetOrderType account pb")
  case ASK
  have rest: "n u = (r, (pb', w'))" if "after (BuyerConstructs TM account) n u = (r, (pb', w'))"
      "GetOrderType account (fst u) = ASK" for u
    using that by (cases u) (simp add: after_eq_iff BuyerConstructs_ASK)
  from assms consider (early) "(\<exists>x. SellerSigns TM account (pb, w) = (Ret (Return x), pb', w') \<and> r = Ret x) \<or>
      (\<exists>e. SellerSigns TM account (pb, w) = (Throw e, pb', w') \<and> r = Throw e) \<or>
      SellerSigns TM account (pb, w) = (Fatal, pb', w') \<and> r = Fatal"
    | (go) pb1 w1 where "SellerSigns TM account (pb, w) = (Ret Continue, (pb1, w1))"
      "after (BuyerConstructs TM account) n (pb1, w1) = (r, (pb', w'))"
    by (auto simp: after_eq_iff [of "SellerSigns TM account"])
  then show ?thesis
  proof cases
    case early
    then show ?thesis by (intro disjI1) (auto dest!: SellerSigns_or)
  next
    case go
    from SellerSigns_or [OF go(1)] show ?thesis
    proof
      assume same: "pb1 = pb \<and> (Ret Continue = Ret Continue \<longrightarrow> GetOrderType account pb = BID \<or> has (ts_our_psbt pb)) \<and>
        (\<forall>m. Ret Continue \<noteq> Ret (Return (Some m)))"
      with ASK go(2) rest [of "(pb1, w1)"] show ?thesis by (intro disjI2) auto
    qed (use ASK go(2) rest [of "(pb1, w1)"] in \<open>auto simp: our_signature_def seller_signed_def\<close>)
  qed
next
  case BID
  with assms have "after (BuyerConstructs TM account) n (pb, w) = (r, (pb', w'))"
    unfolding after_eq_iff [of "SellerSigns TM account"] by (simp add: SellerSigns_BID)
  then consider (early) "(\<exists>x. BuyerConstructs TM account (pb, w) = (Ret (Return x), pb', w') \<and> r = Ret x) \<or>
      (\<exists>e. BuyerConstructs TM account (pb, w) = (Throw e, pb', w') \<and> r = Throw e) \<or>
      BuyerConstructs TM account (pb, w) = (Fatal, pb', w') \<and> r = Fatal"
    | (go) pb1 w1 where "BuyerConstructs TM account (pb, w) = (Ret Continue, (pb1, w1))" "n (pb1, w1) = (r, (pb', w'))"
    by (auto simp: after_eq_iff)
  then show ?thesis
  proof cases
    case early
    then show ?thesis
      using BID by - (elim disjE exE conjE; drule BuyerConstructs_or; auto simp: buyer_signed_def split: if_splits)
  next
    case go
    with BID show ?thesis
      by (intro disjI2 exI [of _ pb1] exI [of _ w1])
         (auto dest!: BuyerConstructs_or simp: our_signature_def buyer_signed_def split: if_splits)
  qed
qed

text \<open>
  What the signing steps do to a trade that has the seller's data: nothing; or, as the maker
  and buyer, they sign and send the bare PSBT; or they have our signature and, unless
  something is still missing, the trade becomes pending. Then as the taker we send our
  signed PSBT, and as the maker the transaction has been broadcast.
\<close>

abbreviation sign_and_finish :: "'w TradeManager \<Rightarrow> string \<Rightarrow> (TradeState \<times> 'w, ProcessingMessage option) prog" where
  "sign_and_finish TM account \<equiv>
     after (SellerSigns TM account) (after (BuyerConstructs TM account)
       (after (TakerShares account) (MakerFinishes TM account)))"

lemma sign_and_finish_or:
  assumes "sign_and_finish TM account (pb, w) = (r, (pb', w'))"
  shows "(pb' = pb \<and> (\<forall>m. r \<noteq> Ret (Some m))) \<or>
    (GetOrderType account pb = BID \<and> GetRole account pb = MAKER \<and> ts_our_psbt pb = None \<and>
      (\<exists>bare signed. pb' = pb\<lparr>ts_our_psbt := Some signed\<rparr> \<and> buyer_signed TM account pb w bare signed w' \<and>
        r = Ret (Some ((InitProcessingMessage pb)\<lparr>pm_psbt := Some \<lparr>tp_psbt = Some bare\<rparr>\<rparr>)))) \<or>
    (\<exists>psbt w1. (ts_our_psbt pb = Some psbt \<or> ts_our_psbt pb = None \<and> our_signature TM account pb w psbt w1) \<and>
      (pb' = pb\<lparr>ts_our_psbt := Some psbt\<rparr> \<and> GetRole account pb = MAKER \<and> (\<forall>m. r \<noteq> Ret (Some m)) \<or>
       pb' = pb\<lparr>ts_our_psbt := Some psbt, ts_state := Some PENDING\<rparr> \<and>
        (GetRole account pb = TAKER \<and>
          r = Ret (Some ((InitProcessingMessage pb)\<lparr>pm_psbt := Some \<lparr>tp_psbt = Some psbt\<rparr>\<rparr>)) \<or>
         GetRole account pb = MAKER \<and> has (ts_their_psbt pb) \<and> r = Ret None \<and>
          (\<exists>finalPsbt w2. broadcast (tm_env TM) finalPsbt w2 w'))))"
proof -
  have fin: ?thesis if f: "after (TakerShares account) (MakerFinishes TM account) (pb1, w1) = (r, (pb', w'))"
    and p: "pb1 = pb\<lparr>ts_our_psbt := Some psbt\<rparr>"
      "ts_our_psbt pb = Some psbt \<or> ts_our_psbt pb = None \<and> our_signature TM account pb w psbt w1" for pb1 w1 psbt
    using finish_or [OF f] p by (intro disjI2 exI [of _ psbt] exI [of _ w1]) auto
  have same: "has (ts_our_psbt pb) \<Longrightarrow> \<exists>psbt. ts_our_psbt pb = Some psbt \<and> pb = pb\<lparr>ts_our_psbt := Some psbt\<rparr>"
    by (cases pb) (auto simp: has_iff)
  from sign_or [OF assms] show ?thesis
  proof (elim disjE exE)
    fix pb1 w1
    assume "after (TakerShares account) (MakerFinishes TM account) (pb1, w1) = (r, pb', w') \<and>
      (pb1 = pb \<and> has (ts_our_psbt pb) \<or>
       ts_our_psbt pb = None \<and> (\<exists>psbt. pb1 = pb\<lparr>ts_our_psbt := Some psbt\<rparr> \<and> our_signature TM account pb w psbt w1))"
    moreover from this same obtain psbt where "pb1 = pb\<lparr>ts_our_psbt := Some psbt\<rparr>"
        "ts_our_psbt pb = Some psbt \<or> ts_our_psbt pb = None \<and> our_signature TM account pb w psbt w1"
      by blast
    ultimately show ?thesis using fin [of pb1 w1 psbt] by simp
  qed blast+
qed

lemma InitProcessingMessage_seller [simp]:
  "InitProcessingMessage (pb\<lparr>ts_seller_data := x\<rparr>) = InitProcessingMessage pb"
  by (simp add: InitProcessingMessage_def GetIdentifier_def)

lemma HasReply_unfold:
  assumes "HasReply TM account (pb, w) = (r, (pb', w'))"
  shows "(pb' = pb \<and> (\<forall>m. r \<noteq> Ret (Some m))) \<or>
    (status pb = INITIATED \<and> GetOrderType account pb = ASK \<and> ts_seller_data pb = None \<and>
      (\<exists>sd. own_seller_data sd \<and> pb' = pb\<lparr>ts_seller_data := Some sd\<rparr> \<and>
        r = Ret (Some ((InitProcessingMessage pb)\<lparr>pm_seller_data := Some (sd\<lparr>sd_name_output := None\<rparr>)\<rparr>)))) \<or>
    (status pb = INITIATED \<and> has (ts_seller_data pb) \<and>
      (\<exists>w1. sign_and_finish TM account (pb, w1) = (r, (pb', w'))))"
proof (cases "status pb = INITIATED")
  case False
  with assms show ?thesis by (auto simp: HasReply_def run_simps)
next
  case init: True
  with assms consider (early) "CreateSellerData TM account (pb, w) = (Fatal, (pb', w'))" "r = Fatal"
    | (exc) e where "CreateSellerData TM account (pb, w) = (Throw e, (pb', w'))" "r = Throw e"
    | (go) created pb1 w1 where "CreateSellerData TM account (pb, w) = (Ret created, (pb1, w1))"
        "(if created then
           (case ts_seller_data pb1 of
              None \<Rightarrow> fatal
            | Some sd \<Rightarrow> ret (Some ((InitProcessingMessage pb1)\<lparr>pm_seller_data := Some (sd\<lparr>sd_name_output := None\<rparr>)\<rparr>)))
          else if \<not> has (ts_seller_data pb1) then ret None
          else if GetOrderType account pb1 = ASK \<and> \<not> has (ts_their_psbt pb1) then ret None
          else sign_and_finish TM account) (pb1, w1) = (r, (pb', w'))"
    by (auto simp: HasReply_def bnd_eq_iff [of "CreateSellerData TM account"]) (simp only: fst_conv)
  then show ?thesis
  proof cases
    case early
    then show ?thesis by (auto dest!: CreateSellerData_or)
  next
    case exc
    then show ?thesis by (auto dest!: CreateSellerData_or)
  next
    case go
    from CreateSellerData_or [OF go(1)] show ?thesis
    proof
      assume "pb1 = pb \<and> Ret created \<noteq> Ret True"
      with go(2) init show ?thesis by (auto split: if_splits)
    next
      assume "\<exists>out nameAddr chiAddr. Ret created = Ret True \<and> GetOrderType account pb = ASK \<and> ts_seller_data pb = None \<and>
        pb1 = pb\<lparr>ts_seller_data := Some \<lparr>sd_name_address = Some nameAddr, sd_chi_address = Some chiAddr,
         sd_name_output = Some out\<rparr>\<rparr> \<and> has (op_hash out) \<and> has (op_n out)"
      then obtain sd where sd: "created" "GetOrderType account pb = ASK" "ts_seller_data pb = None"
          "pb1 = pb\<lparr>ts_seller_data := Some sd\<rparr>" "own_seller_data sd"
        by (auto simp: own_seller_data_def)
      with go(2) init show ?thesis by (intro disjI2 disjI1) auto
    qed
  qed
qed

lemma HasReply_change:
  assumes "HasReply TM account (pb, w) = (r, (pb', w'))"
  shows "reply_change account pb pb'"
  using HasReply_unfold [OF assms]
proof (elim disjE)
  assume "status pb = INITIATED \<and> has (ts_seller_data pb) \<and>
    (\<exists>w1. sign_and_finish TM account (pb, w1) = (r, pb', w'))"
  then obtain w1 where "status pb = INITIATED" "has (ts_seller_data pb)"
    and s: "sign_and_finish TM account (pb, w1) = (r, pb', w')" by blast
  from sign_and_finish_or [OF s] have "signed_change pb pb'"
    unfolding signed_change_def by blast
  then show ?thesis
    using \<open>status pb = INITIATED\<close> \<open>has (ts_seller_data pb)\<close> by (simp add: reply_change_def)
qed (auto simp: reply_change_def)

text \<open>Every message a trade sends, and the state it is sent in.\<close>

lemma HasReply_sent:
  assumes "HasReply TM account (pb, w) = (Ret (Some m), (pb', w'))"
  shows "status pb = INITIATED \<and>
    (GetOrderType account pb = ASK \<and> ts_seller_data pb = None \<and>
      (\<exists>sd. own_seller_data sd \<and> pb' = pb\<lparr>ts_seller_data := Some sd\<rparr> \<and>
        m = (InitProcessingMessage pb)\<lparr>pm_seller_data := Some (sd\<lparr>sd_name_output := None\<rparr>)\<rparr>) \<or>
     has (ts_seller_data pb) \<and> GetRole account pb = MAKER \<and> GetOrderType account pb = BID \<and> ts_our_psbt pb = None \<and>
      (\<exists>bare psbt w1. buyer_signed TM account pb w1 bare psbt w' \<and> pb' = pb\<lparr>ts_our_psbt := Some psbt\<rparr> \<and>
        m = (InitProcessingMessage pb)\<lparr>pm_psbt := Some \<lparr>tp_psbt = Some bare\<rparr>\<rparr>) \<or>
     has (ts_seller_data pb) \<and> GetRole account pb = TAKER \<and>
      (\<exists>psbt w1 w2. (ts_our_psbt pb = Some psbt \<or> ts_our_psbt pb = None \<and> our_signature TM account pb w1 psbt w2) \<and>
        pb' = pb\<lparr>ts_our_psbt := Some psbt, ts_state := Some PENDING\<rparr> \<and>
        m = (InitProcessingMessage pb)\<lparr>pm_psbt := Some \<lparr>tp_psbt = Some psbt\<rparr>\<rparr>))"
  using HasReply_unfold [OF assms]
proof (elim disjE)
  assume "status pb = INITIATED \<and> has (ts_seller_data pb) \<and>
    (\<exists>w1. sign_and_finish TM account (pb, w1) = (Ret (Some m), pb', w'))"
  then obtain w1 where "status pb = INITIATED" "has (ts_seller_data pb)"
    and s: "sign_and_finish TM account (pb, w1) = (Ret (Some m), pb', w')" by blast
  from sign_and_finish_or [OF s] show ?thesis
    using \<open>status pb = INITIATED\<close> \<open>has (ts_seller_data pb)\<close>
    by (elim disjE; simp only: outcome.inject option.inject simp_thms; blast)
qed auto

section \<open>Updates\<close>

text \<open>With block heights of 32 bits and a non-negative flag the sum does not wrap around.\<close>

lemma is_final_iff:
  assumes "0 \<le> sint (democrit_confirmations F)"
  shows "is_final F (ucast (h :: uint32)) (ucast (cur :: uint32)) \<longleftrightarrow>
    uint h + sint (democrit_confirmations F) \<le> uint cur + 1"
proof -
  let ?n = "democrit_confirmations F"
  have n: "uint (scast ?n :: uint64) = sint ?n"
  proof -
    have "sint ?n < 2 ^ 31" using sint_lt [of ?n] by simp
    then show ?thesis using assms
      by (simp only: scast_eq uint_word_of_int) (simp add: mod_pos_pos_trivial)
  qed
  have h: "uint (ucast h :: uint64) = uint h" "uint (ucast cur :: uint64) = uint cur"
    by (simp_all add: uint_up_ucast is_up)
  have b: "uint h < 2 ^ 32" "uint cur < 2 ^ 32" "sint ?n < 2 ^ 31"
    using uint_lt2p [of h] uint_lt2p [of cur] sint_lt [of ?n] by simp_all
  then have "uint (ucast h + scast ?n :: uint64) = uint h + sint ?n"
    "uint (ucast cur + 1 :: uint64) = uint cur + 1"
    using assms by (simp_all add: uint_word_ariths h n)
  then show ?thesis by (simp add: is_final_def word_le_def)
qed

text \<open>What an answered query says: the state of the trade and the current height, of 32 bits.\<close>

lemma QueryTrade_Ret:
  assumes "QueryTrade E ours w = (Ret (tx, cur, dat), w')"
  shows "\<exists>decoded check w1. decodepsbt E ours w = (Ret decoded, w1) \<and> tx = jget decoded ''tx'' \<and>
    checktrade E (jtext (jget tx ''btxid'')) w1 = (Ret check, w') \<and> isUInt (jget check ''height'') \<and>
    cur = ucast (asUInt (jget check ''height'')) \<and> dat = jget check ''data'' \<and> isString (jget dat ''state'')"
  using assms by (auto simp: QueryTrade_def prog_inv Let_def)

lemma ConfirmedFinal_True:
  assumes "ConfirmedFinal F cur dat s = (Ret True, s')"
  shows "s' = s \<and> jtext (jget dat ''state'') = ''confirmed'' \<and> isUInt (jget dat ''height'') \<and>
    is_final F (ucast (asUInt (jget dat ''height''))) cur"
  using assms by (auto simp: ConfirmedFinal_def prog_inv Let_def split: if_splits)

lemma ConfirmedFinal_state: "ConfirmedFinal F cur dat s = (r, s') \<Longrightarrow> s' = s"
  by (auto simp: ConfirmedFinal_def run_simps split: if_splits)

text \<open>The four ways in which the blockchain changes a pending trade.\<close>

definition confirmed_deep :: "flags \<Rightarrow> uint64 \<Rightarrow> json \<Rightarrow> bool" where
  "confirmed_deep F cur dat \<longleftrightarrow> jtext (jget dat ''state'') = ''confirmed'' \<and> isUInt (jget dat ''height'') \<and>
     is_final F (ucast (asUInt (jget dat ''height''))) cur"

definition conflict_seen :: "'w env \<Rightarrow> json \<Rightarrow> json \<Rightarrow> 'w \<Rightarrow> 'w \<Rightarrow> bool" where
  "conflict_seen E tx dat w w' \<longleftrightarrow> jtext (jget dat ''state'') = ''unknown'' \<and>
     some_input_spent E (jelems (jget tx ''vin'')) w = (Ret True, w')"

lemma UpdateConflict_or:
  assumes "UpdateConflict E F tx cur (pb, w) = (r, (pb', w'))"
  shows "pb' = pb \<or> pb' = pb\<lparr>ts_conflict_height := None\<rparr> \<or>
    some_input_spent E (jelems (jget tx ''vin'')) w = (Ret True, w') \<and> r = Ret () \<and>
     (ts_conflict_height pb = None \<and> pb' = pb\<lparr>ts_conflict_height := Some cur\<rparr> \<or>
      (\<exists>h. ts_conflict_height pb = Some h \<and> is_final F h cur \<and> pb' = pb\<lparr>ts_state := Some FAILED\<rparr>))"
  using assms
  by (cases "ts_conflict_height pb")
     (auto simp: UpdateConflict_def run_simps set_state_def clear_conflict_height_def split: if_splits)

lemma UpdatePending_or:
  assumes "UpdatePending E F ours (pb, w) = (r, (pb', w'))"
  shows "pb' = pb \<or> (\<exists>tx cur dat w1. QueryTrade E ours w = (Ret (tx, cur, dat), w1) \<and>
    (confirmed_deep F cur dat \<and> pb' = pb\<lparr>ts_state := Some SUCCESS\<rparr> \<or>
     pb' = pb\<lparr>ts_conflict_height := None\<rparr> \<or>
     conflict_seen E tx dat w1 w' \<and>
       (ts_conflict_height pb = None \<and> pb' = pb\<lparr>ts_conflict_height := Some cur\<rparr> \<or>
        (\<exists>h. ts_conflict_height pb = Some h \<and> is_final F h cur \<and> pb' = pb\<lparr>ts_state := Some FAILED\<rparr>))))"
proof (cases "QueryTrade E ours w")
  case (Pair q w1)
  show ?thesis
  proof (cases q)
    case (Ret x)
    obtain tx cur dat where x: "x = (tx, cur, dat)" by (cases x)
    obtain v s1 where v: "ConfirmedFinal F cur dat (pb, w1) = (v, s1)" by (rule prod.exhaust)
    then have [simp]: "s1 = (pb, w1)" by (rule ConfirmedFinal_state)
    have q: "QueryTrade E ours w = (Ret (tx, cur, dat), w1)" using Pair Ret x by simp
    show ?thesis
    proof (cases v)
      case (Ret final)
      with assms q v have rest: "(if final then set_state SUCCESS else
          if jtext (jget dat ''state'') \<noteq> ''unknown'' then clear_conflict_height else
          UpdateConflict E F tx cur) (pb, w1) = (r, (pb', w'))"
        by (simp add: UpdatePending_def bnd_def onW_def)
      show ?thesis
      proof (cases final)
        case True
        with rest Ret v have "confirmed_deep F cur dat" "pb' = pb\<lparr>ts_state := Some SUCCESS\<rparr>"
          by (auto simp: set_state_def confirmed_deep_def dest!: ConfirmedFinal_True)
        with q show ?thesis by blast
      next
        case False
        with rest q show ?thesis
          by (cases "jtext (jget dat ''state'') = ''unknown''")
             (auto simp: clear_conflict_height_def conflict_seen_def dest!: UpdateConflict_or)
      qed
    qed (use assms q v in \<open>simp_all add: UpdatePending_def bnd_def onW_def\<close>)
  qed (use assms Pair in \<open>simp_all add: UpdatePending_def bnd_def onW_def\<close>)
qed

lemma Update_or:
  assumes "Update TM (pb, w) = (r, (pb', w'))"
  shows "pb' = pb \<or>
    status pb = INITIATED \<and> pb' = pb\<lparr>ts_state := Some ABANDONED\<rparr> \<and>
      (\<exists>now. GetCurrentTime (tm_env TM) w = (Ret now, w') \<and>
         GetTradeTimeout (tm_flags TM) < (now - dflt 0 (ts_start_time pb)) * 1000) \<or>
    status pb = PENDING \<and> (\<exists>ours. ts_our_psbt pb = Some ours \<and>
      UpdatePending (tm_env TM) (tm_flags TM) ours (pb, w) = (r, (pb', w')))"
  using assms
  by (auto simp: Update_def run_simps set_state_def split: if_splits option.splits)

end
