(* ===== verification/TradeRuns.thy ===== *)
theory TradeRuns
  imports TradeLife
begin

text \<open>
  Runs of one trade: messages of the counterparty and updates from the blockchain, in any
  order and with any answers of the outside world. The trade's invariant makes the \<^verbatim>\<open>CHECK\<close>s
  of its methods hold, its state only moves forward, and its signed PSBT leaves the wallet
  only in the step that makes the trade pending.
\<close>

section \<open>The step relation\<close>

text \<open>An event with the message that is sent in reply to it.\<close>

datatype trade_event = Received ProcessingMessage "ProcessingMessage option" | Tick

definition sent_of :: "ProcessingMessage option outcome \<Rightarrow> ProcessingMessage option" where
  "sent_of r = (case r of Ret m \<Rightarrow> m | _ \<Rightarrow> None)"

inductive trade_step :: "'w TradeManager \<Rightarrow> string \<Rightarrow> trade_event \<Rightarrow> TradeState \<Rightarrow> TradeState \<Rightarrow> bool"
  for TM :: "'w TradeManager" and account :: string where
  received: "HasReply TM account (HandleMessage account msg pb, w) = (r, (pb', w')) \<Longrightarrow> r \<noteq> Fatal \<Longrightarrow>
    trade_step TM account (Received msg (sent_of r)) pb pb'"
| tick: "Update TM (pb, w) = (Ret (), (pb', w')) \<Longrightarrow> trade_step TM account Tick pb pb'"

inductive_cases trade_step_receivedE: "trade_step TM account (Received msg (Some m)) pb pb'"

section \<open>The invariant\<close>

definition trade_inv :: "string \<Rightarrow> TradeState \<Rightarrow> bool" where
  "trade_inv account pb \<longleftrightarrow>
     (status pb \<in> {PENDING, SUCCESS, FAILED} \<longrightarrow> has (ts_our_psbt pb)) \<and>
     (status pb \<in> {INITIATED, ABANDONED} \<longrightarrow>
        ts_conflict_height pb = None \<and> (has (ts_our_psbt pb) \<longrightarrow> GetRole account pb = MAKER)) \<and>
     (has (ts_our_psbt pb) \<longrightarrow> has (ts_seller_data pb)) \<and>
     (\<forall>sd. ts_seller_data pb = Some sd \<longrightarrow>
        (case GetOrderType account pb of ASK \<Rightarrow> own_seller_data sd | BID \<Rightarrow> seller_data_ok sd))"

definition fresh_trade :: "TradeState \<Rightarrow> bool" where
  "fresh_trade pb \<longleftrightarrow> ts_state pb = Some INITIATED \<and> ts_seller_data pb = None \<and> ts_our_psbt pb = None \<and>
     ts_their_psbt pb = None \<and> ts_conflict_height pb = None"

lemma fresh_trade_inv: "fresh_trade pb \<Longrightarrow> trade_inv account pb"
  by (simp add: fresh_trade_def trade_inv_def)

lemma view_simps [simp]:
  "GetRole account (pb\<lparr>ts_state := st\<rparr>) = GetRole account pb"
  "GetRole account (pb\<lparr>ts_seller_data := sd\<rparr>) = GetRole account pb"
  "GetRole account (pb\<lparr>ts_their_psbt := p\<rparr>) = GetRole account pb"
  "GetRole account (pb\<lparr>ts_conflict_height := h\<rparr>) = GetRole account pb"
  "GetOrderType account (pb\<lparr>ts_state := st\<rparr>) = GetOrderType account pb"
  "GetOrderType account (pb\<lparr>ts_seller_data := sd\<rparr>) = GetOrderType account pb"
  "GetOrderType account (pb\<lparr>ts_their_psbt := p\<rparr>) = GetOrderType account pb"
  "GetOrderType account (pb\<lparr>ts_conflict_height := h\<rparr>) = GetOrderType account pb"
  by (simp_all add: GetRole_def GetOrderType_def)

text \<open>A message of the counterparty only fills in what is missing.\<close>

lemma HandleMessage_eq:
  "\<exists>sd theirs. HandleMessage account msg pb = pb\<lparr>ts_seller_data := sd, ts_their_psbt := theirs\<rparr> \<and>
     (sd = ts_seller_data pb \<or> GetOrderType account pb = BID \<and> ts_seller_data pb = None \<and>
        (\<exists>d. sd = Some d \<and> pm_seller_data msg = Some d \<and> seller_data_ok d)) \<and>
     (theirs = ts_their_psbt pb \<or> ts_their_psbt pb = None)"
  by (cases pb, cases "pm_seller_data msg"; cases "pm_psbt msg")
     (auto simp: HandleMessage_def MergeSellerData_eq MergePsbt_def Let_def has_iff)

lemma HandleMessage_inv: "trade_inv account pb \<Longrightarrow> trade_inv account (HandleMessage account msg pb)"
  using HandleMessage_eq [of account msg pb]
  by (elim exE conjE) (auto simp: trade_inv_def has_iff)

lemma HandleMessage_keeps [simp]:
  "ts_state (HandleMessage account msg pb) = ts_state pb"
  "ts_our_psbt (HandleMessage account msg pb) = ts_our_psbt pb"
  "GetRole account (HandleMessage account msg pb) = GetRole account pb"
  "GetOrderType account (HandleMessage account msg pb) = GetOrderType account pb"
  "ts_order (HandleMessage account msg pb) = ts_order pb" "ts_units (HandleMessage account msg pb) = ts_units pb"
  "ts_counterparty (HandleMessage account msg pb) = ts_counterparty pb"
  "ts_start_time (HandleMessage account msg pb) = ts_start_time pb"
  using HandleMessage_eq [of account msg pb] by auto

text \<open>A taker's signature makes the trade pending in the same call.\<close>

lemma HasReply_inv:
  assumes "trade_inv account pb" "HasReply TM account (pb, w) = (r, (pb', w'))" "r \<noteq> Fatal"
  shows "trade_inv account pb'"
  using HasReply_unfold [OF assms(2)]
proof (elim disjE)
  assume "status pb = INITIATED \<and> has (ts_seller_data pb) \<and> (\<exists>w1. sign_and_finish TM account (pb, w1) = (r, pb', w'))"
  then obtain w1 where "status pb = INITIATED" "has (ts_seller_data pb)"
    and s: "sign_and_finish TM account (pb, w1) = (r, pb', w')" by blast
  then show ?thesis
    using assms(1,3) sign_and_finish_or [OF s] by (elim disjE) (auto simp: trade_inv_def)
qed (use assms(1) in \<open>auto simp: trade_inv_def\<close>)

lemma Update_inv:
  assumes "trade_inv account pb" "Update TM (pb, w) = (r, (pb', w'))"
  shows "trade_inv account pb'"
  using Update_or [OF assms(2)]
proof (elim disjE)
  assume "status pb = PENDING \<and> (\<exists>ours. ts_our_psbt pb = Some ours \<and>
    UpdatePending (tm_env TM) (tm_flags TM) ours (pb, w) = (r, (pb', w')))"
  then obtain ours where p: "status pb = PENDING" "ts_our_psbt pb = Some ours"
    and u: "UpdatePending (tm_env TM) (tm_flags TM) ours (pb, w) = (r, (pb', w'))" by blast
  from UpdatePending_or [OF u] have "pb' = pb \<or> (\<exists>st. st \<in> {SUCCESS, FAILED} \<and> pb' = pb\<lparr>ts_state := Some st\<rparr>) \<or>
      (\<exists>h. pb' = pb\<lparr>ts_conflict_height := h\<rparr>)" by blast
  with p assms(1) show ?thesis by (auto simp: trade_inv_def)
qed (use assms(1) in \<open>auto simp: trade_inv_def\<close>)

lemma trade_step_inv: "trade_inv account pb \<Longrightarrow> trade_step TM account e pb pb' \<Longrightarrow> trade_inv account pb'"
  by (erule trade_step.cases) (auto dest: HasReply_inv [OF HandleMessage_inv] Update_inv)

section \<open>The order of states\<close>

fun may_become :: "trade_status \<Rightarrow> trade_status \<Rightarrow> bool" where
  "may_become INITIATED _ = True"
| "may_become PENDING st = (st \<in> {PENDING, SUCCESS, FAILED})"
| "may_become st st' = (st' = st)"

lemma may_become_refl [simp]: "may_become st st"
  by (cases st) auto

lemma may_become_trans: "may_become a b \<Longrightarrow> may_become b c \<Longrightarrow> may_become a c"
  by (cases a; cases b; cases c) auto

text \<open>The terms of the trade.\<close>

definition terms :: "TradeState \<Rightarrow> Order \<times> uint64 option \<times> string option \<times> int option" where
  "terms pb = (ts_order pb, ts_units pb, ts_counterparty pb, ts_start_time pb)"

definition kept :: "'a option \<Rightarrow> 'a option \<Rightarrow> bool" where
  "kept x y \<longleftrightarrow> x = None \<or> y = x"

lemma HasReply_forward:
  assumes "HasReply TM account (pb, w) = (r, (pb', w'))"
  shows "terms pb' = terms pb \<and> may_become (status pb) (status pb') \<and> kept (ts_our_psbt pb) (ts_our_psbt pb') \<and>
    kept (ts_seller_data pb) (ts_seller_data pb') \<and> ts_their_psbt pb' = ts_their_psbt pb"
  using HasReply_change [OF assms]
  by (auto simp: reply_change_def signed_change_def terms_def kept_def)

lemma Update_forward:
  assumes "Update TM (pb, w) = (r, (pb', w'))"
  shows "terms pb' = terms pb \<and> may_become (status pb) (status pb') \<and> ts_our_psbt pb' = ts_our_psbt pb \<and>
    ts_seller_data pb' = ts_seller_data pb \<and> ts_their_psbt pb' = ts_their_psbt pb"
  using Update_or [OF assms]
proof (elim disjE)
  assume "status pb = PENDING \<and> (\<exists>ours. ts_our_psbt pb = Some ours \<and>
    UpdatePending (tm_env TM) (tm_flags TM) ours (pb, w) = (r, (pb', w')))"
  then obtain ours where "status pb = PENDING"
    and u: "UpdatePending (tm_env TM) (tm_flags TM) ours (pb, w) = (r, (pb', w'))" by blast
  with UpdatePending_or [OF u] show ?thesis by (auto simp: terms_def)
qed (auto simp: terms_def)

definition forward :: "TradeState \<Rightarrow> TradeState \<Rightarrow> bool" where
  "forward pb pb' \<longleftrightarrow> terms pb' = terms pb \<and> may_become (status pb) (status pb') \<and>
     kept (ts_our_psbt pb) (ts_our_psbt pb') \<and> kept (ts_seller_data pb) (ts_seller_data pb') \<and>
     kept (ts_their_psbt pb) (ts_their_psbt pb')"

lemma HandleMessage_forward: "forward pb (HandleMessage account msg pb)"
proof -
  obtain sd theirs where eq: "HandleMessage account msg pb = pb\<lparr>ts_seller_data := sd, ts_their_psbt := theirs\<rparr>"
    and or: "sd = ts_seller_data pb \<or> ts_seller_data pb = None" "theirs = ts_their_psbt pb \<or> ts_their_psbt pb = None"
    using HandleMessage_eq [of account msg pb] by blast
  from or show ?thesis unfolding eq by (auto simp: forward_def terms_def kept_def)
qed

lemma forward_refl: "forward pb pb"
  by (simp add: forward_def kept_def)

lemma forward_trans: "forward a b \<Longrightarrow> forward b c \<Longrightarrow> forward a c"
  by (auto simp: forward_def kept_def intro: may_become_trans)

lemma trade_step_forward: "trade_step TM account e pb pb' \<Longrightarrow> forward pb pb'"
proof (induction rule: trade_step.induct)
  case (received msg pb w r pb' w')
  from HasReply_forward [OF received(1)] have "forward (HandleMessage account msg pb) pb'"
    by (auto simp: forward_def kept_def)
  then show ?case by (rule forward_trans [OF HandleMessage_forward])
next
  case (tick pb w pb' w')
  from Update_forward [OF tick] show ?case by (simp add: forward_def kept_def)
qed

lemma trade_runs_forward: "runs (trade_step TM account) pb es pb' \<Longrightarrow> forward pb pb'"
  by (induction rule: runs.induct) (blast intro: forward_refl forward_trans trade_step_forward)+

lemma trade_runs_inv: "runs (trade_step TM account) pb es pb' \<Longrightarrow> trade_inv account pb \<Longrightarrow> trade_inv account pb'"
  by (erule runs_invariant) (auto intro: trade_step_inv)

section \<open>What is sent\<close>

fun sent_psbt :: "trade_event \<Rightarrow> string option" where
  "sent_psbt (Received _ (Some m)) = Option.bind (pm_psbt m) tp_psbt"
| "sent_psbt _ = None"

fun sent_seller_data :: "trade_event \<Rightarrow> SellerData option" where
  "sent_seller_data (Received _ (Some m)) = pm_seller_data m"
| "sent_seller_data _ = None"

text \<open>
  A PSBT that is sent is either our signed one, in the step that makes the trade pending, or
  (as the maker and buyer) the bare transaction that our wallet has not signed.
\<close>

lemma psbt_sent:
  assumes "trade_step TM account e pb pb'" "sent_psbt e = Some p" "trade_inv account pb"
  shows "ts_our_psbt pb = None \<and> has (ts_our_psbt pb') \<and>
    (GetRole account pb = TAKER \<and> ts_our_psbt pb' = Some p \<and> status pb' = PENDING \<or>
     GetRole account pb = MAKER \<and> GetOrderType account pb = BID \<and> status pb' = INITIATED \<and>
      (\<exists>psbt pb1 w w'. ts_our_psbt pb' = Some psbt \<and> buyer_signed TM account pb1 w p psbt w' \<and>
         terms pb1 = terms pb))"
proof -
  from assms(1,2) obtain msg m w w' where e: "e = Received msg (Some m)" "Option.bind (pm_psbt m) tp_psbt = Some p"
    and h: "HasReply TM account (HandleMessage account msg pb, w) = (Ret (Some m), (pb', w'))"
    by (cases rule: trade_step.cases) (auto simp: sent_of_def elim!: sent_psbt.elims split: outcome.splits)
  define pb1 where "pb1 = HandleMessage account msg pb"
  have t: "terms pb1 = terms pb" by (simp add: pb1_def terms_def)
  have i: "pm_psbt (InitProcessingMessage x) = None" for x by (simp add: InitProcessingMessage_def empty_pm_def)
  from HasReply_sent [OF h, folded pb1_def] show ?thesis
  proof (elim disjE conjE exE)
    fix bare psbt w1
    assume "status pb1 = INITIATED" "GetRole account pb1 = MAKER" "GetOrderType account pb1 = BID"
      "ts_our_psbt pb1 = None" "buyer_signed TM account pb1 w1 bare psbt w'"
      "pb' = pb1\<lparr>ts_our_psbt := Some psbt\<rparr>" "m = (InitProcessingMessage pb1)\<lparr>pm_psbt := Some \<lparr>tp_psbt = Some bare\<rparr>\<rparr>"
    with e(2) t show ?thesis by (auto simp: pb1_def)
  next
    fix psbt
    assume a: "status pb1 = INITIATED" "GetRole account pb1 = TAKER" "ts_our_psbt pb1 = Some psbt"
    then have "has (ts_our_psbt pb)" "status pb = INITIATED" "GetRole account pb = TAKER" by (simp_all add: pb1_def)
    with assms(3) show ?thesis by (simp add: trade_inv_def)
  next
    fix psbt w1 w2
    assume "GetRole account pb1 = TAKER" "ts_our_psbt pb1 = None"
      "pb' = pb1\<lparr>ts_our_psbt := Some psbt, ts_state := Some PENDING\<rparr>"
      "m = (InitProcessingMessage pb1)\<lparr>pm_psbt := Some \<lparr>tp_psbt = Some psbt\<rparr>\<rparr>"
    with e(2) show ?thesis by (auto simp: pb1_def)
  qed (use e(2) i in auto)
qed

lemma seller_data_sent:
  assumes "trade_step TM account e pb pb'" "sent_seller_data e = Some sd"
  shows "ts_seller_data pb = None \<and> GetOrderType account pb = ASK \<and>
    (\<exists>own. own_seller_data own \<and> ts_seller_data pb' = Some own \<and> sd = own\<lparr>sd_name_output := None\<rparr>)"
proof -
  from assms obtain msg m w w' where e: "pm_seller_data m = Some sd"
    and h: "HasReply TM account (HandleMessage account msg pb, w) = (Ret (Some m), (pb', w'))"
    by (cases rule: trade_step.cases) (auto simp: sent_of_def elim!: sent_seller_data.elims split: outcome.splits)
  have i: "pm_seller_data (InitProcessingMessage x) = None" for x by (simp add: InitProcessingMessage_def empty_pm_def)
  from HasReply_sent [OF h] e i have "GetOrderType account pb = ASK" "ts_seller_data (HandleMessage account msg pb) = None"
    "\<exists>own. own_seller_data own \<and> ts_seller_data pb' = Some own \<and> sd = own\<lparr>sd_name_output := None\<rparr>"
    by auto
  moreover have "kept (ts_seller_data pb) (ts_seller_data (HandleMessage account msg pb))"
    using HandleMessage_forward [of pb account msg] by (simp add: forward_def)
  ultimately show ?thesis by (auto simp: kept_def)
qed

lemma psbt_count:
  "runs (trade_step TM account) pb es pb' \<Longrightarrow> trade_inv account pb \<Longrightarrow>
     length (filter (\<lambda>e. sent_psbt e \<noteq> None) es) \<le> (if ts_our_psbt pb = None then 1 else 0)"
proof (induction rule: runs.induct)
  case (runs_cons e s t es u)
  then have inv: "trade_inv account t" by (blast intro: trade_step_inv)
  have "kept (ts_our_psbt s) (ts_our_psbt t)" using trade_step_forward [OF runs_cons(1)] by (simp add: forward_def)
  with runs_cons(3) [OF inv] psbt_sent [OF runs_cons(1) _ runs_cons.prems] show ?case
    by (cases "sent_psbt e") (auto simp: kept_def has_iff split: if_splits)
qed simp

lemma seller_data_count:
  "runs (trade_step TM account) pb es pb' \<Longrightarrow>
     length (filter (\<lambda>e. sent_seller_data e \<noteq> None) es) \<le> (if ts_seller_data pb = None then 1 else 0)"
proof (induction rule: runs.induct)
  case (runs_cons e s t es u)
  have "kept (ts_seller_data s) (ts_seller_data t)" using trade_step_forward [OF runs_cons(1)] by (simp add: forward_def)
  with runs_cons(3) seller_data_sent [OF runs_cons(1)] show ?case
    by (cases "sent_seller_data e") (auto simp: kept_def split: if_splits)
qed simp

section \<open>Checks that cannot fail\<close>

text \<open>
  With the invariant, the \<^verbatim>\<open>CHECK\<close>s on the trade's own data hold: a pending trade has our
  PSBT, the seller has its outpoint, the buyer has both addresses.
\<close>

lemma inv_seller_checks:
  assumes "trade_inv account pb" "has (ts_seller_data pb)"
  shows "has (sd_chi_address (dflt empty_sd (ts_seller_data pb)))" "has (sd_name_address (dflt empty_sd (ts_seller_data pb)))"
    "GetOrderType account pb = ASK \<Longrightarrow> own_seller_data (dflt empty_sd (ts_seller_data pb))"
proof -
  from assms(2) obtain sd where sd: "ts_seller_data pb = Some sd" by (auto simp: has_iff)
  with assms(1) have "case GetOrderType account pb of ASK \<Rightarrow> own_seller_data sd | BID \<Rightarrow> seller_data_ok sd"
    by (simp add: trade_inv_def)
  then show "has (sd_chi_address (dflt empty_sd (ts_seller_data pb)))" "has (sd_name_address (dflt empty_sd (ts_seller_data pb)))"
    "GetOrderType account pb = ASK \<Longrightarrow> own_seller_data (dflt empty_sd (ts_seller_data pb))"
    using sd by (cases "GetOrderType account pb"; simp add: own_seller_data_def seller_data_ok_def)+
qed

end
