(* ===== verification/TradeManager.thy ===== *)
theory TradeManager
  imports TradeRuns
begin

text \<open>
  All trades of the user: the class \<^verbatim>\<open>TradeManager\<close> of \<^verbatim>\<open>src/src/trades.cpp\<close> on the global
  state, and the periodic job that drives its updates (\<^verbatim>\<open>src/src/intervaljob.cpp\<close>). The
  state's mutex is held during each access, so an operation runs on the whole state.
\<close>

section \<open>The class\<close>

text \<open>A method of the trade object that wraps the \<open>i\<close>-th trade of the state.\<close>

definition onTrade :: "nat \<Rightarrow> (TradeState \<times> 'w, 'a) prog \<Rightarrow> (State \<times> 'w, 'a) prog" where
  "onTrade i m = (\<lambda>(s, w). case m (st_trades s ! i, w) of
     (r, (pb', w')) \<Rightarrow> (r, (s\<lparr>st_trades := (st_trades s)[i := pb']\<rparr>, w')))"

text \<open>A method of a trade object that wraps a local message, whose final value is returned too.\<close>

definition onLocal :: "TradeState \<Rightarrow> (TradeState \<times> 'w, 'a) prog \<Rightarrow> (State \<times> 'w, 'a \<times> TradeState) prog" where
  "onLocal pb m = (\<lambda>(s, w). case m (pb, w) of
     (r, (pb', w')) \<Rightarrow> ((case r of Ret a \<Rightarrow> Ret (a, pb') | Throw e \<Rightarrow> Throw e | Fatal \<Rightarrow> Fatal), (s, w')))"

definition update_trade ::
    "'w TradeManager \<Rightarrow> string \<Rightarrow> nat \<Rightarrow> TradeState list \<times> TradeState list
      \<Rightarrow> (State \<times> 'w, TradeState list \<times> TradeState list) prog" where
  "update_trade TM account i acc =
     (case acc of (stillActive, finalised) \<Rightarrow>
      bnd (onTrade i (Update TM)) (\<lambda>_.
      bnd (gets (\<lambda>(s, w). st_trades s ! i)) (\<lambda>t.
      if IsFinalised t then
        bnd (modifies (\<lambda>(s, w). (s\<lparr>st_trade_archive := st_trade_archive s @ [GetPublicInfo account t],
          st_trades := (st_trades s)[i := empty_ts]\<rparr>, w))) (\<lambda>_.
        ret (stillActive, finalised @ [t]))
      else
        bnd (modifies (\<lambda>(s, w). (s\<lparr>st_trades := (st_trades s)[i := empty_ts]\<rparr>, w))) (\<lambda>_.
        ret (stillActive @ [t], finalised)))))"

definition finish_trade :: "'w TradeManager \<Rightarrow> string \<Rightarrow> TradeState \<Rightarrow> (State \<times> 'w, unit) prog" where
  "finish_trade TM account t =
     (case status t of
        ABANDONED \<Rightarrow> HandleFailure TM account t
      | FAILED \<Rightarrow> HandleFailure TM account t
      | SUCCESS \<Rightarrow> HandleSuccess TM account t
      | _ \<Rightarrow> fatal)"

definition UpdateAndArchiveTrades :: "'w TradeManager \<Rightarrow> (State \<times> 'w, unit) prog" where
  "UpdateAndArchiveTrades TM =
     bnd (gets fst) (\<lambda>s0.
     let account = state_account s0 in
     bnd (fold_prog (update_trade TM account) [0..<length (st_trades s0)] ([], [])) (\<lambda>(stillActive, finalised).
     bnd (modifies (\<lambda>(s, w). (s\<lparr>st_trades := stillActive\<rparr>, w))) (\<lambda>_.
     for_each (finish_trade TM account) finalised)))"

definition GetTrades :: "State \<Rightarrow> Trade list" where
  "GetTrades s = map (GetPublicInfo (state_account s)) (st_trades s) @ st_trade_archive s"

text \<open>
  One round of a periodic job on its worker thread: an exception that leaves the thread's
  function ends the process.
\<close>

definition job_round :: "('s, unit) prog \<Rightarrow> ('s, unit) prog" where
  "job_round job = catch job (\<lambda>exc. fatal)"

definition CheckOrder :: "Order \<Rightarrow> Amount \<Rightarrow> bool" where
  "CheckOrder ord units =
     (if sint units > sint (dflt 0 (order_max_units ord)) \<or> sint units < sint (dflt 0 (order_min_units ord))
      then False
      else if \<not> has (order_account ord) \<or> \<not> has (order_id ord) \<or> \<not> has (order_asset ord)
        \<or> \<not> has (order_type ord) \<or> \<not> has (order_price_sat ord)
      then False
      else True)"

definition new_trade :: "Order \<Rightarrow> int \<Rightarrow> Amount \<Rightarrow> string \<Rightarrow> TradeState" where
  "new_trade ord now units other = empty_ts\<lparr>ts_order := ord, ts_start_time := Some now,
     ts_units := Some units, ts_counterparty := Some other, ts_state := Some INITIATED\<rparr>"

definition TakeOrder :: "'w TradeManager \<Rightarrow> Order \<Rightarrow> Amount \<Rightarrow> (State \<times> 'w, ProcessingMessage option) prog" where
  "TakeOrder TM ord units =
     (if \<not> CheckOrder ord units then ret None else
      bnd (onW (GetCurrentTime (tm_env TM))) (\<lambda>now.
      let data = new_trade ord now units (dflt [] (order_account ord)) in
      bnd (gets fst) (\<lambda>s.
      if counterparty data = state_account s then ret None else
      catch (
        bnd (onLocal data (HasReply TM (state_account s))) (\<lambda>(reply, data').
        let msg = (case reply of Some m \<Rightarrow> m | None \<Rightarrow> InitProcessingMessage data') in
        bnd (modifies (\<lambda>(s, w). (s\<lparr>st_trades := st_trades s @ [data']\<rparr>, w))) (\<lambda>_.
        ret (Some (SetTakingOrder data' msg)))))
      (\<lambda>exc. ret None))))"

definition OrderTaken :: "'w TradeManager \<Rightarrow> Order \<Rightarrow> Amount \<Rightarrow> string \<Rightarrow> (State \<times> 'w, bool) prog" where
  "OrderTaken TM ord units other =
     (if \<not> CheckOrder ord units then ret False else
      bnd (onW (GetCurrentTime (tm_env TM))) (\<lambda>now.
      let data = new_trade ord now units other in
      bnd (gets fst) (\<lambda>s.
      checked (ord_account data = state_account s) (
      if counterparty data = state_account s then ret False else
      bnd (modifies (\<lambda>(s, w). (s\<lparr>st_trades := st_trades s @ [data]\<rparr>, w))) (\<lambda>_.
      ret True)))))"

text \<open>The loop stops at the first trade that matches.\<close>

fun first_match :: "ProcessingMessage \<Rightarrow> nat \<Rightarrow> TradeState list \<Rightarrow> nat option" where
  "first_match msg i [] = None"
| "first_match msg i (t # ts) = (if Matches msg t then Some i else first_match msg (Suc i) ts)"

definition process_matching :: "'w TradeManager \<Rightarrow> ProcessingMessage \<Rightarrow> (State \<times> 'w, ProcessingMessage option) prog" where
  "process_matching TM msg =
     bnd (gets fst) (\<lambda>s.
     case first_match msg 0 (st_trades s) of
       None \<Rightarrow> ret None
     | Some i \<Rightarrow>
         catch (onTrade i (
           bnd (modifies (\<lambda>(pb, w). (HandleMessage (state_account s) msg pb, w))) (\<lambda>_.
           HasReply TM (state_account s))))
         (\<lambda>exc. ret None))"

definition ProcessMessage :: "'w TradeManager \<Rightarrow> ProcessingMessage \<Rightarrow> (State \<times> 'w, ProcessingMessage option) prog" where
  "ProcessMessage TM msg =
     (case pm_counterparty msg of
        None \<Rightarrow> fatal
      | Some other \<Rightarrow>
          (case pm_taking_order msg of
             None \<Rightarrow> process_matching TM msg
           | Some to \<Rightarrow>
               bnd (TryLock (tm_myOrders TM) (dflt 0 (to_id to))) (\<lambda>locked.
               case locked of
                 None \<Rightarrow> ret None
               | Some ord \<Rightarrow>
                   bnd (OrderTaken TM ord (dflt 0 (to_units to)) other) (\<lambda>taken.
                   if \<not> taken then
                     bnd (Unlock (tm_myOrders TM) (dflt 0 (to_id to))) (\<lambda>_. ret None)
                   else process_matching TM msg))))"

section \<open>First facts\<close>

lemma first_match_Some:
  "first_match msg i ts = Some k \<longleftrightarrow>
     i \<le> k \<and> k - i < length ts \<and> Matches msg (ts ! (k - i)) \<and> (\<forall>j < k - i. \<not> Matches msg (ts ! j))"
proof (induction ts arbitrary: i)
  case (Cons t ts)
  show ?case
  proof (cases "Matches msg t")
    case True
    then show ?thesis by (auto simp: nth_Cons split: nat.splits)
  next
    case False
    note first = this
    show ?thesis
    proof (cases "i < k")
      case True
      then obtain d where "k = Suc i + d" by (auto simp: less_iff_Suc_add)
      with first Cons.IH [of "Suc i"] show ?thesis by (auto simp: nth_Cons less_Suc_eq_0_disj split: nat.splits)
    next
      case False
      with first Cons.IH [of "Suc i"] show ?thesis by auto
    qed
  qed
qed simp

lemma first_match_None: "first_match msg i ts = None \<longleftrightarrow> (\<forall>t \<in> set ts. \<not> Matches msg t)"
  by (induction ts arbitrary: i) auto

lemma onTrade_eq:
  "onTrade i m (s, w) = (r, (s', w')) \<longleftrightarrow>
     (\<exists>pb'. m (st_trades s ! i, w) = (r, (pb', w')) \<and> s' = s\<lparr>st_trades := (st_trades s)[i := pb']\<rparr>)"
  by (auto simp: onTrade_def split: prod.splits)

lemma onLocal_Ret:
  "onLocal pb m (s, w) = (Ret (a, pb'), (s', w')) \<longleftrightarrow> s' = s \<and> m (pb, w) = (Ret a, (pb', w'))"
  by (auto simp: onLocal_def split: prod.splits outcome.splits)

lemma onLocal_state: "onLocal pb m (s, w) = (r, (s', w')) \<Longrightarrow> s' = s"
  by (auto simp: onLocal_def split: prod.splits)

lemma fresh_new_trade: "fresh_trade (new_trade ord now units other)"
  by (simp add: fresh_trade_def new_trade_def empty_ts_def)

lemma new_trade_simps [simp]:
  "ts_order (new_trade ord now units other) = ord" "counterparty (new_trade ord now units other) = other"
  "ts_units (new_trade ord now units other) = Some units" "ts_state (new_trade ord now units other) = Some INITIATED"
  by (simp_all add: new_trade_def)

section \<open>Updating and archiving\<close>

text \<open>One trade's update, as an abstract step.\<close>

definition updated :: "'w TradeManager \<Rightarrow> TradeState \<Rightarrow> TradeState \<Rightarrow> bool" where
  "updated TM t t' \<longleftrightarrow> (\<exists>w w'. Update TM (t, w) = (Ret (), (t', w')))"

lemma update_trade_Ret:
  assumes "update_trade TM account i (still, fin) (s, w) = (Ret (still', fin'), (s', w'))" "i < length (st_trades s)"
  shows "\<exists>t'. updated TM (st_trades s ! i) t' \<and>
    still' = still @ filter (\<lambda>t. \<not> IsFinalised t) [t'] \<and> fin' = fin @ filter IsFinalised [t'] \<and>
    s' = s\<lparr>st_trades := (st_trades s)[i := empty_ts],
      st_trade_archive := st_trade_archive s @ map (GetPublicInfo account) (filter IsFinalised [t'])\<rparr>"
proof -
  from assms(1) obtain s1 w1 where u: "onTrade i (Update TM) (s, w) = (Ret (), (s1, w1))"
    and rest: "(if IsFinalised (st_trades s1 ! i)
       then still' = still \<and> fin' = fin @ [st_trades s1 ! i] \<and> (s', w') =
         (s1\<lparr>st_trade_archive := st_trade_archive s1 @ [GetPublicInfo account (st_trades s1 ! i)],
            st_trades := (st_trades s1)[i := empty_ts]\<rparr>, w1)
       else still' = still @ [st_trades s1 ! i] \<and> fin' = fin \<and> (s', w') = (s1\<lparr>st_trades := (st_trades s1)[i := empty_ts]\<rparr>, w1))"
    by (auto simp: update_trade_def prog_inv split: if_splits)
  from u obtain t' where t': "Update TM (st_trades s ! i, w) = (Ret (), (t', w1))"
      "s1 = s\<lparr>st_trades := (st_trades s)[i := t']\<rparr>"
    by (auto simp: onTrade_eq)
  then have "updated TM (st_trades s ! i) t'" "st_trades s1 ! i = t'" using assms(2) by (auto simp: updated_def)
  with rest t'(2) show ?thesis by (intro exI [of _ t']) (auto split: if_splits)
qed

text \<open>The loop updates every trade once, in order, and sorts it into active and finalised.\<close>

lemma update_loop_Ret:
  assumes "fold_prog (update_trade TM account) [i..<length (st_trades s)] (still, fin) (s, w)
      = (Ret (still', fin'), (s', w'))" "i \<le> length (st_trades s)"
  shows "\<exists>ts' rest. list_all2 (updated TM) (drop i (st_trades s)) ts' \<and>
    still' = still @ filter (\<lambda>t. \<not> IsFinalised t) ts' \<and> fin' = fin @ filter IsFinalised ts' \<and>
    s' = s\<lparr>st_trades := rest,
      st_trade_archive := st_trade_archive s @ map (GetPublicInfo account) (filter IsFinalised ts')\<rparr>"
  using assms
proof (induction "length (st_trades s) - i" arbitrary: i still fin s w)
  case 0
  then have "[i..<length (st_trades s)] = []" "drop i (st_trades s) = []" by auto
  with 0 show ?case by (intro exI [of _ "[]"] exI [of _ "st_trades s"]) auto
next
  case (Suc n)
  then have i: "i < length (st_trades s)" by simp
  with Suc.prems(1) obtain st1 fi1 s1 w1 where
      step: "update_trade TM account i (still, fin) (s, w) = (Ret (st1, fi1), (s1, w1))"
    and rest: "fold_prog (update_trade TM account) [Suc i..<length (st_trades s)] (st1, fi1) (s1, w1)
        = (Ret (still', fin'), (s', w'))"
    by (auto simp: upt_conv_Cons prog_inv)
  from update_trade_Ret [OF step i] obtain t' where t': "updated TM (st_trades s ! i) t'"
      "st1 = still @ filter (\<lambda>t. \<not> IsFinalised t) [t']" "fi1 = fin @ filter IsFinalised [t']"
      "s1 = s\<lparr>st_trades := (st_trades s)[i := empty_ts],
        st_trade_archive := st_trade_archive s @ map (GetPublicInfo account) (filter IsFinalised [t'])\<rparr>" by blast
  have len: "length (st_trades s1) = length (st_trades s)" "drop (Suc i) (st_trades s1) = drop (Suc i) (st_trades s)"
    using t'(4) by simp_all
  have "n = length (st_trades s1) - Suc i" using Suc.hyps(2) len(1) by simp
  from Suc.hyps(1) [OF this, of st1 fi1 w1] rest i len obtain ts' r where ih:
      "list_all2 (updated TM) (drop (Suc i) (st_trades s)) ts'"
      "still' = st1 @ filter (\<lambda>t. \<not> IsFinalised t) ts'" "fin' = fi1 @ filter IsFinalised ts'"
      "s' = s1\<lparr>st_trades := r, st_trade_archive := st_trade_archive s1 @ map (GetPublicInfo account) (filter IsFinalised ts')\<rparr>"
    by auto
  then show ?case using t' i
    by (intro exI [of _ "t' # ts'"] exI [of _ r]) (auto simp: Cons_nth_drop_Suc [symmetric])
qed

section \<open>What the other methods leave alone\<close>

text \<open>The end of a trade works on the own orders and the wallet only.\<close>

lemma Add_frame: "keeps (\<lambda>sw. P (frame (fst sw))) (Add V ord)"
  unfolding Add_def Let_def by (auto intro!: frame_keeps RunRefresh_frame)

lemma RemoveById_frame: "keeps (\<lambda>sw. P (frame (fst sw))) (RemoveById V oid)"
  unfolding RemoveById_def by (auto intro!: frame_keeps RunRefresh_frame)

lemma TryLock_frame: "keeps (\<lambda>sw. P (frame (fst sw))) (TryLock V oid)"
  unfolding TryLock_def Let_def by (auto intro!: frame_keeps RunRefresh_frame)

lemma Unlock_frame: "keeps (\<lambda>sw. P (frame (fst sw))) (Unlock V oid)"
  unfolding Unlock_def by (auto intro!: frame_keeps RunRefresh_frame)

lemma finish_trade_frame: "keeps (\<lambda>sw. P (frame (fst sw))) (finish_trade TM account t)"
  unfolding finish_trade_def HandleFailure_def HandleSuccess_def Let_def
  by (auto intro!: frame_keeps Add_frame RemoveById_frame Unlock_frame split: trade_status.split)

lemma frame_after: "keeps (\<lambda>sw. frame (fst sw) = frame s) m \<Longrightarrow> m (s, w) = (r, (s', w')) \<Longrightarrow> frame s' = frame s"
  by (drule keepsD) auto

lemma finish_all_frame: "for_each (finish_trade TM account) ts (s, w) = (r, (s', w')) \<Longrightarrow> frame s' = frame s"
  by (rule frame_after [OF keeps_for_each [OF finish_trade_frame]])

lemma UpdateAndArchiveTrades_Ret:
  assumes "UpdateAndArchiveTrades TM (s, w) = (Ret (), (s', w'))"
  obtains ts' s1 w1 where "list_all2 (updated TM) (st_trades s) ts'"
    "s1 = s\<lparr>st_trades := filter (\<lambda>t. \<not> IsFinalised t) ts',
      st_trade_archive := st_trade_archive s @ map (GetPublicInfo (state_account s)) (filter IsFinalised ts')\<rparr>"
    "for_each (finish_trade TM (state_account s)) (filter IsFinalised ts') (s1, w1) = (Ret (), (s', w'))"
    "frame s' = frame s1"
proof -
  from assms obtain still fin s0 w1 where
      loop: "fold_prog (update_trade TM (state_account s)) [0..<length (st_trades s)] ([], []) (s, w) = (Ret (still, fin), (s0, w1))"
    and fin: "for_each (finish_trade TM (state_account s)) fin (s0\<lparr>st_trades := still\<rparr>, w1) = (Ret (), (s', w'))"
    by (auto simp: UpdateAndArchiveTrades_def prog_inv Let_def)
  from update_loop_Ret [OF loop] obtain ts' rest where
      "list_all2 (updated TM) (st_trades s) ts'" "still = filter (\<lambda>t. \<not> IsFinalised t) ts'" "fin = filter IsFinalised ts'"
      "s0 = s\<lparr>st_trades := rest, st_trade_archive := st_trade_archive s @ map (GetPublicInfo (state_account s)) (filter IsFinalised ts')\<rparr>"
    by auto
  with fin finish_all_frame [OF fin] that [of ts' "s0\<lparr>st_trades := still\<rparr>" w1] show thesis by simp
qed

section \<open>The end of a trade as steps on the own orders\<close>

lemma own_step_frame: "own_step V e s s' \<Longrightarrow> frame s' = frame s"
  by (erule own_step.cases)
     (auto dest: frame_after [OF Add_frame] frame_after [OF RemoveById_frame] frame_after [OF TryLock_frame]
        frame_after [OF Unlock_frame] frame_after [OF RunRefresh_frame])

lemma own_runs_frame: "runs (own_step V) s es s' \<Longrightarrow> frame s' = frame s"
  by (induction rule: runs.induct) (auto dest: own_step_frame)

text \<open>The counter of order IDs does not wrap around within \<open>k\<close> more orders.\<close>

definition ids_left :: "nat \<Rightarrow> State \<Rightarrow> bool" where
  "ids_left k s \<longleftrightarrow> unat (next_id s) + k < 2 ^ 64"

lemma ids_left_step: "ids_left (Suc k) s \<Longrightarrow> next_id s \<noteq> - 1 \<and> unat (next_id s + 1) = Suc (unat (next_id s))"
proof -
  assume "ids_left (Suc k) s"
  then have "unat (next_id s) + 1 < 2 ^ 64" by (simp add: ids_left_def)
  then have "unat (next_id s + 1) = Suc (unat (next_id s))" by (simp add: unat_word_ariths)
  moreover then have "next_id s \<noteq> - 1" by (auto simp: max_word_wrap)
  ultimately show ?thesis by simp
qed

lemma refreshed_next: "refreshed os s s' \<Longrightarrow> next_id s' = next_id s"
  by (auto simp: refreshed_def)

lemma HandleSuccess_own:
  assumes "HandleSuccess TM account t (s, w) = (Ret (), (s', w'))" "ids_left (Suc k) s"
  shows "\<exists>es. runs (own_step (tm_myOrders TM)) s es s' \<and> (\<forall>oid. EvUnlock oid \<notin> set es) \<and> ids_left k s'"
proof (cases "GetRole account t = MAKER")
  case False
  with assms show ?thesis by (intro exI [of _ "[]"]) (auto simp: HandleSuccess_def ids_left_def)
next
  case True
  let ?V = "tm_myOrders TM"
  from True assms(1) obtain s1 w1 where rm: "RemoveById ?V (ord_id t) (s, w) = (Ret (), (s1, w1))"
    and or: "(s', w') = (s1, w1) \<or> (\<exists>ord b. Add ?V ord (s1, w1) = (Ret b, (s', w')))"
    by (auto simp: HandleSuccess_def prog_inv Let_def split: if_splits)
  have n1: "next_id s1 = next_id s" using RemoveById_Ret [OF rm] by (rule refreshed_next)
  then have left: "ids_left (Suc k) s1" using assms(2) by (simp add: ids_left_def)
  have step1: "own_step ?V (EvRemove (ord_id t)) s s1" using rm by (rule own_step.remove)
  from or show ?thesis
  proof (elim disjE exE)
    assume "(s', w') = (s1, w1)"
    with step1 left show ?thesis
      by (intro exI [of _ "[EvRemove (ord_id t)]"]) (auto simp: runs_cons_iff ids_left_def)
  next
    fix ord b
    assume add: "Add ?V ord (s1, w1) = (Ret b, (s', w'))"
    show ?thesis
    proof (cases b)
      case True
      with add have "own_step ?V (EvAdd ord) s1 s'" using ids_left_step [OF left] by (auto intro: own_step.add)
      moreover have "unat (next_id s') = Suc (unat (next_id s1))"
        using add True ids_left_step [OF left] refreshed_next [OF Add_True [of ?V ord s1 w1 s' w']] by simp
      ultimately show ?thesis using step1 left
        by (intro exI [of _ "[EvRemove (ord_id t), EvAdd ord]"]) (auto simp: runs_cons_iff ids_left_def)
    next
      case False
      with add have "own_step ?V (EvReject ord) s1 s'" by (auto intro: own_step.reject)
      moreover have "s' = s1" using add False by (auto dest: Add_False)
      ultimately show ?thesis using step1 left
        by (intro exI [of _ "[EvRemove (ord_id t), EvReject ord]"]) (auto simp: runs_cons_iff ids_left_def)
    qed
  qed
qed

lemma HandleFailure_own:
  assumes "HandleFailure TM account t (s, w) = (Ret (), (s', w'))"
  shows "\<exists>es. runs (own_step (tm_myOrders TM)) s es s' \<and>
    (\<forall>oid. EvUnlock oid \<in> set es \<longrightarrow> GetRole account t = MAKER \<and> oid = ord_id t) \<and> next_id s' = next_id s"
proof -
  from assms obtain s1 w1 where u: "(if GetRole account t = MAKER then Unlock (tm_myOrders TM) (ord_id t) else ret ()) (s, w)
      = (Ret (), (s1, w1))" and s': "s' = s1"
    by (auto simp: HandleFailure_def prog_inv split: option.splits if_splits)
  show ?thesis
  proof (cases "GetRole account t = MAKER")
    case True
    with u have "Unlock (tm_myOrders TM) (ord_id t) (s, w) = (Ret (), (s1, w1))" by simp
    moreover from this have "next_id s1 = next_id s" by (auto elim!: Unlock_Ret dest: refreshed_next)
    ultimately show ?thesis using True s'
      by (intro exI [of _ "[EvUnlock (ord_id t)]"]) (auto simp: runs_cons_iff intro: own_step.unlock)
  next
    case False
    with u s' show ?thesis by (intro exI [of _ "[]"]) auto
  qed
qed

lemma finish_trade_own:
  assumes "finish_trade TM account t (s, w) = (Ret (), (s', w'))" "ids_left (Suc k) s"
  shows "\<exists>es. runs (own_step (tm_myOrders TM)) s es s' \<and>
    (\<forall>oid. EvUnlock oid \<in> set es \<longrightarrow> GetRole account t = MAKER \<and> oid = ord_id t) \<and> ids_left k s'"
proof -
  from assms(1) consider "HandleFailure TM account t (s, w) = (Ret (), (s', w'))"
    | "HandleSuccess TM account t (s, w) = (Ret (), (s', w'))"
    by (auto simp: finish_trade_def split: trade_status.splits)
  then show ?thesis
  proof cases
    case 1
    from HandleFailure_own [OF this] assms(2) show ?thesis by (auto simp: ids_left_def)
  next
    case 2
    from HandleSuccess_own [OF this assms(2)] show ?thesis by blast
  qed
qed

text \<open>The IDs of the own orders that the given trades are about.\<close>

definition maker_ids :: "string \<Rightarrow> TradeState list \<Rightarrow> uint64 list" where
  "maker_ids account ts = map ord_id (filter (\<lambda>t. GetRole account t = MAKER) ts)"

lemma finish_all_own:
  assumes "for_each (finish_trade TM account) ts (s, w) = (Ret (), (s', w'))" "ids_left (length ts) s"
  shows "\<exists>es. runs (own_step (tm_myOrders TM)) s es s' \<and>
    (\<forall>oid. EvUnlock oid \<in> set es \<longrightarrow> oid \<in> set (maker_ids account ts))"
  using assms
proof (induction ts arbitrary: s w)
  case Nil
  then show ?case by (intro exI [of _ "[]"]) auto
next
  case (Cons t ts)
  from Cons.prems(1) obtain s1 w1 where t: "finish_trade TM account t (s, w) = (Ret (), (s1, w1))"
    and ts: "for_each (finish_trade TM account) ts (s1, w1) = (Ret (), (s', w'))"
    by (auto simp: prog_inv)
  from finish_trade_own [OF t] Cons.prems(2) obtain es where es: "runs (own_step (tm_myOrders TM)) s es s1"
      "\<forall>oid. EvUnlock oid \<in> set es \<longrightarrow> GetRole account t = MAKER \<and> oid = ord_id t" "ids_left (length ts) s1" by auto
  from Cons.IH [OF ts es(3)] obtain fs where fs: "runs (own_step (tm_myOrders TM)) s1 fs s'"
      "\<forall>oid. EvUnlock oid \<in> set fs \<longrightarrow> oid \<in> set (maker_ids account ts)" by blast
  have "runs (own_step (tm_myOrders TM)) s (es @ fs) s'" using es(1) fs(1) by (auto simp: runs_append_iff)
  with es(2) fs(2) show ?case by (intro exI [of _ "es @ fs"]) (auto simp: maker_ids_def)
qed

end
