(* ===== verification/OrderBook.thy ===== *)
theory OrderBook
  imports Protos "HOL-Library.Product_Lexorder" "HOL-Library.Multiset"
begin

text \<open>
  The order book with the orders of all other accounts: \<^verbatim>\<open>src/src/orderbook.cpp\<close> and
  \<^verbatim>\<open>private/orderbook.hpp\<close>. The state is the map of accounts and the queue of update events
  that drives the timeouts. The steady clock's reading is an argument of the operations that
  look at it.

  The later sections show that the queue implements the plain rule "forget an account that
  has not been updated for the timeout" (a simulation of a specification without any queue),
  and that a query returns all matching orders, best price first.
\<close>

section \<open>The class\<close>

record AccountOrders =
  ao_orders :: OrdersOfAccount
  ao_lastUpdate :: int

record UpdateEvent =
  ue_account :: string
  ue_time :: int

record OrderBook =
  ob_timeout :: int
  ob_orders :: "(string \<times> AccountOrders) list"
  ob_updates :: "UpdateEvent list"

definition new_book :: "int \<Rightarrow> OrderBook" where
  "new_book timeout = \<lparr>ob_timeout = timeout, ob_orders = [], ob_updates = []\<rparr>"

subsection \<open>Timeouts and updates\<close>

text \<open>The loop over the front of the queue.\<close>

fun timeout_loop ::
    "int \<Rightarrow> UpdateEvent list \<Rightarrow> (string \<times> AccountOrders) list
      \<Rightarrow> UpdateEvent list \<times> (string \<times> AccountOrders) list" where
  "timeout_loop timeoutBefore [] orders = ([], orders)"
| "timeout_loop timeoutBefore (u # updates) orders =
     (if ue_time u < timeoutBefore then
        (case map_of orders (ue_account u) of
           None \<Rightarrow> timeout_loop timeoutBefore updates orders
         | Some ao \<Rightarrow>
             if ao_lastUpdate ao < timeoutBefore
             then timeout_loop timeoutBefore updates (AList.delete (ue_account u) orders)
             else timeout_loop timeoutBefore updates orders)
      else (u # updates, orders))"

definition RunTimeout :: "int \<Rightarrow> OrderBook \<Rightarrow> OrderBook" where
  "RunTimeout now b =
     (case timeout_loop (now - ob_timeout b) (ob_updates b) (ob_orders b) of
        (updates, orders) \<Rightarrow> b\<lparr>ob_updates := updates, ob_orders := orders\<rparr>)"

definition complete_order :: "Order \<Rightarrow> bool" where
  "complete_order ord \<longleftrightarrow> has (order_asset ord) \<and> has (order_type ord) \<and> has (order_price_sat ord)"

definition UpdateOrders :: "int \<Rightarrow> OrdersOfAccount \<Rightarrow> (OrderBook, unit) prog" where
  "UpdateOrders now upd =
     (case ooa_account upd of
        None \<Rightarrow> fatal
      | Some account \<Rightarrow>
          checked (list_all (\<lambda>entry. complete_order (snd entry)) (ooa_orders upd)) (
          let upd' = upd\<lparr>ooa_account := None\<rparr> in
          if ooa_orders upd' = [] then
            modifies (\<lambda>b. b\<lparr>ob_orders := AList.delete account (ob_orders b)\<rparr>)
          else
            modifies (\<lambda>b. b\<lparr>ob_updates := ob_updates b @ [\<lparr>ue_account = account, ue_time = now\<rparr>],
              ob_orders := AList.update account \<lparr>ao_orders = upd', ao_lastUpdate = now\<rparr> (ob_orders b)\<rparr>)))"

subsection \<open>Queries\<close>

definition AddOrderForAsset :: "OrderbookByAsset \<Rightarrow> Order \<Rightarrow> ('s, OrderbookByAsset) prog" where
  "AddOrderForAsset orders ord =
     (case order_asset ord of
        None \<Rightarrow> fatal
      | Some asset \<Rightarrow>
          let forAsset = (case map_of orders asset of
                  Some f \<Rightarrow> f | None \<Rightarrow> empty_ofa\<lparr>ofa_asset := Some asset\<rparr>);
              ty = dflt ASK (order_type ord);
              stripped = ord\<lparr>order_asset := None, order_type := None\<rparr>
          in (case ty of
                ASK \<Rightarrow> ret (AList.update asset (forAsset\<lparr>ofa_asks := ofa_asks forAsset @ [stripped]\<rparr>) orders)
              | BID \<Rightarrow> ret (AList.update asset (forAsset\<lparr>ofa_bids := ofa_bids forAsset @ [stripped]\<rparr>) orders)))"

definition byPriceAsc :: "Order \<Rightarrow> Order \<Rightarrow> bool" where
  "byPriceAsc a b =
     (if dflt 0 (order_price_sat a) \<noteq> dflt 0 (order_price_sat b)
      then dflt 0 (order_price_sat a) < dflt 0 (order_price_sat b)
      else if dflt [] (order_account a) \<noteq> dflt [] (order_account b)
      then dflt [] (order_account a) < dflt [] (order_account b)
      else dflt 0 (order_id a) < dflt 0 (order_id b))"

text \<open>
  \<^verbatim>\<open>std::sort\<close> with a comparison, here by insertion (elements that compare equal have no
  specified order, but no two orders of a book compare equal). Sorting the reversed
  range leaves the range in the opposite order.
\<close>

fun insert_by :: "('a \<Rightarrow> 'a \<Rightarrow> bool) \<Rightarrow> 'a \<Rightarrow> 'a list \<Rightarrow> 'a list" where
  "insert_by lt x [] = [x]"
| "insert_by lt x (y # ys) = (if lt y x then y # insert_by lt x ys else x # y # ys)"

definition std_sort :: "('a \<Rightarrow> 'a \<Rightarrow> bool) \<Rightarrow> 'a list \<Rightarrow> 'a list" where
  "std_sort lt xs = foldr (insert_by lt) xs []"

text \<open>The \<^verbatim>\<open>CHECK\<close>s of the comparison are reached when there are two orders to compare.\<close>

definition comparable_orders :: "Order list \<Rightarrow> bool" where
  "comparable_orders os \<longleftrightarrow> length os < 2 \<or>
     list_all (\<lambda>ord. has (order_price_sat ord) \<and> has (order_account ord) \<and> has (order_id ord)) os"

definition SortByPrices :: "OrderbookByAsset \<Rightarrow> ('s, OrderbookByAsset) prog" where
  "SortByPrices orders =
     checked (list_all (\<lambda>(asset, f). comparable_orders (ofa_asks f) \<and> comparable_orders (ofa_bids f)) orders) (
     ret (map (\<lambda>(asset, f). (asset, f\<lparr>ofa_asks := std_sort byPriceAsc (ofa_asks f),
            ofa_bids := rev (std_sort byPriceAsc (rev (ofa_bids f)))\<rparr>)) orders))"

definition add_entry ::
    "Asset option \<Rightarrow> string \<Rightarrow> uint64 \<times> Order \<Rightarrow> OrderbookByAsset \<Rightarrow> ('s, OrderbookByAsset) prog" where
  "add_entry asset acc entry res =
     (case entry of (oid, ord) \<Rightarrow>
      checked (has (order_asset ord)) (
      if asset \<noteq> None \<and> order_asset ord \<noteq> asset then ret res else
      AddOrderForAsset res (ord\<lparr>order_account := Some acc, order_id := Some oid\<rparr>)))"

definition InternalGetByAsset :: "Asset option \<Rightarrow> OrderBook \<Rightarrow> ('s, OrderbookByAsset) prog" where
  "InternalGetByAsset asset b =
     bnd (fold_prog (\<lambda>(acc, ao). fold_prog (add_entry asset acc) (ooa_orders (ao_orders ao)))
            (ob_orders b) []) SortByPrices"

definition GetForAsset :: "Asset \<Rightarrow> OrderBook \<Rightarrow> ('s, OrderbookForAsset) prog" where
  "GetForAsset asset b =
     bnd (InternalGetByAsset (Some asset) b) (\<lambda>allAssets.
     if allAssets = [] then ret (empty_ofa\<lparr>ofa_asset := Some asset\<rparr>) else
     checked (length allAssets = 1) (
     case map_of allAssets asset of
       None \<Rightarrow> fatal
     | Some f \<Rightarrow> checked (dflt [] (ofa_asset f) = asset) (ret f)))"

definition GetByAsset :: "OrderBook \<Rightarrow> ('s, OrderbookByAsset) prog" where
  "GetByAsset b = InternalGetByAsset None b"

section \<open>Timeouts as a rule on accounts\<close>

text \<open>
  The invariant of the queue: its events are in the order of their times, none is later than
  the clock, and the last update of every known account is still in it.
\<close>

definition book_inv :: "int \<Rightarrow> OrderBook \<Rightarrow> bool" where
  "book_inv now b \<longleftrightarrow>
     distinct (map fst (ob_orders b)) \<and>
     sorted (map ue_time (ob_updates b)) \<and>
     list_all (\<lambda>u. ue_time u \<le> now) (ob_updates b) \<and>
     list_all (\<lambda>(acc, ao). \<lparr>ue_account = acc, ue_time = ao_lastUpdate ao\<rparr> \<in> set (ob_updates b))
       (ob_orders b) \<and>
     list_all (\<lambda>(acc, ao). distinct (map fst (ooa_orders (ao_orders ao))) \<and>
       list_all (\<lambda>entry. complete_order (snd entry)) (ooa_orders (ao_orders ao))) (ob_orders b)"

definition stale :: "int \<Rightarrow> string \<times> AccountOrders \<Rightarrow> bool" where
  "stale timeoutBefore entry \<longleftrightarrow> ao_lastUpdate (snd entry) < timeoutBefore"

definition covered :: "UpdateEvent list \<Rightarrow> (string \<times> AccountOrders) list \<Rightarrow> bool" where
  "covered us os \<longleftrightarrow>
     (\<forall>(acc, ao) \<in> set os. \<lparr>ue_account = acc, ue_time = ao_lastUpdate ao\<rparr> \<in> set us)"

lemma delete_stale:
  assumes "distinct (map fst os)" "map_of os acc = Some ao" "ao_lastUpdate ao < tb"
  shows "filter (\<lambda>e. \<not> stale tb e) (AList.delete acc os) = filter (\<lambda>e. \<not> stale tb e) os"
  using assms
  by (induction os) (auto simp: stale_def AList.delete_eq filter_id_conv rev_image_eqI
      intro!: filter_cong split: if_splits)

lemma covered_tail:
  assumes "covered (u # us) os" "\<forall>ao. (ue_account u, ao) \<in> set os \<longrightarrow> ao_lastUpdate ao \<noteq> ue_time u"
  shows "covered us os"
  using assms by (fastforce simp: covered_def)

text \<open>
  The loop keeps the queue's suffix from the first fresh event on and removes exactly the
  stale accounts. An account with a newer update survives its old events.
\<close>

lemma timeout_loop_spec:
  assumes "distinct (map fst os)" "sorted (map ue_time us)" "covered us os"
  shows "timeout_loop tb us os =
    (dropWhile (\<lambda>u. ue_time u < tb) us, filter (\<lambda>e. \<not> stale tb e) os)"
  using assms
proof (induction tb us os rule: timeout_loop.induct)
  case (1 tb os)
  then show ?case by (cases os) (auto simp: covered_def)
next
  case (2 tb u us os)
  show ?case
  proof (cases "ue_time u < tb")
    case False
    have "\<not> stale tb (acc, ao)" if "(acc, ao) \<in> set os" for acc ao
    proof -
      from that "2.prems"(3) have "\<lparr>ue_account = acc, ue_time = ao_lastUpdate ao\<rparr> \<in> set (u # us)"
        unfolding covered_def by blast
      with "2.prems"(2) have "ue_time u \<le> ao_lastUpdate ao" by auto
      with False show ?thesis by (simp add: stale_def)
    qed
    with False show ?thesis by (auto intro!: filter_True [symmetric])
  next
    case True
    show ?thesis
    proof (cases "map_of os (ue_account u)")
      case None
      then have "covered us os"
        by (intro covered_tail [OF "2.prems"(3)]) (force simp: map_of_eq_None_iff)
      with True None "2.IH"(1) "2.prems" show ?thesis by simp
    next
      case (Some ao)
      have uniq: "ao' = ao" if "(ue_account u, ao') \<in> set os" for ao'
        using map_of_is_SomeI [OF "2.prems"(1) that] Some by simp
      show ?thesis
      proof (cases "ao_lastUpdate ao < tb")
        case True
        have "covered us (AList.delete (ue_account u) os)"
          using "2.prems"(3) by (fastforce simp: covered_def AList.delete_eq)
        with True Some \<open>ue_time u < tb\<close> "2.IH"(2) [OF _ Some] "2.prems" show ?thesis
          by (simp add: delete_stale distinct_delete)
      next
        case False
        with \<open>ue_time u < tb\<close> uniq have "covered us os"
          by (intro covered_tail [OF "2.prems"(3)]) auto
        with False Some \<open>ue_time u < tb\<close> "2.IH"(3) [OF _ Some] "2.prems" show ?thesis by simp
      qed
    qed
  qed
qed

lemma book_inv_covered: "book_inv now b \<Longrightarrow> covered (ob_updates b) (ob_orders b)"
  by (auto simp: book_inv_def covered_def list_all_iff)

lemma RunTimeout_eq:
  assumes "book_inv t b"
  shows "RunTimeout now b = b\<lparr>ob_updates := dropWhile (\<lambda>u. ue_time u < now - ob_timeout b) (ob_updates b),
    ob_orders := filter (\<lambda>e. \<not> stale (now - ob_timeout b) e) (ob_orders b)\<rparr>"
  using assms book_inv_covered [OF assms]
  by (simp add: RunTimeout_def timeout_loop_spec book_inv_def)

subsection \<open>The specification without a queue\<close>

datatype book_event = Updated OrdersOfAccount int | TimedOut int

text \<open>The specified state: what is known of each account and since when, and the clock.\<close>

type_synonym book_spec = "(string \<rightharpoonup> AccountOrders) \<times> int"

inductive spec_step :: "int \<Rightarrow> book_event \<Rightarrow> book_spec \<Rightarrow> book_spec \<Rightarrow> bool" for timeout :: int where
  spec_update: "now \<le> now' \<Longrightarrow> ooa_account upd = Some acc \<Longrightarrow>
     spec_step timeout (Updated upd now') (m, now)
       (m(acc := if ooa_orders upd = [] then None
            else Some \<lparr>ao_orders = upd\<lparr>ooa_account := None\<rparr>, ao_lastUpdate = now'\<rparr>), now')"
| spec_timeout: "now \<le> now' \<Longrightarrow>
     spec_step timeout (TimedOut now') (m, now)
       (\<lambda>acc. case m acc of None \<Rightarrow> None
          | Some ao \<Rightarrow> if now' - ao_lastUpdate ao \<le> timeout then Some ao else None, now')"

text \<open>
  The operations of the book, under a clock that does not run backwards. The keys of the
  \<^verbatim>\<open>map\<close> field of a message are distinct.
\<close>

inductive book_step :: "book_event \<Rightarrow> OrderBook \<times> int \<Rightarrow> OrderBook \<times> int \<Rightarrow> bool" where
  book_update: "now \<le> now' \<Longrightarrow> distinct (map fst (ooa_orders upd)) \<Longrightarrow>
     UpdateOrders now' upd b = (Ret (), b') \<Longrightarrow> book_step (Updated upd now') (b, now) (b', now')"
| book_timeout: "now \<le> now' \<Longrightarrow> book_step (TimedOut now') (b, now) (RunTimeout now' b, now')"

definition book_abs :: "OrderBook \<times> int \<Rightarrow> book_spec" where
  "book_abs = (\<lambda>(b, now). (map_of (ob_orders b), now))"

definition timed_inv :: "int \<Rightarrow> OrderBook \<times> int \<Rightarrow> bool" where
  "timed_inv timeout = (\<lambda>(b, now). ob_timeout b = timeout \<and> book_inv now b)"

lemma UpdateOrders_Ret:
  assumes "UpdateOrders now upd b = (Ret u, b')"
  obtains acc where "ooa_account upd = Some acc"
    "list_all (\<lambda>entry. complete_order (snd entry)) (ooa_orders upd)"
    "b' = (if ooa_orders upd = [] then b\<lparr>ob_orders := AList.delete acc (ob_orders b)\<rparr>
       else b\<lparr>ob_updates := ob_updates b @ [\<lparr>ue_account = acc, ue_time = now\<rparr>],
         ob_orders := AList.update acc \<lparr>ao_orders = upd\<lparr>ooa_account := None\<rparr>, ao_lastUpdate = now\<rparr> (ob_orders b)\<rparr>)"
  using assms by (auto simp: UpdateOrders_def prog_inv Let_def split: option.splits if_splits)

lemma book_inv_delete:
  "book_inv now b \<Longrightarrow> now \<le> now' \<Longrightarrow> book_inv now' (b\<lparr>ob_orders := AList.delete acc (ob_orders b)\<rparr>)"
  by (auto simp: book_inv_def list_all_iff AList.delete_eq distinct_filter_fst)

lemma book_inv_update:
  assumes "book_inv now b" "now \<le> now'" "distinct (map fst (ooa_orders upd))"
    "list_all (\<lambda>entry. complete_order (snd entry)) (ooa_orders upd)"
  shows "book_inv now' (b\<lparr>ob_updates := ob_updates b @ [\<lparr>ue_account = acc, ue_time = now'\<rparr>],
    ob_orders := AList.update acc \<lparr>ao_orders = upd\<lparr>ooa_account := None\<rparr>, ao_lastUpdate = now'\<rparr> (ob_orders b)\<rparr>)"
  using assms set_update_alist [of acc _ "ob_orders b"]
  by (fastforce simp: book_inv_def list_all_iff distinct_update sorted_append)

lemma in_dropWhile: "x \<in> set xs \<Longrightarrow> \<not> P x \<Longrightarrow> x \<in> set (dropWhile P xs)"
  by (metis Un_iff set_append set_takeWhileD takeWhile_dropWhile_id)

lemma sorted_dropWhile_time: "sorted (map f xs) \<Longrightarrow> sorted (map f (dropWhile P xs))"
  by (induction xs) auto

lemma book_inv_later: "book_inv now b \<Longrightarrow> now \<le> now' \<Longrightarrow> book_inv now' b"
  by (auto simp: book_inv_def list_all_iff)

lemma book_inv_timeout:
  assumes "book_inv now b" "now \<le> now'"
  shows "book_inv now' (RunTimeout now' b)"
  using book_inv_later [OF assms] unfolding RunTimeout_eq [OF assms(1)]
  by (auto simp: book_inv_def list_all_iff distinct_filter_fst sorted_dropWhile_time stale_def
      intro!: in_dropWhile dest: set_dropWhileD)

lemma book_step_inv:
  assumes "timed_inv timeout s" "book_step e s s'"
  shows "timed_inv timeout s'"
  using assms(2,1)
proof (induction rule: book_step.induct)
  case (book_update now now' upd b b')
  from book_update.hyps(3) show ?case
  proof (cases rule: UpdateOrders_Ret)
    case (1 acc)
    with book_update.hyps(1,2) book_update.prems show ?thesis
      by (auto simp: timed_inv_def intro: book_inv_delete book_inv_update)
  qed
next
  case (book_timeout now now' b)
  moreover have "ob_timeout (RunTimeout now' b) = ob_timeout b"
    by (simp add: RunTimeout_def split: prod.split)
  ultimately show ?case by (auto simp: timed_inv_def intro: book_inv_timeout)
qed

lemma book_step_sim:
  assumes "timed_inv timeout s" "book_step e s s'"
  shows "spec_step timeout e (book_abs s) (book_abs s')"
  using assms(2,1)
proof (induction rule: book_step.induct)
  case (book_update now now' upd b b')
  from book_update.hyps(3) show ?case
  proof (cases rule: UpdateOrders_Ret)
    case (1 acc)
    with spec_update [OF book_update.hyps(1) 1(1), of timeout "map_of (ob_orders b)"]
    show ?thesis by (simp add: book_abs_def alist_simps split: if_splits)
  qed
next
  case (book_timeout now now' b)
  then have inv: "book_inv now b" and t: "ob_timeout b = timeout" by (auto simp: timed_inv_def)
  have eq: "(\<lambda>e. \<not> stale (now' - timeout) e) = (\<lambda>(acc, ao). now' - ao_lastUpdate ao \<le> timeout)"
    by (auto simp: stale_def fun_eq_iff)
  have "map_of (ob_orders (RunTimeout now' b)) = (\<lambda>acc. case map_of (ob_orders b) acc of None \<Rightarrow> None
      | Some ao \<Rightarrow> if now' - ao_lastUpdate ao \<le> timeout then Some ao else None)"
    using inv by (intro ext) (simp add: RunTimeout_eq [OF inv] t eq map_of_filter_snd book_inv_def)
  then show ?case using spec_timeout [OF book_timeout.hyps, of timeout "map_of (ob_orders b)"]
    by (simp add: book_abs_def)
qed

interpretation book: simulation book_step "spec_step timeout" "timed_inv timeout" book_abs
  for timeout :: int
  by unfold_locales (auto intro: book_step_inv book_step_sim)

section \<open>What a query returns\<close>

text \<open>All orders of the book with their account and ID filled in.\<close>

definition listed :: "OrderBook \<Rightarrow> Order list" where
  "listed b = concat (map (\<lambda>(acc, ao).
     map (\<lambda>(oid, ord). ord\<lparr>order_account := Some acc, order_id := Some oid\<rparr>) (ooa_orders (ao_orders ao)))
     (ob_orders b))"

text \<open>One side of an asset's book: the fields implied by the context are cleared.\<close>

definition strip :: "Order \<Rightarrow> Order" where
  "strip ord = ord\<lparr>order_asset := None, order_type := None\<rparr>"

definition book_side :: "order_type \<Rightarrow> Asset \<Rightarrow> Order list \<Rightarrow> Order list" where
  "book_side ty asset os = map strip (filter (\<lambda>ord. order_asset ord = Some asset \<and> order_type ord = Some ty) os)"

definition order_key :: "Order \<Rightarrow> uint64 \<times> string \<times> uint64" where
  "order_key ord = (dflt 0 (order_price_sat ord), dflt [] (order_account ord), dflt 0 (order_id ord))"

lemma byPriceAsc_key: "byPriceAsc a b \<longleftrightarrow> order_key a < order_key b"
  by (auto simp: byPriceAsc_def order_key_def less_prod_def less_prod_def')

lemma insert_by_key: "(\<And>a b. lt a b \<longleftrightarrow> f a < f b) \<Longrightarrow> insert_by lt x ys = insort_key f x (ys :: 'a list)"
  for f :: "'a \<Rightarrow> 'b :: linorder"
  by (induction ys) (auto simp: not_less)

lemma std_sort_key: "std_sort byPriceAsc = sort_key order_key"
  by (rule ext) (simp add: std_sort_def sort_key_def insert_by_key [OF byPriceAsc_key, symmetric, abs_def])

subsection \<open>Collecting the orders\<close>

definition add_order :: "Order \<Rightarrow> OrderbookByAsset \<Rightarrow> OrderbookByAsset" where
  "add_order ord res =
     (let asset = dflt [] (order_asset ord);
          f = (case map_of res asset of Some f \<Rightarrow> f | None \<Rightarrow> empty_ofa\<lparr>ofa_asset := Some asset\<rparr>) in
      AList.update asset (f\<lparr>ofa_asks := ofa_asks f @ book_side ASK asset [ord],
        ofa_bids := ofa_bids f @ book_side BID asset [ord]\<rparr>) res)"

lemma AddOrderForAsset_eq:
  "has (order_asset ord) \<Longrightarrow> has (order_type ord) \<Longrightarrow> AddOrderForAsset res ord = ret (add_order ord res)"
  by (auto simp: AddOrderForAsset_def add_order_def has_iff book_side_def strip_def Let_def
      split: order_type.splits option.splits)

text \<open>The book of an asset after more orders were collected.\<close>

definition extend :: "Asset \<Rightarrow> OrderbookForAsset option \<Rightarrow> Order list \<Rightarrow> OrderbookForAsset option" where
  "extend asset f os =
     (if filter (\<lambda>ord. order_asset ord = Some asset) os = [] then f
      else let f' = (case f of Some f' \<Rightarrow> f' | None \<Rightarrow> empty_ofa\<lparr>ofa_asset := Some asset\<rparr>) in
        Some (f'\<lparr>ofa_asks := ofa_asks f' @ book_side ASK asset os, ofa_bids := ofa_bids f' @ book_side BID asset os\<rparr>))"

lemma extend_Cons: "extend asset f (ord # os) = extend asset (extend asset f [ord]) os"
  by (auto simp: extend_def Let_def book_side_def split: option.splits)
     (auto simp: filter_empty_conv)

lemma map_of_add_order:
  "has (order_asset ord) \<Longrightarrow> map_of (add_order ord res) asset = extend asset (map_of res asset) [ord]"
  by (auto simp: add_order_def extend_def has_iff update_conv' Let_def cong: option.case_cong)

lemma map_of_collect:
  "list_all (\<lambda>ord. has (order_asset ord)) os \<Longrightarrow>
     map_of (fold add_order os res) asset = extend asset (map_of res asset) os"
proof (induction os arbitrary: res)
  case Nil
  then show ?case by (simp add: extend_def)
next
  case (Cons ord os)
  then show ?case by (simp add: map_of_add_order extend_Cons [of asset _ ord os])
qed

lemma distinct_collect: "distinct (map fst res) \<Longrightarrow> distinct (map fst (fold add_order os res))"
  by (induction os arbitrary: res) (auto simp: add_order_def distinct_update Let_def)

lemma fold_prog_ret:
  "(\<And>x b. x \<in> set xs \<Longrightarrow> f x b = ret (g x b)) \<Longrightarrow> fold_prog f xs b = ret (fold g xs b)"
  by (induction xs arbitrary: b) auto

lemma fold_filter_if: "fold (\<lambda>x. if P x then g x else id) xs = fold g (filter P xs)"
  by (induction xs) auto

definition wanted :: "Asset option \<Rightarrow> Order \<Rightarrow> bool" where
  "wanted asset ord \<longleftrightarrow> asset = None \<or> order_asset ord = asset"

lemma collect_eq:
  assumes "book_inv now b"
  shows "fold_prog (\<lambda>(acc, ao). fold_prog (add_entry asset acc) (ooa_orders (ao_orders ao))) (ob_orders b) []
    = ret (fold add_order (filter (wanted asset) (listed b)) [])"
proof -
  let ?fill = "\<lambda>acc (oid, ord). ord\<lparr>order_account := Some acc, order_id := Some oid\<rparr>"
  let ?add = "\<lambda>ord. if wanted asset ord then add_order ord else id"
  have entry: "add_entry asset acc e res = ret (?add (?fill acc e) res)" if "complete_order (snd e)" for acc e res
    using that by (cases e) (auto simp: add_entry_def complete_order_def wanted_def AddOrderForAsset_eq)
  have inner: "fold_prog (add_entry asset acc) (ooa_orders (ao_orders ao)) res
      = ret (fold ?add (map (?fill acc) (ooa_orders (ao_orders ao))) res)"
    if "(acc, ao) \<in> set (ob_orders b)" for acc ao res
  proof -
    from that assms have "complete_order (snd e)" if "e \<in> set (ooa_orders (ao_orders ao))" for e
      using that by (fastforce simp: book_inv_def list_all_iff)
    then show ?thesis
      by (subst fold_prog_ret [where g = "\<lambda>e. ?add (?fill acc e)"]) (simp_all only: entry fold_map o_def)
  qed
  have "fold_prog (\<lambda>(acc, ao). fold_prog (add_entry asset acc) (ooa_orders (ao_orders ao))) (ob_orders b) []
      = ret (fold (\<lambda>(acc, ao). fold ?add (map (?fill acc) (ooa_orders (ao_orders ao)))) (ob_orders b) [])"
    by (rule fold_prog_ret) (auto simp: inner)
  also have "fold (\<lambda>(acc, ao). fold ?add (map (?fill acc) (ooa_orders (ao_orders ao)))) xs r
      = fold ?add (concat (map (\<lambda>(acc, ao). map (?fill acc) (ooa_orders (ao_orders ao))) xs)) r" for xs r
    by (induction xs arbitrary: r) auto
  finally show ?thesis by (simp only: fold_filter_if listed_def)
qed

lemma listed_complete:
  assumes "book_inv now b" "ord \<in> set (listed b)"
  shows "has (order_asset ord)" "has (order_type ord)" "has (order_price_sat ord)"
    "has (order_account ord)" "has (order_id ord)"
  using assms by (fastforce simp: listed_def book_inv_def list_all_iff complete_order_def)+

text \<open>The (account, ID) pairs of the listed orders are distinct: no two have the same key.\<close>

lemma distinct_listed_gen:
  assumes "distinct (map fst os)" "\<forall>(acc, ao) \<in> set os. distinct (map fst (ooa_orders (ao_orders ao)))"
  shows "distinct (map (\<lambda>ord. (order_account ord, order_id ord)) (concat (map (\<lambda>(acc, ao).
     map (\<lambda>(oid, ord). ord\<lparr>order_account := Some acc, order_id := Some oid\<rparr>) (ooa_orders (ao_orders ao))) os)))"
  using assms
proof (induction os)
  case (Cons entry os)
  obtain acc ao where e: "entry = (acc, ao)" by (cases entry)
  have inner: "map (\<lambda>ord. (order_account ord, order_id ord)) (map (\<lambda>(oid, ord). ord\<lparr>order_account := Some acc,
      order_id := Some oid\<rparr>) (ooa_orders (ao_orders ao))) = map (\<lambda>oid. (Some acc, Some oid)) (map fst (ooa_orders (ao_orders ao)))"
    by auto
  have dist: "distinct (map (\<lambda>oid. (Some acc, Some oid)) (map fst (ooa_orders (ao_orders ao))))"
    using Cons.prems e by (subst distinct_map) (auto simp: inj_on_def)
  have "order_account x \<noteq> Some acc" if "x \<in> set (concat (map (\<lambda>(acc, ao).
     map (\<lambda>(oid, ord). ord\<lparr>order_account := Some acc, order_id := Some oid\<rparr>) (ooa_orders (ao_orders ao))) os))" for x
    using that Cons.prems(1) e by (force simp: image_iff)
  with Cons.IH Cons.prems e inner dist show ?case
    by (simp del: map_map set_concat) (blast dest: sym)
qed simp

lemma distinct_listed:
  "book_inv now b \<Longrightarrow> distinct (map (\<lambda>ord. (order_account ord, order_id ord)) (listed b))"
  unfolding listed_def by (rule distinct_listed_gen) (auto simp: book_inv_def list_all_iff)

lemma distinct_book_side:
  assumes "book_inv now b"
  shows "distinct (map order_key (book_side ty asset (listed b)))"
proof -
  let ?P = "\<lambda>ord. order_asset ord = Some asset \<and> order_type ord = Some ty"
  have inj: "inj_on (\<lambda>ord. (order_account ord, order_id ord)) (set (listed b))" "distinct (listed b)"
    using distinct_listed [OF assms] by (auto simp: distinct_map)
  have "inj_on (order_key \<circ> strip) (set (listed b))"
  proof (rule inj_onI)
    fix x y assume "x \<in> set (listed b)" "y \<in> set (listed b)" "(order_key \<circ> strip) x = (order_key \<circ> strip) y"
    with listed_complete(4,5) [OF assms, of x] listed_complete(4,5) [OF assms, of y]
    have "(order_account x, order_id x) = (order_account y, order_id y)"
      by (auto simp: order_key_def strip_def has_iff)
    with inj(1) \<open>x \<in> _\<close> \<open>y \<in> _\<close> show "x = y" by (auto dest: inj_onD)
  qed
  then have "distinct (map (order_key \<circ> strip) (filter ?P (listed b)))"
    using inj(2) by (auto simp: distinct_map inj_on_def)
  then show ?thesis by (simp add: book_side_def)
qed

lemma sort_key_strict:
  assumes "distinct (map order_key os)"
  shows "sorted_wrt byPriceAsc (sort_key order_key os)"
proof -
  have "mset (map order_key (sort_key order_key os)) = mset (map order_key os)" by simp
  with assms have "distinct (map order_key (sort_key order_key os))"
    using mset_eq_imp_distinct_iff by blast
  then have "sorted_wrt (<) (map order_key (sort_key order_key os))"
    by (simp add: strict_sorted_iff)
  then show ?thesis by (simp add: sorted_wrt_map byPriceAsc_key [abs_def])
qed

lemma book_side_has:
  assumes "book_inv now b" "ord \<in> set (book_side ty asset (filter P (listed b)))"
  shows "has (order_price_sat ord) \<and> has (order_account ord) \<and> has (order_id ord)"
  using assms by (auto simp: book_side_def strip_def dest: listed_complete)

text \<open>The book of one asset as a query has to show it.\<close>

definition asset_book :: "Asset \<Rightarrow> Order list \<Rightarrow> OrderbookForAsset" where
  "asset_book asset os = \<lparr>ofa_asset = Some asset,
     ofa_bids = rev (sort_key order_key (rev (book_side BID asset os))),
     ofa_asks = sort_key order_key (book_side ASK asset os)\<rparr>"

lemma extend_None:
  "extend asset None os = (if filter (\<lambda>ord. order_asset ord = Some asset) os = [] then None
     else Some \<lparr>ofa_asset = Some asset, ofa_bids = book_side BID asset os, ofa_asks = book_side ASK asset os\<rparr>)"
  by (simp add: extend_def empty_ofa_def)

lemma SortByPrices_collect:
  assumes "book_inv now b"
  shows "\<exists>res. SortByPrices (fold add_order (filter P (listed b)) []) = ret res \<and>
    distinct (map fst res) \<and> (\<forall>asset. map_of res asset =
      (if filter (\<lambda>ord. order_asset ord = Some asset) (filter P (listed b)) = [] then None
       else Some (asset_book asset (filter P (listed b)))))"
proof -
  let ?os = "filter P (listed b)" and ?c = "fold add_order (filter P (listed b)) []"
  let ?sort = "\<lambda>f. f\<lparr>ofa_asks := sort_key order_key (ofa_asks f),
      ofa_bids := rev (sort_key order_key (rev (ofa_bids f)))\<rparr>"
  have dist: "distinct (map fst ?c)" by (rule distinct_collect) simp
  have look: "map_of ?c asset = extend asset None ?os" for asset
    using listed_complete [OF assms] by (subst map_of_collect) (auto simp: list_all_iff)
  have comp: "comparable_orders (ofa_asks f) \<and> comparable_orders (ofa_bids f)" if "(a, f) \<in> set ?c" for a f
    using map_of_is_SomeI [OF dist that] look [of a] book_side_has [OF assms]
    by (auto simp: extend_None comparable_orders_def list_all_iff split: if_splits)
  have map: "map (\<lambda>(asset, f). (asset, ?sort f)) ?c = map (\<lambda>(asset, f). (asset, ?sort f)) ?c" by simp
  have "SortByPrices ?c = ret (map (\<lambda>(asset, f). (asset, ?sort f)) ?c)"
    using comp by (auto simp: SortByPrices_def std_sort_key list_all_iff checked_def)
  moreover have "distinct (map fst (map (\<lambda>(asset, f). (asset, ?sort f)) ?c))"
    using dist by (simp add: case_prod_beta o_def)
  moreover have "map_of (map (\<lambda>(asset, f). (asset, ?sort f)) ?c) asset = map_option ?sort (map_of ?c asset)" for asset
    using map_of_map [of "?sort" ?c] by simp
  ultimately show ?thesis using look
    by (intro exI [of _ "map (\<lambda>(asset, f). (asset, ?sort f)) ?c"]) (auto simp: extend_None asset_book_def)
qed

lemma book_side_wanted: "book_side ty asset (filter (wanted (Some asset)) os) = book_side ty asset os"
  by (auto simp: book_side_def wanted_def intro!: arg_cong [where f = "map strip"] filter_cong)

lemma asset_book_wanted: "asset_book asset (filter (wanted (Some asset)) os) = asset_book asset os"
  by (simp add: asset_book_def book_side_wanted)

lemma asset_book_empty:
  "filter (\<lambda>ord. order_asset ord = Some asset) os = [] \<Longrightarrow> asset_book asset os = empty_ofa\<lparr>ofa_asset := Some asset\<rparr>"
  by (auto simp: asset_book_def book_side_def empty_ofa_def filter_empty_conv)

lemma single_key:
  assumes "distinct (map fst xs)" "xs \<noteq> []" "\<And>k. map_of xs k \<noteq> None \<Longrightarrow> k = a"
  shows "\<exists>v. xs = [(a, v)]"
proof -
  have "set (map fst xs) \<subseteq> {a}"
    using assms(3) by (metis insertI1 list.set_map map_of_eq_None_iff subsetI)
  with assms(1) have "length (map fst xs) \<le> 1"
    by (metis card_mono card.empty card_insert_disjoint distinct_card empty_iff finite.simps One_nat_def)
  with assms(2) obtain x where "xs = [x]" by (cases xs) auto
  with \<open>set (map fst xs) \<subseteq> {a}\<close> show ?thesis by (cases x) auto
qed

lemma GetForAsset_eq:
  assumes "book_inv now b"
  shows "(GetForAsset asset b :: ('s, OrderbookForAsset) prog) = ret (asset_book asset (listed b))"
proof -
  let ?os = "filter (wanted (Some asset)) (listed b)"
  from SortByPrices_collect [OF assms] obtain res where
      res: "(SortByPrices (fold add_order ?os []) :: ('s, OrderbookByAsset) prog) = ret res" "distinct (map fst res)"
        "\<And>a. map_of res a = (if filter (\<lambda>ord. order_asset ord = Some a) ?os = [] then None
           else Some (asset_book a ?os))" by blast
  have int: "(InternalGetByAsset (Some asset) b :: ('s, OrderbookByAsset) prog) = ret res"
    by (simp only: InternalGetByAsset_def collect_eq [OF assms] bnd_ret_left res(1))
  have only: "map_of res a \<noteq> None \<Longrightarrow> a = asset" for a
    using res(3) by (auto simp: wanted_def filter_empty_conv split: if_splits)
  show ?thesis
  proof (cases "res = []")
    case True
    with res(3) [of asset] have "filter (\<lambda>ord. order_asset ord = Some asset) ?os = []"
      by (metis map_of.simps(1) option.distinct(1))
    then have "asset_book asset (listed b) = empty_ofa\<lparr>ofa_asset := Some asset\<rparr>"
      by (subst asset_book_wanted [symmetric]) (rule asset_book_empty)
    with True int show ?thesis by (simp only: GetForAsset_def bnd_ret_left simp_thms if_True)
  next
    case False
    with res(2) only obtain v where v: "res = [(asset, v)]" using single_key by metis
    with res(3) [of asset] have "v = asset_book asset (listed b)"
      by (auto simp: asset_book_wanted split: if_splits)
    with v int show ?thesis by (intro ext) (simp add: GetForAsset_def asset_book_def)
  qed
qed

lemma GetByAsset_eq:
  assumes "book_inv now b"
  shows "\<exists>res. GetByAsset b = ret res \<and> distinct (map fst res) \<and> (\<forall>asset. map_of res asset =
      (if filter (\<lambda>ord. order_asset ord = Some asset) (listed b) = [] then None
       else Some (asset_book asset (listed b))))"
proof -
  have "filter (wanted None) (listed b) = listed b" by (simp add: wanted_def)
  with SortByPrices_collect [OF assms, of "wanted None"] show ?thesis
    by (simp only: GetByAsset_def InternalGetByAsset_def collect_eq [OF assms] bnd_ret_left)
qed

section \<open>Properties\<close>

lemma new_book_inv: "timed_inv timeout (new_book timeout, now)"
  by (simp add: timed_inv_def new_book_def book_inv_def)

text \<open>
  C18: The queue of update events implements the plain timeout rule. Every run of the order
  book (updates and timeout ticks under a clock that does not run backwards) is a run of
  the specification in which a tick forgets exactly the accounts whose last update is
  longer ago than the timeout.
\<close>

theorem book_refines_timeout_rule:
  assumes "runs book_step (new_book timeout, now) es (b, now')"
  shows "runs (spec_step timeout) (Map.empty, now) es (map_of (ob_orders b), now')"
  using book.sim_runs [OF assms new_book_inv] by (simp add: book_abs_def new_book_def)

definition sample_ask :: Order where
  "sample_ask = empty_order\<lparr>order_asset := Some ''gold'', order_type := Some ASK, order_price_sat := Some 10,
     order_max_units := Some 1\<rparr>"

definition sample_update :: "string \<Rightarrow> OrdersOfAccount" where
  "sample_update acc = \<lparr>ooa_account = Some acc, ooa_orders = [(1, sample_ask), (2, sample_ask\<lparr>order_price_sat := Some 5\<rparr>)]\<rparr>"

definition sample_book :: OrderBook where
  "sample_book = snd (bnd (UpdateOrders 3 (sample_update ''a'')) (\<lambda>_. UpdateOrders 8 (sample_update ''b'')) (new_book 10))"

definition sample_events :: "book_event list" where
  "sample_events = [Updated (sample_update ''a'') 3, Updated (sample_update ''b'') 8, TimedOut 15]"

lemma sample_book_runs: "runs book_step (new_book 10, 0) sample_events (RunTimeout 15 sample_book, 15)"
proof -
  have "book_step (Updated (sample_update ''a'') 3) (new_book 10, 0) (snd (UpdateOrders 3 (sample_update ''a'') (new_book 10)), 3)"
    by (rule book_update) (simp_all add: sample_update_def, code_simp)
  moreover have "book_step (Updated (sample_update ''b'') 8)
      (snd (UpdateOrders 3 (sample_update ''a'') (new_book 10)), 3) (sample_book, 8)"
    by (rule book_update) (simp_all add: sample_update_def, code_simp)
  moreover have "book_step (TimedOut 15) (sample_book, 8) (RunTimeout 15 sample_book, 15)"
    by (rule book_timeout) simp
  ultimately show ?thesis unfolding sample_events_def by (blast intro: runs.intros)
qed

theorem book_refines_timeout_rule_witness:
  "runs (spec_step 10) (Map.empty, 0) sample_events (map_of (ob_orders (RunTimeout 15 sample_book)), 15) \<and>
   map fst (ob_orders (RunTimeout 15 sample_book)) = [''b'']"
proof
  show "runs (spec_step 10) (Map.empty, 0) sample_events (map_of (ob_orders (RunTimeout 15 sample_book)), 15)"
    using sample_book_runs by (rule book_refines_timeout_rule)
  show "map fst (ob_orders (RunTimeout 15 sample_book)) = [''b'']" by code_simp
qed

lemma reachable_book:
  "runs book_step (new_book timeout, t0) es (b, now) \<Longrightarrow> book_inv now b"
  using book.inv_runs [OF _ new_book_inv, of timeout t0 es "(b, now)"] by (auto simp: timed_inv_def)

text \<open>
  C31: On every reachable book a query for an asset answers (no \<^verbatim>\<open>CHECK\<close> fails) with all orders
  for it and no others: the asks in strictly increasing and the bids in strictly decreasing
  order of price, account and ID.
\<close>

theorem query_sorted_and_complete:
  assumes "runs book_step (new_book timeout, t0) es (b, now)"
  shows "\<exists>res. GetForAsset asset b s = (Ret res, s) \<and> ofa_asset res = Some asset \<and>
    mset (ofa_asks res) = mset (book_side ASK asset (listed b)) \<and> sorted_wrt byPriceAsc (ofa_asks res) \<and>
    mset (ofa_bids res) = mset (book_side BID asset (listed b)) \<and> sorted_wrt (\<lambda>x y. byPriceAsc y x) (ofa_bids res)"
proof -
  have inv: "book_inv now b" using assms by (rule reachable_book)
  have dist: "distinct (map order_key (rev (book_side BID asset (listed b))))"
    using distinct_book_side [OF inv] by (simp flip: rev_map)
  show ?thesis
    using sort_key_strict [OF distinct_book_side [OF inv]] sort_key_strict [OF dist]
    by (auto simp: GetForAsset_eq [OF inv] asset_book_def sorted_wrt_rev)
qed

theorem query_sorted_and_complete_witness:
  "\<exists>res. GetForAsset ''gold'' (RunTimeout 15 sample_book) () = (Ret res, ()) \<and> ofa_asset res = Some ''gold'' \<and>
    mset (ofa_asks res) = mset (book_side ASK ''gold'' (listed (RunTimeout 15 sample_book))) \<and>
    sorted_wrt byPriceAsc (ofa_asks res) \<and>
    mset (ofa_bids res) = mset (book_side BID ''gold'' (listed (RunTimeout 15 sample_book))) \<and>
    sorted_wrt (\<lambda>x y. byPriceAsc y x) (ofa_bids res)"
  using sample_book_runs by (rule query_sorted_and_complete)

text \<open>
  The query for all assets and the query for one asset agree: the whole book has an entry
  exactly for the assets that have orders, and the entry is what the single query returns;
  for the other assets that one returns an empty book.
\<close>

theorem queries_agree:
  assumes "runs book_step (new_book timeout, t0) es (b, now)"
  shows "\<exists>res. GetByAsset b s = (Ret res, s) \<and> distinct (map fst res) \<and>
    (\<forall>asset. (map_of res asset \<noteq> None) = (\<exists>ord \<in> set (listed b). order_asset ord = Some asset)) \<and>
    (\<forall>asset. GetForAsset asset b s =
       (Ret (case map_of res asset of Some f \<Rightarrow> f | None \<Rightarrow> empty_ofa\<lparr>ofa_asset := Some asset\<rparr>), s))"
proof -
  have inv: "book_inv now b" using assms by (rule reachable_book)
  from GetByAsset_eq [OF inv] obtain res where res: "GetByAsset b s = (Ret res, s)" "distinct (map fst res)"
      "\<And>asset. map_of res asset = (if filter (\<lambda>ord. order_asset ord = Some asset) (listed b) = [] then None
       else Some (asset_book asset (listed b)))"
    by (metis ret_run)
  moreover have "GetForAsset asset b s =
       (Ret (case map_of res asset of Some f \<Rightarrow> f | None \<Rightarrow> empty_ofa\<lparr>ofa_asset := Some asset\<rparr>), s)" for asset
    by (simp add: GetForAsset_eq [OF inv] res(3) asset_book_empty)
  ultimately show ?thesis by (intro exI [of _ res]) (auto simp: filter_empty_conv)
qed

theorem queries_agree_witness:
  "\<exists>res. GetByAsset (RunTimeout 15 sample_book) () = (Ret res, ()) \<and> distinct (map fst res) \<and>
    (\<forall>asset. (map_of res asset \<noteq> None) =
       (\<exists>ord \<in> set (listed (RunTimeout 15 sample_book)). order_asset ord = Some asset)) \<and>
    (\<forall>asset. GetForAsset asset (RunTimeout 15 sample_book) () =
       (Ret (case map_of res asset of Some f \<Rightarrow> f | None \<Rightarrow> empty_ofa\<lparr>ofa_asset := Some asset\<rparr>), ()))"
  using sample_book_runs by (rule queries_agree)

end
