(* ===== verification/Authenticator.thy ===== *)
theory Authenticator
  imports Prelude
begin

text \<open>
  From XMPP identities to Xaya accounts: \<^verbatim>\<open>src/src/authenticator.cpp\<close>. A user of a trusted
  XID server has the account name encoded in the XMPP user name; the daemon trusts a message
  to come from an account because of this decoding, so it must be one-to-one.
\<close>

unbundle bit_operations_syntax

section \<open>The code\<close>

text \<open>The pieces that \<^verbatim>\<open>std::getline\<close> reads from the stream, one per iteration.\<close>

fun getlines :: "string \<Rightarrow> string \<Rightarrow> string list" where
  "getlines cur [] = [cur]"
| "getlines cur (c # cs) = (if c = CHR '','' then cur # getlines [] cs else getlines (cur @ [c]) cs)"

definition ParseCommaSeparated :: "string \<Rightarrow> string set" where
  "ParseCommaSeparated lst = (if lst = [] then {} else set (getlines [] lst))"

definition IsSimpleChar :: "char \<Rightarrow> bool" where
  "IsSimpleChar c =
     (if (48 :: nat) \<le> of_char c \<and> (of_char c :: nat) \<le> 57 then True
      else if (97 :: nat) \<le> of_char c \<and> (of_char c :: nat) \<le> 122 then True
      else False)"

definition HexCharValue :: "char \<Rightarrow> int" where
  "HexCharValue c =
     (if (48 :: nat) \<le> of_char c \<and> (of_char c :: nat) \<le> 57 then int (of_char c) - 48
      else if (97 :: nat) \<le> of_char c \<and> (of_char c :: nat) \<le> 102 then 10 + int (of_char c) - 97
      else - 1)"

definition ENCODED_PREFIX :: string where
  "ENCODED_PREFIX = ''x-''"

text \<open>The loop over the hex digits with its local variables, and what follows it.\<close>

fun decode_loop :: "string \<Rightarrow> 8 word \<Rightarrow> bool \<Rightarrow> bool \<Rightarrow> string \<Rightarrow> ('s, string option) prog" where
  "decode_loop (c # cs) cur inByte foundNonSimple out =
     (let val = HexCharValue c in
      if val = - 1 then ret None else
      checked (0 \<le> val) (
      checked (val < 16) (
      let cur' = cur OR word_of_int val in
      if inByte then
        (let decodedChar = char_of (unat cur') in
         decode_loop cs 0 False (foundNonSimple \<or> \<not> IsSimpleChar decodedChar) (out @ [decodedChar]))
      else decode_loop cs (push_bit 4 cur') True foundNonSimple out)))"
| "decode_loop [] cur inByte foundNonSimple out =
     checked (\<not> inByte) (
     checked (cur = 0) (
     if \<not> foundNonSimple then ret None else ret (Some out)))"

definition DecodeName :: "string \<Rightarrow> ('s, string option) prog" where
  "DecodeName name =
     (if name = [] then ret None else
      if take (length ENCODED_PREFIX) name \<noteq> ENCODED_PREFIX then
        (if list_all IsSimpleChar name then ret (Some name) else ret None)
      else
        let hexPart = drop (length ENCODED_PREFIX) name in
        if length hexPart mod 2 \<noteq> 0 then ret None else
        if hexPart = [] then ret (Some []) else
        decode_loop hexPart 0 False False [])"

text \<open>The parts of a gloox JID that the daemon reads.\<close>

record JID =
  jid_username :: string
  jid_server :: string
  jid_resource :: string

record Authenticator =
  au_xidServers :: "string set"
  au_knownJids :: "string \<rightharpoonup> JID"

definition new_authenticator :: "string \<Rightarrow> Authenticator" where
  "new_authenticator servers =
     \<lparr>au_xidServers = ParseCommaSeparated servers, au_knownJids = Map.empty\<rparr>"

definition Authenticate :: "JID \<Rightarrow> (Authenticator, string option) prog" where
  "Authenticate jid =
     bnd (gets au_xidServers) (\<lambda>servers.
     if jid_server jid \<notin> servers then ret None else
     bnd (DecodeName (jid_username jid)) (\<lambda>decoded.
     case decoded of
       None \<Rightarrow> ret None
     | Some account \<Rightarrow>
         bnd (modifies (\<lambda>a. a\<lparr>au_knownJids := (au_knownJids a)(account \<mapsto> jid)\<rparr>)) (\<lambda>_.
         ret (Some account))))"

definition LookupJid :: "Authenticator \<Rightarrow> string \<Rightarrow> JID option" where
  "LookupJid a account = au_knownJids a account"

section \<open>The encoding that is decoded\<close>

text \<open>
  How XID servers encode an account name: a name that consists of lower-case letters and
  digits is itself, any other name is the prefix and its bytes in hexadecimal.
\<close>

definition hex_digit :: "nat \<Rightarrow> char" where
  "hex_digit n = char_of (if n < 10 then 48 + n else 87 + n)"

definition hex_byte :: "char \<Rightarrow> string" where
  "hex_byte c = [hex_digit (of_char c div 16), hex_digit (of_char c mod 16)]"

definition EncodeName :: "string \<Rightarrow> string" where
  "EncodeName account =
     (if account \<noteq> [] \<and> list_all IsSimpleChar account then account
      else ENCODED_PREFIX @ concat (map hex_byte account))"

fun unhex :: "string \<Rightarrow> string option" where
  "unhex [] = Some []"
| "unhex [c] = None"
| "unhex (h # l # cs) =
     (if HexCharValue h = - 1 \<or> HexCharValue l = - 1 then None
      else map_option ((#) (char_of (nat (16 * HexCharValue h + HexCharValue l)))) (unhex cs))"

lemma HexCharValue_range: "HexCharValue c = - 1 \<or> 0 \<le> HexCharValue c \<and> HexCharValue c < 16"
  by (auto simp: HexCharValue_def)

lemma HexCharValue_hex_digit: "n < 16 \<Longrightarrow> HexCharValue (hex_digit n) = int n"
  by (auto simp: HexCharValue_def hex_digit_def)

lemma hex_digit_HexCharValue:
  assumes "HexCharValue c \<noteq> - 1" shows "hex_digit (nat (HexCharValue c)) = c"
proof -
  from assms have "(if nat (HexCharValue c) < 10 then 48 + nat (HexCharValue c)
      else 87 + nat (HexCharValue c)) = of_char c"
    by (auto simp: HexCharValue_def nat_diff_distrib split: if_splits)
  then show ?thesis unfolding hex_digit_def by simp
qed

lemma byte_of_digits:
  assumes "0 \<le> h" "h < 16" "0 \<le> l" "l < 16"
  shows "unat (push_bit 4 (0 OR word_of_int h) OR word_of_int l :: 8 word) = nat (16 * h + l)"
proof -
  have "take_bit 4 l = l" using assms by (simp add: take_bit_int_eq_self)
  then have "push_bit 4 h AND l = 0"
    by (metis (no_types) and.commute bit_and_iff bit_eqI bit_push_bit_iff bit_take_bit_iff bit_0_eq bot_apply bot_bool_def not_le)
  then have eq: "push_bit 4 h OR l = push_bit 4 h + l"
    by (rule disjunctive_add_eq_or [symmetric])
  have "uint (push_bit 4 (0 OR word_of_int h) OR word_of_int l :: 8 word) = take_bit 8 (push_bit 4 h OR l)"
    by (rule bit_eqI) (auto simp: bit_simps bit_uint_iff)
  also have "\<dots> = 16 * h + l"
    unfolding eq using assms by (simp add: push_bit_eq_mult take_bit_int_eq_self)
  finally show ?thesis by (simp only: unat_eq_nat_uint)
qed

text \<open>The loop computes \<open>unhex\<close>, and its \<^verbatim>\<open>CHECK\<close>s hold on every even number of digits.\<close>

lemma decode_loop_step:
  assumes "HexCharValue h \<noteq> - 1" "HexCharValue l \<noteq> - 1"
  shows "decode_loop (h # l # cs) 0 False found out =
    (let c = char_of (nat (16 * HexCharValue h + HexCharValue l)) in
     decode_loop cs 0 False (found \<or> \<not> IsSimpleChar c) (out @ [c]))"
  using assms HexCharValue_range [of h] HexCharValue_range [of l]
  by (simp add: Let_def byte_of_digits [simplified])

lemma decode_loop_unhex:
  assumes "even (length hs)"
  shows "decode_loop hs 0 False found out s =
    (Ret (case unhex hs of None \<Rightarrow> None
        | Some cs \<Rightarrow> if found \<or> \<not> list_all IsSimpleChar cs then Some (out @ cs) else None), s)"
  using assms
proof (induction hs arbitrary: found out rule: unhex.induct)
  case (3 h l cs)
  show ?case
  proof (cases "HexCharValue h = - 1 \<or> HexCharValue l = - 1")
    case True
    then show ?thesis using HexCharValue_range [of h] by (auto simp: Let_def)
  next
    case False
    with 3 show ?thesis
      by (auto simp: decode_loop_step Let_def simp del: decode_loop.simps split: option.splits)
  qed
qed auto

lemma unhex_iff: "unhex hs = Some cs \<longleftrightarrow> hs = concat (map hex_byte cs)"
proof (induction hs arbitrary: cs rule: unhex.induct)
  case 1
  then show ?case by (cases cs) (auto simp: hex_byte_def)
next
  case (2 c)
  then show ?case by (cases cs) (auto simp: hex_byte_def)
next
  case (3 h l hs)
  have digits: "HexCharValue h \<noteq> - 1 \<and> HexCharValue l \<noteq> - 1 \<and>
      char_of (nat (16 * HexCharValue h + HexCharValue l)) = c \<longleftrightarrow> [h, l] = hex_byte c" for c
  proof
    assume "[h, l] = hex_byte c"
    moreover have "(of_char c :: nat) < 256"
      by (metis of_char_mod_256 mod_less_divisor zero_less_numeral)
    then have "HexCharValue (hex_digit (of_char c div 16)) = int (of_char c div 16)"
      by (intro HexCharValue_hex_digit) linarith
    moreover have "HexCharValue (hex_digit (of_char c mod 16)) = int (of_char c mod 16)"
      by (intro HexCharValue_hex_digit) simp
    moreover have "nat (16 * int (n div 16) + int (n mod 16)) = n" for n
      using mult_div_mod_eq [of 16 n] by linarith
    ultimately show "HexCharValue h \<noteq> - 1 \<and> HexCharValue l \<noteq> - 1 \<and>
        char_of (nat (16 * HexCharValue h + HexCharValue l)) = c"
      by (simp only: hex_byte_def list.inject char_of_char) simp
  next
    assume v: "HexCharValue h \<noteq> - 1 \<and> HexCharValue l \<noteq> - 1 \<and>
      char_of (nat (16 * HexCharValue h + HexCharValue l)) = c"
    then have r: "0 \<le> HexCharValue h" "HexCharValue h < 16" "0 \<le> HexCharValue l" "HexCharValue l < 16"
      using HexCharValue_range [of h] HexCharValue_range [of l] by auto
    with v have "of_char c = 16 * nat (HexCharValue h) + nat (HexCharValue l)"
      by (auto simp: nat_add_distrib nat_mult_distrib)
    with r v show "[h, l] = hex_byte c" by (simp add: hex_byte_def hex_digit_HexCharValue)
  qed
  show ?case
  proof (cases cs)
    case (Cons c cs')
    have "unhex (h # l # hs) = Some cs \<longleftrightarrow> [h, l] = hex_byte c \<and> unhex hs = Some cs'"
      using Cons digits [of c] by auto
    also have "\<dots> \<longleftrightarrow> h # l # hs = concat (map hex_byte cs)"
    proof (cases "[h, l] = hex_byte c")
      case True
      with digits [of c] have "unhex hs = Some cs' \<longleftrightarrow> hs = concat (map hex_byte cs')"
        by (intro "3.IH") blast
      with True Cons show ?thesis by (simp flip: True)
    qed (auto simp add: Cons hex_byte_def)
    finally show ?thesis .
  qed auto
qed

lemma even_hex: "even (length (concat (map hex_byte cs)))"
  by (induction cs) (auto simp: hex_byte_def)

lemma simple_not_prefixed:
  "list_all IsSimpleChar name \<Longrightarrow> take (length ENCODED_PREFIX) name \<noteq> ENCODED_PREFIX"
  by (cases name; cases "tl name") (auto simp: ENCODED_PREFIX_def IsSimpleChar_def)

text \<open>
  Decoding is total (no \<^verbatim>\<open>CHECK\<close> fails) and the exact inverse of the encoding: it accepts
  precisely the encoding of the account it returns.
\<close>

definition decoded_name :: "string \<Rightarrow> string option" where
  "decoded_name name = (case fst (DecodeName name ()) of Ret r \<Rightarrow> r | _ \<Rightarrow> None)"

lemma DecodeName_total: "DecodeName name s = (Ret (decoded_name name), s)"
proof -
  have even: "length hs mod 2 = 0 \<Longrightarrow> even (length hs)" for hs :: string by presburger
  show ?thesis
    by (auto simp: decoded_name_def DecodeName_def Let_def decode_loop_unhex even split: option.splits)
qed

lemma DecodeName_iff: "decoded_name name = Some account \<longleftrightarrow> name = EncodeName account"
proof (cases "take (length ENCODED_PREFIX) name = ENCODED_PREFIX")
  case False
  then show ?thesis
    by (auto simp: decoded_name_def DecodeName_def EncodeName_def ENCODED_PREFIX_def
        split: if_splits dest: simple_not_prefixed)
next
  case True
  then obtain hs where name: "name = ENCODED_PREFIX @ hs"
    by (metis append_take_drop_id)
  then have ne: "\<not> (account \<noteq> [] \<and> list_all IsSimpleChar account \<and> name = account)"
    using simple_not_prefixed [of name] True by auto
  have "decoded_name name = Some account \<longleftrightarrow>
      even (length hs) \<and> unhex hs = Some account \<and> (hs = [] \<or> \<not> list_all IsSimpleChar account)"
    using name by (cases "even (length hs)")
      (auto simp: decoded_name_def DecodeName_def Let_def decode_loop_unhex ENCODED_PREFIX_def
        even_iff_mod_2_eq_zero split: option.splits)
  also have "\<dots> \<longleftrightarrow> name = EncodeName account"
    using name ne even_hex [of account]
    by (cases account) (auto simp: unhex_iff EncodeName_def hex_byte_def)
  finally show ?thesis .
qed

section \<open>The contract of a name codec\<close>

text \<open>
  What the daemon relies on when it treats a decoded name as the sender: the decoder accepts
  a user name exactly when it is the encoding of the account.
\<close>

locale name_codec =
  fixes enc :: "'a \<Rightarrow> 'n" and dec :: "'n \<Rightarrow> 'a option"
  assumes dec_iff: "dec n = Some a \<longleftrightarrow> n = enc a"
begin

lemma dec_enc: "dec (enc a) = Some a"
  by (simp add: dec_iff)

lemma enc_inj: "inj enc"
  by (rule injI) (metis dec_enc option.inject)

lemma same_name: "dec m = Some a \<Longrightarrow> dec n = Some a \<Longrightarrow> m = n"
  by (simp add: dec_iff)

end

interpretation xid: name_codec EncodeName decoded_name
  by unfold_locales (rule DecodeName_iff)

section \<open>Known JIDs\<close>

definition trusted_jid :: "string set \<Rightarrow> string \<Rightarrow> JID \<Rightarrow> bool" where
  "trusted_jid servers account jid \<longleftrightarrow> jid_server jid \<in> servers \<and> jid_username jid = EncodeName account"

definition auth_inv :: "Authenticator \<Rightarrow> bool" where
  "auth_inv a \<longleftrightarrow> (\<forall>account jid. au_knownJids a account = Some jid \<longrightarrow>
     trusted_jid (au_xidServers a) account jid)"

lemma Authenticate_eq:
  "Authenticate jid a =
     (if jid_server jid \<in> au_xidServers a then
        (case decoded_name (jid_username jid) of
           None \<Rightarrow> (Ret None, a)
         | Some account \<Rightarrow> (Ret (Some account), a\<lparr>au_knownJids := (au_knownJids a)(account \<mapsto> jid)\<rparr>))
      else (Ret None, a))"
  by (auto simp: Authenticate_def bnd_def DecodeName_total split: option.splits)

lemma Authenticate_inv: "auth_inv a \<Longrightarrow> Authenticate jid a = (r, a') \<Longrightarrow> auth_inv a'"
  by (auto simp: Authenticate_eq auth_inv_def trusted_jid_def DecodeName_iff split: if_splits option.splits)

lemma Authenticate_Some:
  assumes "Authenticate jid a = (Ret (Some account), a')"
  shows "trusted_jid (au_xidServers a) account jid" "LookupJid a' account = Some jid"
    "other \<noteq> account \<Longrightarrow> LookupJid a' other = LookupJid a other"
    "au_xidServers a' = au_xidServers a"
  using assms
  by (auto simp: Authenticate_eq LookupJid_def trusted_jid_def DecodeName_iff split: if_splits option.splits)

lemma Authenticate_complete:
  "trusted_jid (au_xidServers a) account jid \<Longrightarrow> fst (Authenticate jid a) = Ret (Some account)"
  by (auto simp: Authenticate_eq trusted_jid_def xid.dec_enc)

section \<open>Properties\<close>

text \<open>
  C23: The decoder of XMPP user names always answers (none of its \<^verbatim>\<open>CHECK\<close>s can fail), and it is
  the exact inverse of the name encoding: it accepts a user name as an account precisely if
  the name is the one encoding of that account. So no two user names of a server pass as
  the same account, and every account has a user name.
\<close>

theorem decode_exact:
  "(\<exists>r. DecodeName name s = (Ret r, s)) \<and>
   (DecodeName name s = (Ret (Some account), s) \<longleftrightarrow> name = EncodeName account)"
  by (simp add: DecodeName_total xid.dec_iff)

text \<open>
  After any sequence of authentication attempts, a JID that is known for an account is on a
  trusted server and has the user name of exactly that account; and the JID of the last
  successful attempt is the one a lookup returns.
\<close>

theorem known_jids_authentic:
  assumes "fold_prog (\<lambda>j acc. Authenticate j) jids r0 (new_authenticator servers) = (Ret r, a)"
  shows "(\<forall>account jid. LookupJid a account = Some jid \<longrightarrow>
      jid_server jid \<in> ParseCommaSeparated servers \<and> jid_username jid = EncodeName account) \<and>
    (jids \<noteq> [] \<longrightarrow> (\<forall>account. r = Some account \<longrightarrow> LookupJid a account = Some (last jids)))"
proof -
  have "auth_inv a' \<and> au_xidServers a' = au_xidServers a0 \<and>
      (js \<noteq> [] \<longrightarrow> (\<forall>account. r' = Some account \<longrightarrow> LookupJid a' account = Some (last js)))"
    if "fold_prog (\<lambda>j acc. Authenticate j) js r0 a0 = (Ret r', a')" "auth_inv a0" for js r0 r' a0 a'
    using that
  proof (induction js arbitrary: r0 a0)
    case (Cons j js)
    from Cons.prems(1) obtain r1 a1 where st: "Authenticate j a0 = (Ret r1, a1)"
      and rest: "fold_prog (\<lambda>j acc. Authenticate j) js r1 a1 = (Ret r', a')" by (auto simp: prog_inv)
    have "au_xidServers a1 = au_xidServers a0" using st by (auto simp: Authenticate_eq split: if_splits option.splits)
    moreover have "r1 = Some account \<Longrightarrow> LookupJid a1 account = Some j" for account
      using st Authenticate_Some(2) by blast
    ultimately show ?case
      using Cons.IH [OF rest Authenticate_inv [OF Cons.prems(2) st]] rest by (cases "js = []") auto
  qed simp
  from this [OF assms] show ?thesis
    by (auto simp: new_authenticator_def auth_inv_def trusted_jid_def LookupJid_def)
qed

theorem known_jids_authentic_witness:
  "\<exists>a. fold_prog (\<lambda>j acc. Authenticate j)
       [\<lparr>jid_username = ''domob'', jid_server = ''chat.xaya.io'', jid_resource = ''x''\<rparr>,
        \<lparr>jid_username = ''x-2e'', jid_server = ''chat.xaya.io'', jid_resource = ''y''\<rparr>] None
       (new_authenticator ''localhost,chat.xaya.io'') = (Ret (Some ''.''), a) \<and>
     LookupJid a ''.'' = Some \<lparr>jid_username = ''x-2e'', jid_server = ''chat.xaya.io'', jid_resource = ''y''\<rparr>"
proof -
  let ?js = "[\<lparr>jid_username = ''domob'', jid_server = ''chat.xaya.io'', jid_resource = ''x''\<rparr>,
      \<lparr>jid_username = ''x-2e'', jid_server = ''chat.xaya.io'', jid_resource = ''y''\<rparr>]"
  have "fst (fold_prog (\<lambda>j acc. Authenticate j) ?js None (new_authenticator ''localhost,chat.xaya.io'')) = Ret (Some ''.'')"
    by code_simp
  then obtain a where a: "fold_prog (\<lambda>j acc. Authenticate j) ?js None (new_authenticator ''localhost,chat.xaya.io'')
      = (Ret (Some ''.''), a)" by (metis prod.collapse)
  with known_jids_authentic [OF a] show ?thesis by auto
qed

end
