(* ===== verification/Stanzas.thy ===== *)
theory Stanzas
  imports Protos
begin

text \<open>
  The stanza extensions that carry protocol buffers in XMPP messages: \<^verbatim>\<open>private/stanzas.hpp\<close>,
  \<^verbatim>\<open>stanzas.tpp\<close> and \<^verbatim>\<open>stanzas.cpp\<close> of \<^verbatim>\<open>src/src\<close>. The XML payload encoding of charon and the wire
  format of protobuf are not part of the repository: they are a record of functions. Parsing
  also says what is left in the message object when it fails.
\<close>

record ('p, 't) codec =
  EncodeXmlPayload :: "string \<Rightarrow> string \<Rightarrow> 't"
  DecodeXmlPayload :: "'t \<Rightarrow> string option"
  setXmlns :: "string \<Rightarrow> 't \<Rightarrow> 't"
  SerializeToString :: "'p \<Rightarrow> string option"
  ParseFromString :: "string \<Rightarrow> 'p \<times> bool"

record 'p ProtoStanza =
  stanza_data :: 'p
  stanza_valid :: bool

definition XMLNS :: string where
  "XMLNS = ''https://xaya.io/democrit/''"

definition empty_stanza :: "'p \<Rightarrow> 'p ProtoStanza" where
  "empty_stanza dflt_data = \<lparr>stanza_data = dflt_data, stanza_valid = False\<rparr>"

definition stanza_of :: "'p \<Rightarrow> 'p ProtoStanza" where
  "stanza_of d = \<lparr>stanza_data = d, stanza_valid = True\<rparr>"

definition stanza_from_tag :: "('p, 't) codec \<Rightarrow> 'p \<Rightarrow> 't \<Rightarrow> 'p ProtoStanza" where
  "stanza_from_tag C dflt_data t =
     (case DecodeXmlPayload C t of
        None \<Rightarrow> empty_stanza dflt_data
      | Some payload \<Rightarrow>
          (case ParseFromString C payload of (d, ok) \<Rightarrow> \<lparr>stanza_data = d, stanza_valid = ok\<rparr>))"

definition filterString :: "string \<Rightarrow> string" where
  "filterString TAG = ''/*/'' @ TAG @ ''[@xmlns='' @ [CHR 0x27] @ XMLNS @ [CHR 0x27] @ '']''"

definition clone :: "'p ProtoStanza \<Rightarrow> 'p ProtoStanza" where
  "clone s = (empty_stanza (stanza_data s))\<lparr>stanza_data := stanza_data s, stanza_valid := stanza_valid s\<rparr>"

definition stanza_tag :: "('p, 't) codec \<Rightarrow> string \<Rightarrow> 'p ProtoStanza \<Rightarrow> ('s, 't) prog" where
  "stanza_tag C TAG s =
     checked (stanza_valid s) (
     case SerializeToString C (stanza_data s) of
       None \<Rightarrow> fatal
     | Some payload \<Rightarrow> ret (setXmlns C XMLNS (EncodeXmlPayload C TAG payload)))"

definition AccountOrdersStanza_TAG :: string where
  "AccountOrdersStanza_TAG = ''orders''"

definition ProcessingMessageStanza_TAG :: string where
  "ProcessingMessageStanza_TAG = ''procmsg''"

section \<open>Round trip\<close>

text \<open>
  What the libraries document: decoding inverts encoding (whatever the namespace), and
  parsing inverts serialising.
\<close>

definition codec_ok :: "('p, 't) codec \<Rightarrow> bool" where
  "codec_ok C \<longleftrightarrow>
     (\<forall>tag payload ns. DecodeXmlPayload C (setXmlns C ns (EncodeXmlPayload C tag payload)) = Some payload) \<and>
     (\<forall>d payload. SerializeToString C d = Some payload \<longrightarrow> ParseFromString C payload = (d, True))"

lemma stanza_roundtrip:
  assumes "codec_ok C" "stanza_tag C TAG (stanza_of d) s = (Ret t, s')"
  shows "stanza_from_tag C e t = stanza_of d" "s' = s"
  using assms by (auto simp: codec_ok_def stanza_tag_def stanza_of_def stanza_from_tag_def split: option.splits)

lemma clone_eq: "clone s = s"
  by (simp add: clone_def)

lemma invalid_not_sent: "stanza_tag C TAG (empty_stanza e) s = (Fatal, s)"
  by (simp add: stanza_tag_def empty_stanza_def)

end
