(* ===== verification/MucClient.thy ===== *)
theory MucClient
  imports Authenticator Stanzas
begin

text \<open>
  The XMPP client: \<^verbatim>\<open>src/src/mucclient.cpp\<close> and \<^verbatim>\<open>private/mucclient.hpp\<close>. It joins a room, keeps
  the map from nicknames in the room to the real JIDs, dispatches messages under the real JID
  of their sender, and disconnects in a worker thread.

  The classes of gloox and charon below it are not part of the repository: whether
  \<^verbatim>\<open>XmppClient::Connect\<close> succeeds is an argument, and a sent message is appended to a log. The
  room object is known by a number. A thread that is started and not yet joined is a flag;
  joining it runs the rest of its body.
\<close>

section \<open>State\<close>

text \<open>What a message carries: its sender and the first stanza extension of each kind.\<close>

record Stanza =
  msg_from :: JID
  ext_orders :: "OrdersOfAccount ProtoStanza option"
  ext_procmsg :: "ProcessingMessage ProtoStanza option"

datatype outgoing = Published OrdersOfAccount | Sent JID ProcessingMessage

record MucClient =
  mc_roomName :: JID
  mc_room :: "nat option"
  mc_joinable :: bool
  mc_worker :: bool
  mc_disconnecting :: bool
  mc_joining :: bool
  mc_nickToJid :: "string \<rightharpoonup> JID"
  mc_connected :: bool
  mc_out :: "outgoing list"

text \<open>
  The constructor does not set \<^verbatim>\<open>disconnecting\<close> and \<^verbatim>\<open>joining\<close>: they start out with whatever was
  in the memory.
\<close>

definition new_client :: "bool \<Rightarrow> bool \<Rightarrow> JID \<Rightarrow> MucClient" where
  "new_client garbage1 garbage2 rm = \<lparr>mc_roomName = rm, mc_room = None, mc_joinable = False, mc_worker = False,
     mc_disconnecting = garbage1, mc_joining = garbage2, mc_nickToJid = Map.empty, mc_connected = False, mc_out = []\<rparr>"

definition IsConnected :: "MucClient \<Rightarrow> bool" where
  "IsConnected c \<longleftrightarrow> \<not> mc_disconnecting c \<and> mc_connected c"

section \<open>Connecting and disconnecting\<close>

text \<open>The body of the worker thread.\<close>

definition run_worker :: "MucClient \<Rightarrow> MucClient" where
  "run_worker c = (if mc_worker c then c\<lparr>mc_connected := False, mc_room := None, mc_disconnecting := False, mc_worker := False\<rparr> else c)"

definition join_disconnecter :: "MucClient \<Rightarrow> MucClient" where
  "join_disconnecter c = (if mc_joinable c then (run_worker c)\<lparr>mc_joinable := False\<rparr> else c)"

text \<open>
  \<^verbatim>\<open>Connect\<close> up to the point where it waits for the answer of the room; it returns false at once
  when the connection to the server fails. \<^verbatim>\<open>room\<close> is the new room object.
\<close>

definition ConnectStart :: "bool \<Rightarrow> nat \<Rightarrow> (MucClient, bool) prog" where
  "ConnectStart xmppOk room =
     bnd (modifies (\<lambda>c. (join_disconnecter c)\<lparr>mc_disconnecting := False\<rparr>)) (\<lambda>_.
     if \<not> xmppOk then ret False else
     bnd (modifies (\<lambda>c. c\<lparr>mc_connected := True, mc_nickToJid := Map.empty\<rparr>)) (\<lambda>_.
     bnd (gets mc_room) (\<lambda>old.
     checked (old = None) (
     bnd (modifies (\<lambda>c. c\<lparr>mc_joining := True, mc_room := Some room\<rparr>)) (\<lambda>_.
     ret True)))))"

text \<open>The rest of \<^verbatim>\<open>Connect\<close>, which runs when \<^verbatim>\<open>joining\<close> has become false.\<close>

definition ConnectEnd :: "(MucClient, bool) prog" where
  "ConnectEnd = gets IsConnected"

definition DisconnectAsync :: "(MucClient, unit) prog" where
  "DisconnectAsync =
     bnd (gets mc_disconnecting) (\<lambda>disconnecting.
     if disconnecting then ret () else
     modifies (\<lambda>c. (join_disconnecter c)\<lparr>mc_nickToJid := Map.empty, mc_disconnecting := True, mc_worker := True, mc_joinable := True\<rparr>))"

definition Disconnect :: "(MucClient, unit) prog" where
  "Disconnect =
     bnd DisconnectAsync (\<lambda>_.
     bnd (modifies join_disconnecter) (\<lambda>_.
     bnd (gets (\<lambda>c. \<not> mc_disconnecting c \<and> mc_room c = None \<and> \<not> mc_connected c)) (\<lambda>ok.
     checked ok (ret ()))))"

section \<open>Messages\<close>

definition ResolveNickname :: "MucClient \<Rightarrow> string \<Rightarrow> JID option" where
  "ResolveNickname c nick = mc_nickToJid c nick"

definition SendMessage :: "outgoing \<Rightarrow> (MucClient, unit) prog" where
  "SendMessage msg =
     bnd (gets IsConnected) (\<lambda>connected.
     checked connected (modifies (\<lambda>c. c\<lparr>mc_out := mc_out c @ [msg]\<rparr>)))"

definition PublishMessage :: "OrdersOfAccount \<Rightarrow> (MucClient, unit) prog" where
  "PublishMessage orders = SendMessage (Published orders)"

definition handleMUCRoomCreation :: "nat \<Rightarrow> (MucClient, bool) prog" where
  "handleMUCRoomCreation r = bnd (gets mc_room) (\<lambda>room. checked (room = Some r) (ret True))"

text \<open>
  The handler of room messages: the real JID under which the message is passed to the
  subclass (\<^verbatim>\<open>HandleMessage\<close>), if it is.
\<close>

definition bareJID :: "JID \<Rightarrow> JID" where
  "bareJID j = j\<lparr>jid_resource := []\<rparr>"

definition handleMUCMessage :: "nat \<Rightarrow> Stanza \<Rightarrow> bool \<Rightarrow> (MucClient, JID option) prog" where
  "handleMUCMessage r msg priv =
     bnd (gets id) (\<lambda>c.
     checked (mc_room c = Some r) (
     if priv then ret None else
     checked (bareJID (msg_from msg) = mc_roomName c) (
     ret (ResolveNickname c (jid_resource (msg_from msg))))))"

definition finish_joining :: "(MucClient, unit) prog" where
  "finish_joining = modifies (\<lambda>c. if mc_joining c then c\<lparr>mc_joining := False\<rparr> else c)"

definition handleMUCError :: "nat \<Rightarrow> (MucClient, unit) prog" where
  "handleMUCError r =
     bnd (gets mc_room) (\<lambda>room.
     checked (room = Some r) (
     bnd DisconnectAsync (\<lambda>_. finish_joining)))"

text \<open>A presence in the room. gloox leaves out the real JID when the room does not reveal it.\<close>

record Presence =
  pr_nick :: string
  pr_jid :: "JID option"
  pr_newNick :: string
  pr_self :: bool
  pr_nickChanged :: bool
  pr_unavailable :: bool

text \<open>
  The handler of presences. The result is the JID that is passed to the subclass
  (\<^verbatim>\<open>HandleDisconnect\<close>) as its last action, if one is. With verbose logging the first
  statement reads the real JID, which is fatal when there is none.
\<close>

definition handleMUCParticipantPresence :: "bool \<Rightarrow> nat \<Rightarrow> Presence \<Rightarrow> (MucClient, JID option) prog" where
  "handleMUCParticipantPresence vlog r p =
     bnd (gets mc_room) (\<lambda>room.
     checked (room = Some r) (
     checked (vlog \<longrightarrow> has (pr_jid p)) (
     let unavailable = (if pr_nickChanged p then False else pr_unavailable p) in
     if pr_self p then
       bnd (if unavailable then DisconnectAsync else ret ()) (\<lambda>_.
       bnd finish_joining (\<lambda>_. ret None))
     else if unavailable then
       bnd (modifies (\<lambda>c. c\<lparr>mc_nickToJid := (mc_nickToJid c)(pr_nick p := None)\<rparr>)) (\<lambda>_.
       ret (pr_jid p))
     else
       (case pr_jid p of
          None \<Rightarrow> ret None
        | Some jid \<Rightarrow>
            bnd (if pr_nickChanged p
                 then bnd (modifies (\<lambda>c. c\<lparr>mc_nickToJid := (mc_nickToJid c)(pr_nick p := None)\<rparr>)) (\<lambda>_. ret (pr_newNick p))
                 else ret (pr_nick p)) (\<lambda>nick.
            checked (nick \<noteq> []) (
            bnd (modifies (\<lambda>c. c\<lparr>mc_nickToJid := (mc_nickToJid c)(nick \<mapsto> jid)\<rparr>)) (\<lambda>_.
            ret None)))))))"

section \<open>Life of the client\<close>

datatype muc_event =
    Connects bool nat
  | Dropped
  | Async
  | Worker
  | Disconnects
  | Sends outgoing
  | Present Presence
  | Errors

text \<open>
  The steps of a client whose room callbacks concern its current room. The connection to
  the server may also end at any time.
\<close>

inductive muc_step :: "bool \<Rightarrow> muc_event \<Rightarrow> MucClient \<Rightarrow> MucClient \<Rightarrow> bool" for vlog :: bool where
  muc_connect: "ConnectStart ok room c = (Ret b, c') \<Longrightarrow> muc_step vlog (Connects ok room) c c'"
| muc_drop: "muc_step vlog Dropped c (c\<lparr>mc_connected := False\<rparr>)"
| muc_async: "DisconnectAsync c = (Ret (), c') \<Longrightarrow> muc_step vlog Async c c'"
| muc_worker: "muc_step vlog Worker c (run_worker c)"
| muc_disconnect: "Disconnect c = (Ret (), c') \<Longrightarrow> muc_step vlog Disconnects c c'"
| muc_send: "SendMessage m c = (Ret (), c') \<Longrightarrow> muc_step vlog (Sends m) c c'"
| muc_present: "handleMUCParticipantPresence vlog r p c = (Ret d, c') \<Longrightarrow> muc_step vlog (Present p) c c'"
| muc_error: "handleMUCError r c = (Ret (), c') \<Longrightarrow> muc_step vlog Errors c c'"

inductive_cases muc_step_cases: "muc_step vlog e c c'"

lemma client_run_simps:
  "mc_nickToJid (run_worker c) = mc_nickToJid c" "mc_nickToJid (join_disconnecter c) = mc_nickToJid c"
  "mc_roomName (join_disconnecter c) = mc_roomName c" "mc_out (join_disconnecter c) = mc_out c"
  by (simp_all add: run_worker_def join_disconnecter_def)

text \<open>An event that says the nickname belongs to the JID, and one that says anything about a nickname.\<close>

definition announces :: "muc_event \<Rightarrow> string \<Rightarrow> JID \<Rightarrow> bool" where
  "announces e nick jid \<longleftrightarrow> (\<exists>p. e = Present p \<and> \<not> pr_self p \<and> pr_jid p = Some jid \<and>
     (if pr_nickChanged p then nick = pr_newNick p else nick = pr_nick p \<and> \<not> pr_unavailable p))"

definition about :: "muc_event \<Rightarrow> string \<Rightarrow> bool" where
  "about e nick \<longleftrightarrow> (\<exists>p. e = Present p \<and> \<not> pr_self p \<and>
     (if pr_nickChanged p then has (pr_jid p) \<and> nick \<in> {pr_nick p, pr_newNick p}
      else nick = pr_nick p \<and> (pr_unavailable p \<or> has (pr_jid p))))"

lemma step_nick:
  assumes "muc_step vlog e c c'" "mc_nickToJid c' nick = Some jid"
  shows "announces e nick jid \<or> (mc_nickToJid c nick = Some jid \<and> \<not> about e nick)"
  using assms(1)
proof cases
  case (muc_present r p d)
  with assms(2) show ?thesis
    by (auto simp: handleMUCParticipantPresence_def announces_def about_def checked_def Let_def bnd_def
        DisconnectAsync_def finish_joining_def client_run_simps split: if_splits option.splits)
qed (use assms(2) in \<open>auto simp: ConnectStart_def DisconnectAsync_def Disconnect_def SendMessage_def handleMUCError_def
      finish_joining_def about_def checked_def client_run_simps bnd_def split: if_splits\<close>)

lemma runs_nick:
  assumes "runs (muc_step vlog) c es c'" "mc_nickToJid c' nick = Some jid"
  shows "(mc_nickToJid c nick = Some jid \<and> (\<forall>e \<in> set es. \<not> about e nick)) \<or>
    (\<exists>xs e ys. es = xs @ e # ys \<and> announces e nick jid \<and> (\<forall>e' \<in> set ys. \<not> about e' nick))"
  using assms
proof (induction rule: runs.induct)
  case (runs_cons e c c1 es c')
  then consider "mc_nickToJid c1 nick = Some jid" "\<forall>e \<in> set es. \<not> about e nick"
    | "\<exists>xs e ys. es = xs @ e # ys \<and> announces e nick jid \<and> (\<forall>e' \<in> set ys. \<not> about e' nick)" by blast
  then show ?case
  proof cases
    case 1
    with step_nick [OF runs_cons.hyps(1)] show ?thesis by fastforce
  next
    case 2
    then show ?thesis by (metis append_Cons)
  qed
qed simp

section \<open>Disconnecting\<close>

text \<open>
  The invariant of the worker: while it has work to do the client is disconnecting and the
  thread can be joined; otherwise the client is not disconnecting. Without a connection there
  is no room.
\<close>

definition muc_inv :: "MucClient \<Rightarrow> bool" where
  "muc_inv c \<longleftrightarrow> mc_disconnecting c = mc_worker c \<and> (mc_worker c \<longrightarrow> mc_joinable c)"

lemma muc_step_inv: "muc_inv c \<Longrightarrow> muc_step vlog e c c' \<Longrightarrow> muc_inv c'"
  by (erule muc_step_cases)
    (auto simp: muc_inv_def ConnectStart_def DisconnectAsync_def Disconnect_def SendMessage_def handleMUCError_def
      handleMUCParticipantPresence_def finish_joining_def run_worker_def join_disconnecter_def checked_def bnd_def Let_def
      split: if_splits option.splits)

lemma Disconnect_succeeds:
  assumes "muc_inv c"
  shows "\<exists>c'. Disconnect c = (Ret (), c') \<and> \<not> mc_connected c' \<and> mc_room c' = None"
  using assms
  by (simp add: Disconnect_def DisconnectAsync_def muc_inv_def run_worker_def join_disconnecter_def bnd_def)

text \<open>The room object of an old connection is only removed by the worker.\<close>

lemma reconnect_with_old_room_aborts:
  "mc_room c = Some r \<Longrightarrow> \<not> mc_joinable c \<Longrightarrow> fst (ConnectStart True room c) = Fatal"
  by (simp add: ConnectStart_def join_disconnecter_def)

text \<open>A client that was never connected and starts with the wrong memory cannot be destroyed.\<close>

lemma uninitialised_flag_aborts: "fst (Disconnect (new_client True g rm)) = Fatal"
  by (simp add: Disconnect_def DisconnectAsync_def new_client_def join_disconnecter_def bnd_def)

text \<open>A nick change without a revealed JID leaves the old nickname with its JID.\<close>

lemma hidden_nick_change_keeps_old:
  assumes "handleMUCParticipantPresence vlog r p c = (Ret d, c')" "pr_nickChanged p" "pr_jid p = None" "\<not> pr_self p"
  shows "mc_nickToJid c' = mc_nickToJid c"
  using assms by (auto simp: handleMUCParticipantPresence_def checked_def split: if_splits)

section \<open>Properties\<close>


definition muc_room :: JID where
  "muc_room = \<lparr>jid_username = ''room'', jid_server = ''muc.chat.xaya.io'', jid_resource = []\<rparr>"

definition alice :: JID where
  "alice = \<lparr>jid_username = ''alice'', jid_server = ''chat.xaya.io'', jid_resource = ''dem''\<rparr>"

definition alice_joins :: Presence where
  "alice_joins = \<lparr>pr_nick = ''n1'', pr_jid = Some alice, pr_newNick = [], pr_self = False, pr_nickChanged = False,
     pr_unavailable = False\<rparr>"

definition joined_client :: MucClient where
  "joined_client = (new_client False False muc_room)\<lparr>mc_room := Some 1, mc_connected := True, mc_joining := True,
     mc_nickToJid := [''n1'' \<mapsto> alice]\<rparr>"

lemma joined_client_runs:
  "runs (muc_step False) (new_client False False muc_room) [Connects True 1, Present alice_joins] joined_client"
proof -
  have "muc_step False (Connects True 1) (new_client False False muc_room) (joined_client\<lparr>mc_nickToJid := Map.empty\<rparr>)"
    by (rule muc_connect [where b = True])
      (simp add: ConnectStart_def join_disconnecter_def new_client_def joined_client_def)
  moreover have "muc_step False (Present alice_joins) (joined_client\<lparr>mc_nickToJid := Map.empty\<rparr>) joined_client"
    by (rule muc_present [where r = 1 and d = None])
      (simp add: handleMUCParticipantPresence_def alice_joins_def joined_client_def new_client_def)
  ultimately show ?thesis by (auto simp: runs_cons_iff)
qed


text \<open>
  Whatever happened before, in whatever order the room callbacks, the worker thread and the
  connection attempts came: disconnecting a client whose flag starts out false ends without a
  failed check, with no room and no connection. In particular the destructor does not abort.
\<close>

theorem disconnect_is_clean:
  assumes "runs (muc_step vlog) (new_client False g rm) es c"
  shows "\<exists>c'. Disconnect c = (Ret (), c') \<and> \<not> mc_connected c' \<and> mc_room c' = None"
proof -
  have "muc_inv c"
    using assms by (rule runs_invariant) (simp add: muc_inv_def new_client_def, rule muc_step_inv)
  then show ?thesis by (rule Disconnect_succeeds)
qed

theorem disconnect_is_clean_witness:
  "\<exists>c'. Disconnect joined_client = (Ret (), c') \<and> \<not> mc_connected c' \<and> mc_room c' = None"
  by (rule disconnect_is_clean [OF joined_client_runs])

text \<open>The room answers the attempt to join it: with our own presence or with an error.\<close>

definition answers :: "muc_event \<Rightarrow> bool" where
  "answers e \<longleftrightarrow> (case e of Present p \<Rightarrow> pr_self p | Errors \<Rightarrow> True | _ \<Rightarrow> False)"

definition connects :: "muc_event \<Rightarrow> bool" where
  "connects e \<longleftrightarrow> (case e of Connects _ _ \<Rightarrow> True | _ \<Rightarrow> False)"

lemma step_joining:
  assumes "muc_step vlog e c c'" "\<not> connects e"
  shows "mc_joining c' \<longleftrightarrow> mc_joining c \<and> \<not> answers e"
  using assms
  by (cases rule: muc_step.cases)
    (auto simp: answers_def connects_def DisconnectAsync_def Disconnect_def SendMessage_def handleMUCError_def
      handleMUCParticipantPresence_def finish_joining_def run_worker_def join_disconnecter_def checked_def bnd_def Let_def
      split: if_splits option.splits)

text \<open>
  C30: \<^verbatim>\<open>Connect\<close> waits until its flag \<^verbatim>\<open>joining\<close> is cleared, and that happens exactly when the room has
  answered. So it returns after an answer; and as long as none comes it waits, even if
  meanwhile the connection is dropped or \<^verbatim>\<open>Disconnect\<close> is called from another thread.
\<close>

theorem connect_returns_iff_answered:
  assumes "runs (muc_step vlog) c es c'" "mc_joining c" "\<not> list_ex connects es"
  shows "\<not> mc_joining c' \<longleftrightarrow> list_ex answers es"
  using assms
proof (induction rule: runs.induct)
  case (runs_cons e c c1 es c')
  then have step: "mc_joining c1 \<longleftrightarrow> \<not> answers e" using step_joining by simp
  have cleared: "\<not> mc_joining d'" if "runs (muc_step vlog) d fs d'" "\<not> mc_joining d" "\<not> list_ex connects fs" for d fs d'
    using that by (induction rule: runs.induct) (auto simp: step_joining)
  from runs_cons step cleared [OF runs_cons.hyps(2)] show ?case by auto
qed simp

theorem connect_returns_iff_answered_witness:
  "runs (muc_step False) joined_client [Dropped] (joined_client\<lparr>mc_connected := False\<rparr>) \<and>
   mc_joining (joined_client\<lparr>mc_connected := False\<rparr>)"
proof -
  have run: "runs (muc_step False) joined_client [Dropped] (joined_client\<lparr>mc_connected := False\<rparr>)"
    by (auto simp: runs_cons_iff intro: muc_drop)
  have "mc_joining joined_client" by (simp add: joined_client_def)
  with connect_returns_iff_answered [OF run] run show ?thesis by (simp add: answers_def connects_def)
qed

end
