(* ===== verification/JsonConv.thy ===== *)
theory JsonConv
  imports Protos
begin

text \<open>
  Conversion between protocol buffers and JSON: \<^verbatim>\<open>src/src/json.cpp\<close>. The conversions to JSON
  can fail a \<^verbatim>\<open>CHECK\<close> and are programs; the one from JSON answers with an order or not.

  The main result is the exact round trip of an order: which fields survive, and which
  orders are printed in a form that the parser refuses.
\<close>

section \<open>Definitions\<close>

definition IntToJson :: "int64 \<Rightarrow> json" where
  "IntToJson val = JInt (sint val)"

definition OrderTypeToJson :: "order_type \<Rightarrow> json" where
  "OrderTypeToJson t = (case t of ASK \<Rightarrow> JStr ''ask'' | BID \<Rightarrow> JStr ''bid'')"

text \<open>\<^verbatim>\<open>if (pb.has_x ()) res["x"] = ...\<close>\<close>

definition set_opt :: "string \<Rightarrow> ('a \<Rightarrow> json) \<Rightarrow> 'a option \<Rightarrow> json \<Rightarrow> json" where
  "set_opt k f x j = (case x of None \<Rightarrow> j | Some v \<Rightarrow> jset k (f v) j)"

text \<open>
  \<^verbatim>\<open>CHECK_GE (pb.max_units (), std::max<int64_t> (1, pb.min_units ()))\<close>: the maximum is taken
  of signed numbers and compared as an unsigned one.
\<close>

definition units_printable :: "Order \<Rightarrow> bool" where
  "units_printable pb \<longleftrightarrow>
     max 1 (sint (dflt 0 (order_min_units pb) :: int64)) \<le> uint (dflt 0 (order_max_units pb))"

definition OrderToJson :: "Order \<Rightarrow> ('s, json) prog" where
  "OrderToJson pb =
     (let res1 = set_opt ''account'' JStr (order_account pb) jempty;
          res2 = set_opt ''id'' IntToJson (order_id pb) res1;
          res3 = set_opt ''asset'' JStr (order_asset pb) res2;
          res4 = jset ''min_units'' (IntToJson (dflt 1 (order_min_units pb))) res3 in
      checked (units_printable pb) (
      let res5 = jset ''max_units'' (IntToJson (dflt 0 (order_max_units pb))) res4;
          res6 = jset ''price_sat'' (IntToJson (dflt 0 (order_price_sat pb))) res5;
          res7 = set_opt ''type'' OrderTypeToJson (order_type pb) res6 in
      ret (if dflt False (order_locked pb) then jset ''locked'' (JBool True) res7 else res7)))"

text \<open>
  Reading one member: a missing member leaves the field unset, and a member of the wrong
  type makes the conversion fail (the outer \<open>None\<close>).
\<close>

definition read_opt :: "(json \<Rightarrow> bool) \<Rightarrow> (json \<Rightarrow> 'a) \<Rightarrow> string \<Rightarrow> json \<Rightarrow> 'a option option" where
  "read_opt ok conv k val =
     (if isMember val k then (if ok (jget val k) then Some (Some (conv (jget val k))) else None)
      else Some None)"

definition read_type :: "json \<Rightarrow> order_type option option" where
  "read_type val =
     (if \<not> isMember val ''type'' then Some None
      else if \<not> isString (jget val ''type'') then None
      else if jtext (jget val ''type'') = ''bid'' then Some (Some BID)
      else if jtext (jget val ''type'') = ''ask'' then Some (Some ASK)
      else None)"

definition OrderFromJson :: "json \<Rightarrow> Order option" where
  "OrderFromJson val =
     (if \<not> isObject val then None else
      Option.bind (read_opt isString jtext ''account'' val) (\<lambda>account.
      Option.bind (read_opt isUInt64 asUInt64 ''id'' val) (\<lambda>oid.
      Option.bind (read_opt isString jtext ''asset'' val) (\<lambda>asset.
      Option.bind (read_opt isUInt64 asUInt64 ''min_units'' val) (\<lambda>minUnits.
      if \<not> isUInt64 (jget val ''max_units'') then None else
      if \<not> isUInt64 (jget val ''price_sat'') then None else
      Option.bind (read_type val) (\<lambda>ty.
      Some \<lparr>order_account = account, order_id = oid, order_asset = asset,
        order_min_units = minUnits, order_max_units = Some (asUInt64 (jget val ''max_units'')),
        order_type = ty, order_price_sat = Some (asUInt64 (jget val ''price_sat'')),
        order_locked = None\<rparr>))))))"

text \<open>The loop that fills \<^verbatim>\<open>ordersById\<close>, a map that is traversed in the order of the IDs.\<close>

definition own_order_json :: "uint64 \<times> Order \<Rightarrow> (uint64 \<times> json) list \<Rightarrow> ('s, (uint64 \<times> json) list) prog" where
  "own_order_json entry ordersById =
     bnd (OrderToJson (snd entry)) (\<lambda>cur.
     ret (insort_key fst (fst entry, jset ''id'' (IntToJson (fst entry)) (jremove ''account'' cur)) ordersById))"

definition OrdersOfAccountToJson :: "OrdersOfAccount \<Rightarrow> ('s, json) prog" where
  "OrdersOfAccountToJson pb =
     bnd (fold_prog own_order_json (ooa_orders pb) []) (\<lambda>ordersById.
     ret (jset ''account'' (JStr (dflt [] (ooa_account pb)))
         (jset ''orders'' (JArr (map snd ordersById)) jempty)))"

definition side_order_json :: "Order \<Rightarrow> json list \<Rightarrow> ('s, json list) prog" where
  "side_order_json ord res =
     bnd (OrderToJson ord) (\<lambda>cur. ret (res @ [jremove ''type'' (jremove ''asset'' cur)]))"

definition OrderbookSideToJson :: "Order list \<Rightarrow> ('s, json) prog" where
  "OrderbookSideToJson orders = bnd (fold_prog side_order_json orders []) (\<lambda>res. ret (JArr res))"

definition OrderbookForAssetToJson :: "OrderbookForAsset \<Rightarrow> ('s, json) prog" where
  "OrderbookForAssetToJson pb =
     bnd (OrderbookSideToJson (ofa_bids pb)) (\<lambda>bids.
     bnd (OrderbookSideToJson (ofa_asks pb)) (\<lambda>asks.
     ret (jset ''asset'' (JStr (dflt [] (ofa_asset pb))) (jset ''bids'' bids (jset ''asks'' asks jempty)))))"

definition OrderbookByAssetToJson :: "OrderbookByAsset \<Rightarrow> ('s, json) prog" where
  "OrderbookByAssetToJson pb =
     fold_prog (\<lambda>(asset, f) res.
       bnd (OrderbookForAssetToJson f) (\<lambda>cur. ret (jset asset (jset ''asset'' (JStr asset) cur) res)))
       pb jempty"

definition TradeToJson :: "Trade \<Rightarrow> json" where
  "TradeToJson pb =
     (let state = (case dflt INITIATED (trade_state pb) of
              INITIATED \<Rightarrow> ''initiated'' | PENDING \<Rightarrow> ''pending'' | SUCCESS \<Rightarrow> ''success''
            | FAILED \<Rightarrow> ''failed'' | ABANDONED \<Rightarrow> ''abandoned'');
          role = (case dflt MAKER (trade_role pb) of MAKER \<Rightarrow> ''maker'' | TAKER \<Rightarrow> ''taker'') in
      jset ''role'' (JStr role) (jset ''state'' (JStr state)
      (jset ''price_sat'' (IntToJson (dflt 0 (trade_price_sat pb)))
      (jset ''units'' (IntToJson (dflt 0 (trade_units pb)))
      (jset ''asset'' (JStr (dflt [] (trade_asset pb)))
      (jset ''type'' (OrderTypeToJson (dflt ASK (trade_type pb)))
      (jset ''counterparty'' (JStr (dflt [] (trade_counterparty pb)))
      (jset ''start_time'' (JInt (dflt 0 (trade_start_time pb))) jempty))))))))"

section \<open>Reading back what was printed\<close>

lemma isObject_set_opt [simp]: "isObject j \<Longrightarrow> isObject (set_opt k f x j)"
  by (simp add: set_opt_def split: option.splits)

lemma isMember_set_opt [simp]:
  "isObject j \<Longrightarrow> isMember (set_opt k f x j) k' \<longleftrightarrow> (k' = k \<and> has x) \<or> isMember j k'"
  by (auto simp: set_opt_def split: option.splits)

lemma jget_set_opt [simp]:
  "isObject j \<Longrightarrow> jget (set_opt k f x j) k' = (case x of Some v \<Rightarrow> if k' = k then f v else jget j k' | None \<Rightarrow> jget j k')"
  by (simp add: set_opt_def split: option.splits)

text \<open>A number survives exactly if it is not negative as a signed one.\<close>

definition printable :: "uint64 \<Rightarrow> bool" where
  "printable x \<longleftrightarrow> uint x < 2 ^ 63"

lemma sint_eq_uint64: "uint (x :: uint64) < 2 ^ 63 \<Longrightarrow> sint x = uint x"
proof -
  assume "uint x < 2 ^ 63"
  moreover have "- (2 ^ 63) \<le> uint x" using uint_ge_0 [of x] by (rule order_trans [rotated]) simp
  ultimately have "signed_take_bit 63 (uint x) = uint x" by (intro signed_take_bit_int_eq_self)
  then show ?thesis by (simp add: sint_uint)
qed

lemma sint_big: "\<not> uint (x :: uint64) < 2 ^ 63 \<Longrightarrow> sint x < 0"
proof (rule ccontr)
  assume big: "\<not> uint x < 2 ^ 63" and nonneg: "\<not> sint x < 0"
  have "uint x = take_bit 64 (sint x)" by (simp add: uint_sint)
  also have "\<dots> = sint x" using nonneg sint_lt [of x] by (simp add: take_bit_int_eq_self)
  finally show False using big sint_lt [of x] by simp
qed

lemma isUInt64_IntToJson [simp]: "isUInt64 (IntToJson x) \<longleftrightarrow> printable x"
proof (cases "printable x")
  case True
  then show ?thesis by (simp add: IntToJson_def printable_def sint_eq_uint64)
next
  case False
  then show ?thesis using sint_big [of x] by (simp add: IntToJson_def printable_def)
qed

lemma asUInt64_IntToJson [simp]: "asUInt64 (IntToJson x) = x"
  by (simp add: asUInt64_def IntToJson_def)

lemma read_type_printed:
  "isMember j ''type'' = has ty \<Longrightarrow> (\<And>t. ty = Some t \<Longrightarrow> jget j ''type'' = OrderTypeToJson t) \<Longrightarrow> read_type j = Some ty"
  by (cases ty) (auto simp: read_type_def OrderTypeToJson_def split: order_type.splits)

definition all_printable :: "Order \<Rightarrow> bool" where
  "all_printable pb \<longleftrightarrow> list_all printable
     [dflt 0 (order_id pb), dflt 1 (order_min_units pb), dflt 0 (order_max_units pb), dflt 0 (order_price_sat pb)]"

text \<open>What reading a printed order gives back.\<close>

definition normalised :: "Order \<Rightarrow> Order" where
  "normalised pb = pb\<lparr>order_min_units := Some (dflt 1 (order_min_units pb)),
     order_max_units := Some (dflt 0 (order_max_units pb)),
     order_price_sat := Some (dflt 0 (order_price_sat pb)), order_locked := None\<rparr>"

lemma OrderToJson_Ret:
  assumes "OrderToJson pb s = (Ret j, s')"
  shows "s' = s" "units_printable pb" "OrderFromJson j = (if all_printable pb then Some (normalised pb) else None)"
proof -
  from assms show "s' = s" "units_printable pb"
    by (auto simp: OrderToJson_def Let_def checked_def split: if_splits)
  from assms have j: "j = fst (j, s)" and
    "isObject j" "jget j ''max_units'' = IntToJson (dflt 0 (order_max_units pb))"
    "jget j ''price_sat'' = IntToJson (dflt 0 (order_price_sat pb))"
    "read_opt isString jtext ''account'' j = Some (order_account pb)"
    "read_opt isUInt64 asUInt64 ''id'' j = (if printable (dflt 0 (order_id pb)) then Some (order_id pb) else None)"
    "read_opt isString jtext ''asset'' j = Some (order_asset pb)"
    "read_opt isUInt64 asUInt64 ''min_units'' j =
      (if printable (dflt 1 (order_min_units pb)) then Some (Some (dflt 1 (order_min_units pb))) else None)"
    "read_type j = Some (order_type pb)"
    by (auto simp: OrderToJson_def Let_def checked_def read_opt_def printable_def
        split: if_splits option.splits intro!: read_type_printed)
  then show "OrderFromJson j = (if all_printable pb then Some (normalised pb) else None)"
    by (simp add: OrderFromJson_def all_printable_def normalised_def)
qed

lemma OrderToJson_total: "units_printable pb \<Longrightarrow> \<exists>j. OrderToJson pb s = (Ret j, s)"
  by (simp add: OrderToJson_def Let_def)

section \<open>Printing does not abort\<close>

text \<open>A fold whose steps all answer answers.\<close>

lemma fold_prog_total:
  assumes "\<And>x b. x \<in> set xs \<Longrightarrow> \<exists>b'. f x b s = (Ret b', s)"
  shows "\<exists>b'. fold_prog f xs b s = (Ret b', s)"
  using assms
proof (induction xs arbitrary: b)
  case (Cons x xs)
  then obtain b1 where "f x b s = (Ret b1, s)" by (meson list.set_intros(1))
  with Cons show ?case by (simp add: bnd_run_Ret)
qed simp

lemma OrdersOfAccountToJson_total:
  assumes "\<And>e. e \<in> set (ooa_orders pb) \<Longrightarrow> units_printable (snd e)"
  shows "\<exists>j. OrdersOfAccountToJson pb s = (Ret j, s)"
proof -
  have "\<exists>b'. own_order_json e b s = (Ret b', s)" if "e \<in> set (ooa_orders pb)" for e b
    using OrderToJson_total [OF assms [OF that], of s] by (auto simp: own_order_json_def bnd_run_Ret)
  then have "\<exists>b'. fold_prog own_order_json (ooa_orders pb) [] s = (Ret b', s)" by (rule fold_prog_total)
  then show ?thesis
    by (auto simp: OrdersOfAccountToJson_def bnd_run_Ret)
qed

lemma OrderbookSideToJson_total:
  assumes "\<And>ord. ord \<in> set orders \<Longrightarrow> units_printable ord"
  shows "\<exists>j. OrderbookSideToJson orders s = (Ret j, s)"
proof -
  have "\<exists>b'. side_order_json ord b s = (Ret b', s)" if "ord \<in> set orders" for ord b
    using OrderToJson_total [OF assms [OF that], of s] by (auto simp: side_order_json_def bnd_run_Ret)
  then have "\<exists>b'. fold_prog side_order_json orders [] s = (Ret b', s)" by (rule fold_prog_total)
  then show ?thesis
    by (auto simp: OrderbookSideToJson_def bnd_run_Ret)
qed

lemma OrderbookForAssetToJson_total:
  assumes "\<And>ord. ord \<in> set (ofa_bids f) \<union> set (ofa_asks f) \<Longrightarrow> units_printable ord"
  shows "\<exists>j. OrderbookForAssetToJson f s = (Ret j, s)"
proof -
  obtain a b where "OrderbookSideToJson (ofa_bids f) s = (Ret a, s)" "OrderbookSideToJson (ofa_asks f) s = (Ret b, s)"
    using OrderbookSideToJson_total [of "ofa_bids f" s] OrderbookSideToJson_total [of "ofa_asks f" s] assms by blast
  then show ?thesis by (simp add: OrderbookForAssetToJson_def bnd_run_Ret)
qed

lemma OrderbookByAssetToJson_total:
  assumes "\<And>asset f ord. (asset, f) \<in> set pb \<Longrightarrow> ord \<in> set (ofa_bids f) \<union> set (ofa_asks f) \<Longrightarrow> units_printable ord"
  shows "\<exists>j. OrderbookByAssetToJson pb s = (Ret j, s)"
  unfolding OrderbookByAssetToJson_def
proof (rule fold_prog_total)
  fix x :: "string \<times> OrderbookForAsset" and b
  assume x: "x \<in> set pb"
  obtain asset f where [simp]: "x = (asset, f)" by (cases x)
  from OrderbookForAssetToJson_total [of f s] assms [of asset f] x
  show "\<exists>b'. (case x of (asset, f) \<Rightarrow> \<lambda>res. bnd (OrderbookForAssetToJson f)
      (\<lambda>cur. ret (jset asset (jset ''asset'' (JStr asset) cur) res))) b s = (Ret b', s)"
    by (auto simp: bnd_run_Ret)
qed

section \<open>Properties\<close>

text \<open>
  C36: Printing an order as JSON succeeds whenever its units are sane, and reading the result
  back gives exactly the same order, with the defaults filled in and without the lock
  flag, as long as every number is below \<open>2 ^ 63\<close>; an order with a larger number is
  printed with a negative one and refused when it is read.
\<close>

theorem order_json_roundtrip:
  assumes "units_printable pb"
  shows "\<exists>j. OrderToJson pb s = (Ret j, s) \<and>
    OrderFromJson j = (if all_printable pb then Some (normalised pb) else None)"
proof -
  from OrderToJson_total [OF assms, of s] obtain j where j: "OrderToJson pb s = (Ret j, s)" ..
  from OrderToJson_Ret(3) [OF j] show ?thesis by (intro exI conjI) (rule j)
qed

theorem order_json_roundtrip_witness:
  "\<exists>j. OrderToJson (empty_order\<lparr>order_asset := Some ''gold'', order_max_units := Some 5, order_type := Some BID\<rparr>) () = (Ret j, ()) \<and>
    OrderFromJson j = Some (empty_order\<lparr>order_asset := Some ''gold'', order_min_units := Some 1, order_max_units := Some 5,
      order_type := Some BID, order_price_sat := Some 0\<rparr>)"
proof -
  let ?o = "empty_order\<lparr>order_asset := Some ''gold'', order_max_units := Some 5, order_type := Some BID\<rparr>"
  have "units_printable ?o" "all_printable ?o" by code_simp+
  moreover have "normalised ?o = empty_order\<lparr>order_asset := Some ''gold'', order_min_units := Some 1,
      order_max_units := Some 5, order_type := Some BID, order_price_sat := Some 0\<rparr>" by code_simp
  ultimately show ?thesis using order_json_roundtrip [of ?o "()"] by simp
qed

end
