(* ===== verification/Daemon.thy ===== *)
theory Daemon
  imports TradeManager OrderBook MucClient JsonConv
begin

text \<open>
  The daemon that puts the parts together, \<^verbatim>\<open>src/src/daemon.cpp\<close>, and its RPC interface,
  \<^verbatim>\<open>src/src/rpcserver.cpp\<close>.

  The state of \<^verbatim>\<open>Daemon::Impl\<close> is a record with the global state, the authenticator, the order
  book, and the network: the XMPP client together with the outside world of the RPC calls. The
  order and trade code runs unchanged, in a world that includes the client: refreshing the own
  orders publishes them in the room.
\<close>

section \<open>State\<close>

record 'w Impl =
  im_state :: State
  im_auth :: Authenticator
  im_allOrders :: OrderBook
  im_net :: "MucClient \<times> 'w"
  im_reconnecter :: bool

record 'w DaemonConf =
  dc_spec :: "'w AssetSpec"
  dc_env :: "'w env"
  dc_flags :: flags

text \<open>Running a program on one part of the state.\<close>

definition onState :: "(State \<times> MucClient \<times> 'w, 'a) prog \<Rightarrow> ('w Impl, 'a) prog" where
  "onState m = (\<lambda>im. case m (im_state im, im_net im) of (r, (s, n)) \<Rightarrow> (r, im\<lparr>im_state := s, im_net := n\<rparr>))"

definition onAuth :: "(Authenticator, 'a) prog \<Rightarrow> ('w Impl, 'a) prog" where
  "onAuth m = (\<lambda>im. case m (im_auth im) of (r, a) \<Rightarrow> (r, im\<lparr>im_auth := a\<rparr>))"

definition onBook :: "(OrderBook, 'a) prog \<Rightarrow> ('w Impl, 'a) prog" where
  "onBook m = (\<lambda>im. case m (im_allOrders im) of (r, b) \<Rightarrow> (r, im\<lparr>im_allOrders := b\<rparr>))"

definition onNet :: "(MucClient \<times> 'w, 'a) prog \<Rightarrow> ('w Impl, 'a) prog" where
  "onNet m = (\<lambda>im. case m (im_net im) of (r, n) \<Rightarrow> (r, im\<lparr>im_net := n\<rparr>))"

text \<open>The RPC interfaces and the asset specification, seen from a larger world.\<close>

definition lift_env :: "'w env \<Rightarrow> ('c \<times> 'w) env" where
  "lift_env E = \<lparr>name_show = (\<lambda>a. onW (name_show E a)), gettxout = (\<lambda>a. onW (gettxout E a)),
     getblockheader = (\<lambda>a. onW (getblockheader E a)), decodepsbt = (\<lambda>a. onW (decodepsbt E a)),
     lockunspent = (\<lambda>a b. onW (lockunspent E a b)), getnewaddress = onW (getnewaddress E),
     walletcreatefundedpsbt = (\<lambda>a b c d. onW (walletcreatefundedpsbt E a b c d)),
     createpsbt = (\<lambda>a b. onW (createpsbt E a b)), namepsbt = (\<lambda>a b c. onW (namepsbt E a b c)),
     joinpsbts = (\<lambda>a. onW (joinpsbts E a)), walletprocesspsbt = (\<lambda>a. onW (walletprocesspsbt E a)),
     combinepsbt = (\<lambda>a. onW (combinepsbt E a)), finalizepsbt = (\<lambda>a. onW (finalizepsbt E a)),
     sendrawtransaction = (\<lambda>a. onW (sendrawtransaction E a)), checktrade = (\<lambda>a. onW (checktrade E a)),
     clock_now = onW (clock_now E), ChiAmountToJson = ChiAmountToJson E, ChiAmountFromJson = ChiAmountFromJson E,
     uint256_FromHex = uint256_FromHex E, uint256_ToHex = uint256_ToHex E, writeString = writeString E,
     realToString = realToString E\<rparr>"

definition lift_spec :: "'w AssetSpec \<Rightarrow> ('c \<times> 'w) AssetSpec" where
  "lift_spec sp = \<lparr>GetGameId = GetGameId sp, IsAsset = (\<lambda>a. onW (IsAsset sp a)),
     CanSell = (\<lambda>a b c. onW (CanSell sp a b c)), CanBuy = (\<lambda>a b c. onW (CanBuy sp a b c)),
     GetTransferMove = GetTransferMove sp\<rparr>"

section \<open>Validation and own orders\<close>

text \<open>
  \<^verbatim>\<open>Impl::ValidateOrder\<close>. Its first tests need no asset specification. The numbers of units
  become signed when they are passed on; an order without a type counts as an ask, the
  default of the enumeration.
\<close>

definition static_valid :: "Order \<Rightarrow> bool" where
  "static_valid ord \<longleftrightarrow> dflt 0 (order_max_units ord) \<noteq> 0 \<and>
     (case order_min_units ord of None \<Rightarrow> True | Some m \<Rightarrow> m \<noteq> 0 \<and> m \<le> dflt 0 (order_max_units ord)) \<and>
     has (order_price_sat ord)"

definition Impl_ValidateOrder :: "'w AssetSpec \<Rightarrow> string \<Rightarrow> Order \<Rightarrow> ('w, bool) prog" where
  "Impl_ValidateOrder sp account ord =
     (if \<not> static_valid ord then ret False else
      let asset = dflt [] (order_asset ord); units = dflt 0 (order_max_units ord) in
      bnd (IsAsset sp asset) (\<lambda>known.
      if \<not> known then ret False else
      (case dflt ASK (order_type ord) of
         BID \<Rightarrow> CanBuy sp account asset units
       | ASK \<Rightarrow> bnd (CanSell sp account asset units) (\<lambda>hash. ret (has hash)))))"

definition daemon_UpdateOrders :: "State \<Rightarrow> OrdersOfAccount \<Rightarrow> (MucClient \<times> 'w, unit) prog" where
  "daemon_UpdateOrders s ownOrders =
     checked (dflt [] (ooa_account ownOrders) = state_account s) (
     bnd (gets (\<lambda>n. IsConnected (fst n))) (\<lambda>connected.
     if \<not> connected then ret () else onL (PublishMessage ownOrders)))"

definition MyOrdersImpl :: "'w DaemonConf \<Rightarrow> (MucClient \<times> 'w) MyOrdersVirtual" where
  "MyOrdersImpl C = \<lparr>ValidateOrder = (\<lambda>account ord. onW (Impl_ValidateOrder (dc_spec C) account ord)),
     UpdateOrders = daemon_UpdateOrders\<rparr>"

definition daemon_tm :: "'w DaemonConf \<Rightarrow> (MucClient \<times> 'w) TradeManager" where
  "daemon_tm C = \<lparr>tm_env = lift_env (dc_env C), tm_spec = lift_spec (dc_spec C), tm_flags = dc_flags C,
     tm_myOrders = MyOrdersImpl C\<rparr>"

text \<open>
  The constructor: our own JID must belong to the account. (It registers the stanza extensions
  last, which makes gloox recognise them.)
\<close>

definition new_impl ::
    "string \<Rightarrow> int \<Rightarrow> bool \<Rightarrow> bool \<Rightarrow> string \<Rightarrow> JID \<Rightarrow> JID \<Rightarrow> 'w \<Rightarrow> 'w Impl outcome" where
  "new_impl servers orderTimeout garbage1 garbage2 account jid mucRoom w =
     (case Authenticate jid (new_authenticator servers) of
        (Ret (Some jidAccount), a) \<Rightarrow>
          if jidAccount = account then
            Ret \<lparr>im_state = init_state account, im_auth = a, im_allOrders = new_book orderTimeout,
              im_net = (new_client garbage1 garbage2 mucRoom, w), im_reconnecter = False\<rparr>
          else Fatal
      | _ \<Rightarrow> Fatal)"

section \<open>Messages\<close>

definition SendProcessingMessage :: "ProcessingMessage \<Rightarrow> ('w Impl, unit) prog" where
  "SendProcessingMessage msg =
     bnd (gets im_auth) (\<lambda>auth.
     case LookupJid auth (dflt [] (pm_counterparty msg)) of
       None \<Rightarrow> ret ()
     | Some receiver \<Rightarrow> onNet (onL (SendMessage (Sent receiver (msg\<lparr>pm_counterparty := None\<rparr>)))))"

text \<open>The loop over the orders of a message.\<close>

definition collect_valid ::
    "'w AssetSpec \<Rightarrow> string \<Rightarrow> uint64 \<times> Order \<Rightarrow> (uint64 \<times> Order) list \<Rightarrow> ('w, (uint64 \<times> Order) list) prog" where
  "collect_valid sp account entry orders =
     bnd (Impl_ValidateOrder sp account (snd entry)) (\<lambda>valid.
     ret (if valid then orders @ [entry] else orders))"

definition Impl_HandleMessage :: "'w DaemonConf \<Rightarrow> int \<Rightarrow> JID \<Rightarrow> Stanza \<Rightarrow> ('w Impl, unit) prog" where
  "Impl_HandleMessage C now sender msg =
     bnd (onAuth (Authenticate sender)) (\<lambda>auth.
     case auth of
       None \<Rightarrow> ret ()
     | Some account \<Rightarrow>
         (case ext_orders msg of
            None \<Rightarrow> ret ()
          | Some ordersExt \<Rightarrow>
              if \<not> stanza_valid ordersExt then ret () else
              bnd (onNet (onW (fold_prog (collect_valid (dc_spec C) account) (ooa_orders (stanza_data ordersExt)) []))) (\<lambda>orders.
              onBook (OrderBook.UpdateOrders now \<lparr>ooa_account = Some account, ooa_orders = orders\<rparr>))))"

definition Impl_HandlePrivate :: "'w DaemonConf \<Rightarrow> JID \<Rightarrow> Stanza \<Rightarrow> ('w Impl, unit) prog" where
  "Impl_HandlePrivate C sender msg =
     bnd (onAuth (Authenticate sender)) (\<lambda>auth.
     case auth of
       None \<Rightarrow> ret ()
     | Some account \<Rightarrow>
         (case ext_procmsg msg of
            None \<Rightarrow> ret ()
          | Some pmExt \<Rightarrow>
              if \<not> stanza_valid pmExt then ret () else
              bnd (onState (ProcessMessage (daemon_tm C) ((stanza_data pmExt)\<lparr>pm_counterparty := Some account\<rparr>))) (\<lambda>reply.
              case reply of
                None \<Rightarrow> ret ()
              | Some m \<Rightarrow> SendProcessingMessage m)))"

definition Impl_HandleDisconnect :: "int \<Rightarrow> JID \<Rightarrow> ('w Impl, unit) prog" where
  "Impl_HandleDisconnect now disconnected =
     bnd (onAuth (Authenticate disconnected)) (\<lambda>auth.
     case auth of
       None \<Rightarrow> ret ()
     | Some account \<Rightarrow> onBook (OrderBook.UpdateOrders now \<lparr>ooa_account = Some account, ooa_orders = []\<rparr>))"

text \<open>The callbacks of the client with the methods they call on the daemon.\<close>

definition on_room_message :: "'w DaemonConf \<Rightarrow> int \<Rightarrow> nat \<Rightarrow> Stanza \<Rightarrow> bool \<Rightarrow> ('w Impl, unit) prog" where
  "on_room_message C now r msg priv =
     bnd (onNet (onL (handleMUCMessage r msg priv))) (\<lambda>realJid.
     case realJid of None \<Rightarrow> ret () | Some jid \<Rightarrow> Impl_HandleMessage C now jid msg)"

definition on_presence :: "bool \<Rightarrow> int \<Rightarrow> nat \<Rightarrow> Presence \<Rightarrow> ('w Impl, unit) prog" where
  "on_presence vlog now r p =
     bnd (onNet (onL (handleMUCParticipantPresence vlog r p))) (\<lambda>gone.
     case gone of None \<Rightarrow> ret () | Some jid \<Rightarrow> Impl_HandleDisconnect now jid)"

definition on_message :: "'w DaemonConf \<Rightarrow> Stanza \<Rightarrow> ('w Impl, unit) prog" where
  "on_message C msg = Impl_HandlePrivate C (msg_from msg) msg"

section \<open>The interface of the daemon\<close>

text \<open>
  Connecting, which is allowed once: \<open>meanwhile\<close> is what the callbacks do while \<^verbatim>\<open>Connect\<close> of the
  client waits. Setting the root certificate, which only concerns the XMPP library, must come
  before.
\<close>

definition Daemon_SetRootCA :: "('w Impl, unit) prog" where
  "Daemon_SetRootCA = bnd (gets im_reconnecter) (\<lambda>started. checked (\<not> started) (ret ()))"

definition Daemon_Connect :: "bool \<Rightarrow> nat \<Rightarrow> ('w Impl, unit) prog \<Rightarrow> ('w Impl, unit) prog" where
  "Daemon_Connect xmppOk room meanwhile =
     bnd (gets im_reconnecter) (\<lambda>started.
     checked (\<not> started) (
     bnd (onNet (onL (ConnectStart xmppOk room))) (\<lambda>joining.
     bnd (if joining then bnd meanwhile (\<lambda>_. onNet (onL ConnectEnd)) else ret False) (\<lambda>_.
     modifies (\<lambda>im. im\<lparr>im_reconnecter := True\<rparr>)))))"

text \<open>One round of the job that reconnects, up to the point where \<^verbatim>\<open>Connect\<close> waits.\<close>

definition reconnect_round :: "bool \<Rightarrow> nat \<Rightarrow> ('w Impl, unit) prog" where
  "reconnect_round xmppOk room =
     bnd (gets (\<lambda>im. IsConnected (fst (im_net im)))) (\<lambda>connected.
     if connected then ret () else bnd (onNet (onL (ConnectStart xmppOk room))) (\<lambda>_. ret ()))"

definition GetOrdersForAsset :: "Asset \<Rightarrow> ('w Impl, OrderbookForAsset) prog" where
  "GetOrdersForAsset asset = bnd (gets im_allOrders) (GetForAsset asset)"

definition GetOrdersByAsset :: "('w Impl, OrderbookByAsset) prog" where
  "GetOrdersByAsset = bnd (gets im_allOrders) GetByAsset"

definition AddOrder :: "'w DaemonConf \<Rightarrow> Order \<Rightarrow> ('w Impl, bool) prog" where
  "AddOrder C ord = onState (Add (MyOrdersImpl C) ord)"

definition CancelOrder :: "'w DaemonConf \<Rightarrow> uint64 \<Rightarrow> ('w Impl, unit) prog" where
  "CancelOrder C oid = onState (RemoveById (MyOrdersImpl C) oid)"

definition GetOwnOrders :: "('w Impl, OrdersOfAccount) prog" where
  "GetOwnOrders = gets (\<lambda>im. GetOrders (im_state im))"

definition Daemon_GetTrades :: "('w Impl, Trade list) prog" where
  "Daemon_GetTrades = gets (\<lambda>im. GetTrades (im_state im))"

definition Daemon_TakeOrder :: "'w DaemonConf \<Rightarrow> Order \<Rightarrow> Amount \<Rightarrow> ('w Impl, bool) prog" where
  "Daemon_TakeOrder C ord units =
     bnd (onState (TakeOrder (daemon_tm C) ord units)) (\<lambda>msg.
     case msg of
       None \<Rightarrow> ret False
     | Some m \<Rightarrow> bnd (SendProcessingMessage m) (\<lambda>_. ret True))"

definition GetAccount :: "('w Impl, string) prog" where
  "GetAccount = gets (\<lambda>im. state_account (im_state im))"

section \<open>The RPC server\<close>

definition invalid_order :: exn where
  "invalid_order = JsonRpcException (- 32602) ''invalid order''"

definition rpc_getstatus :: "'w DaemonConf \<Rightarrow> ('w Impl, json) prog" where
  "rpc_getstatus C =
     bnd (gets (\<lambda>im. IsConnected (fst (im_net im)))) (\<lambda>connected.
     bnd GetAccount (\<lambda>account.
     ret (jset ''account'' (JStr account) (jset ''gameid'' (JStr (GetGameId (dc_spec C)))
       (jset ''connected'' (JBool connected) jempty)))))"

definition rpc_getordersforasset :: "Asset \<Rightarrow> ('w Impl, json) prog" where
  "rpc_getordersforasset asset = bnd (GetOrdersForAsset asset) OrderbookForAssetToJson"

definition rpc_getordersbyasset :: "('w Impl, json) prog" where
  "rpc_getordersbyasset = bnd GetOrdersByAsset OrderbookByAssetToJson"

definition rpc_getownorders :: "('w Impl, json) prog" where
  "rpc_getownorders = bnd GetOwnOrders OrdersOfAccountToJson"

definition rpc_addorder :: "'w DaemonConf \<Rightarrow> json \<Rightarrow> ('w Impl, bool) prog" where
  "rpc_addorder C order =
     (case OrderFromJson order of None \<Rightarrow> throw invalid_order | Some ord \<Rightarrow> AddOrder C ord)"

text \<open>The ID arrives as an \<^verbatim>\<open>int\<close> and is extended to 64 bits.\<close>

definition rpc_cancelorder :: "'w DaemonConf \<Rightarrow> int32 \<Rightarrow> ('w Impl, json) prog" where
  "rpc_cancelorder C oid = bnd (CancelOrder C (scast oid)) (\<lambda>_. ret JNull)"

definition rpc_gettrades :: "('w Impl, json) prog" where
  "rpc_gettrades = bnd Daemon_GetTrades (\<lambda>ts. ret (JArr (map TradeToJson ts)))"

definition rpc_takeorder :: "'w DaemonConf \<Rightarrow> json \<Rightarrow> int32 \<Rightarrow> ('w Impl, bool) prog" where
  "rpc_takeorder C order units =
     (case OrderFromJson order of None \<Rightarrow> throw invalid_order | Some ord \<Rightarrow> Daemon_TakeOrder C ord (scast units))"

end
