(* ===== verification/WorldFrame.thy ===== *)
theory WorldFrame
  imports TradeManager
begin

text \<open>
  What the trade code does to the world: nothing but the calls of its interfaces. The locale
  \<open>world_frame\<close> assumes that each call of the RPC interfaces, of the asset specification and of
  the two virtual methods of the own orders keeps a predicate of the world, and shows that
  all operations on trades and own orders keep it, however they end.
\<close>

section \<open>Rules for the parts of a program\<close>

named_theorems frame_intro "operations that keep the world predicate"

lemma keeps_prod [frame_intro]: "(\<And>a b. keeps I (f a b)) \<Longrightarrow> keeps I (case p of (a, b) \<Rightarrow> f a b)"
  by (cases p) simp

lemma keeps_Let [frame_intro]: "keeps I (f x) \<Longrightarrow> keeps I (Let x f)"
  by simp

lemma keeps_order_type [frame_intro]: "keeps I m \<Longrightarrow> keeps I n \<Longrightarrow> keeps I (case t of ASK \<Rightarrow> m | BID \<Rightarrow> n)"
  by (cases t) simp_all

lemma keeps_flow [frame_intro]: "(\<And>r. keeps I (f r)) \<Longrightarrow> keeps I n \<Longrightarrow> keeps I (case x of Return r \<Rightarrow> f r | Continue \<Rightarrow> n)"
  by (cases x) simp_all

lemma keeps_status [frame_intro]:
  "keeps I a \<Longrightarrow> keeps I b \<Longrightarrow> keeps I c \<Longrightarrow> keeps I d \<Longrightarrow> keeps I e \<Longrightarrow>
     keeps I (case x of INITIATED \<Rightarrow> a | PENDING \<Rightarrow> b | SUCCESS \<Rightarrow> c | FAILED \<Rightarrow> d | ABANDONED \<Rightarrow> e)"
  by (cases x) simp_all

declare keeps_fold_prog [frame_intro]

lemma keeps_jidx [frame_intro]: "keeps I (jidx j k)"
  unfolding jidx_def by (intro keeps_intro)

text \<open>Programs on a pair of owned data and the world.\<close>

lemma keeps_snd_onW [frame_intro]: "keeps J m \<Longrightarrow> keeps (\<lambda>s. J (snd s)) (onW m)"
  by (auto simp: keeps_def onW_def split: prod.splits)

lemma keeps_snd_modifies [frame_intro]: "keeps (\<lambda>s. J (snd s)) (modifies (\<lambda>(p, w). (f p w, w)))"
  by (auto simp: keeps_def)

lemma keeps_onTrade [frame_intro]: "keeps (\<lambda>s. J (snd s)) m \<Longrightarrow> keeps (\<lambda>s. J (snd s)) (onTrade i m)"
proof (rule keepsI)
  fix s r t assume m: "keeps (\<lambda>s. J (snd s)) m" and s: "J (snd s)" and run: "onTrade i m s = (r, t)"
  obtain r' u where u: "m (st_trades (fst s) ! i, snd s) = (r', u)" by (rule prod.exhaust)
  with run have "snd t = snd u" by (auto simp: onTrade_def split: prod.splits)
  with keepsD [OF m _ u] s show "J (snd t)" by simp
qed

lemma keeps_onLocal [frame_intro]: "keeps (\<lambda>s. J (snd s)) m \<Longrightarrow> keeps (\<lambda>s. J (snd s)) (onLocal pb m)"
proof (rule keepsI)
  fix s r t assume m: "keeps (\<lambda>s. J (snd s)) m" and s: "J (snd s)" and run: "onLocal pb m s = (r, t)"
  obtain r' u where u: "m (pb, snd s) = (r', u)" by (rule prod.exhaust)
  with run have "snd t = snd u" by (auto simp: onLocal_def split: prod.splits)
  with keepsD [OF m _ u] s show "J (snd t)" by simp
qed

section \<open>Pure parts\<close>

lemma keeps_pure [frame_intro]:
  "keeps I (OutPointFromJson v)" "keeps I (GetTotalSat tc)" "keeps I (MatchesAddress sp addr)"
  "keeps I (psbt_of j)" "keeps I (ConfirmedFinal F h d)"
  unfolding OutPointFromJson_def GetTotalSat_def MatchesAddress_def psbt_of_def ConfirmedFinal_def
  by (intro keeps_intro frame_intro)+

lemma keeps_find_name_input [frame_intro]: "keeps I (find_name_input out ins i)"
proof (induction ins arbitrary: i)
  case (Cons a ins)
  show ?case unfolding find_name_input.simps by (intro keeps_intro frame_intro Cons)
qed (simp add: keeps_def)

lemma keeps_seller_output_step [frame_intro]: "keeps I (seller_output_step E sp tc sd t out found)"
  unfolding seller_output_step_def by (intro keeps_intro frame_intro)

section \<open>Operations\<close>

locale world_frame =
  fixes TM :: "'w TradeManager" and J :: "'w \<Rightarrow> bool"
  assumes calls:
    "keeps J (name_show (tm_env TM) a1)" "keeps J (gettxout (tm_env TM) a2)" "keeps J (getblockheader (tm_env TM) a3)"
    "keeps J (decodepsbt (tm_env TM) a4)" "keeps J (lockunspent (tm_env TM) b5 a5)" "keeps J (getnewaddress (tm_env TM))"
    "keeps J (walletcreatefundedpsbt (tm_env TM) a6 b6 c6 d6)" "keeps J (createpsbt (tm_env TM) a7 b7)"
    "keeps J (namepsbt (tm_env TM) a8 b8 c8)" "keeps J (joinpsbts (tm_env TM) a9)"
    "keeps J (walletprocesspsbt (tm_env TM) a10)" "keeps J (combinepsbt (tm_env TM) a11)"
    "keeps J (finalizepsbt (tm_env TM) a12)" "keeps J (sendrawtransaction (tm_env TM) a13)"
    "keeps J (checktrade (tm_env TM) a14)" "keeps J (clock_now (tm_env TM))"
    "keeps J (IsAsset (tm_spec TM) a15)" "keeps J (CanSell (tm_spec TM) a16 b16 c16)"
    "keeps J (CanBuy (tm_spec TM) a17 b17 c17)"
    "keeps J (ValidateOrder (tm_myOrders TM) a18 b18)" "keeps J (MyOrdersVirtual.UpdateOrders (tm_myOrders TM) a19 b19)"
begin

lemmas rules = keeps_intro frame_intro calls

lemma ancestor: "keeps J (IsBlockAncestor (tm_env TM) a c n)"
proof (induction n arbitrary: c)
  case (Suc n)
  show ?case unfolding IsBlockAncestor.simps by (intro rules Suc)
qed (simp add: keeps_def)

lemma spent: "keeps J (some_input_spent (tm_env TM) ins)"
proof (induction ins)
  case (Cons i ins)
  show ?case unfolding some_input_spent.simps by (intro rules Cons)
qed (simp add: keeps_def)

lemma checks:
  "keeps J (GetNameOutPoint (tm_env TM) account)"
  "keeps J (CheckForBuyerSignature (tm_env TM) b a)"
  "keeps J (CheckForSellerOutputs (tm_env TM) (tm_spec TM) tc psbt sd)"
  "keeps J (CheckForSellerSignature (tm_env TM) b a sd)"
  unfolding GetNameOutPoint_def CheckForBuyerSignature_def CheckForSellerOutputs_def CheckForSellerSignature_def
  by (intro rules)+

lemma buyer_trade: "keeps J (CheckForBuyerTrade (tm_env TM) (tm_spec TM) tc)"
  unfolding CheckForBuyerTrade_def by (intro rules checks ancestor)

lemma wallet:
  "keeps J (LockUnspent (tm_env TM) l out)" "keeps J (SignPsbt (tm_env TM) psbt)"
  "keeps J (FundPayment (tm_env TM) F sd amt)" "keeps J (NameOperation (tm_env TM) (tm_spec TM) tc sd nm out)"
  "keeps J (GetCurrentTime (tm_env TM))" "keeps J (QueryTrade (tm_env TM) psbt)"
  unfolding LockUnspent_def SignPsbt_def FundPayment_def NameOperation_def GetCurrentTime_def QueryTrade_def
  by (intro rules)+

lemma unlock_inputs: "keeps J (UnlockPsbtInputs (tm_env TM) psbt)"
  unfolding UnlockPsbtInputs_def by (intro rules wallet)

lemma construct: "keeps J (ConstructTransaction TM account pb tc nameIn)"
  unfolding ConstructTransaction_def by (intro rules wallet)

subsection \<open>One trade\<close>

abbreviation keepsW :: "('p \<times> 'w, 'a) prog \<Rightarrow> bool" where
  "keepsW \<equiv> keeps (\<lambda>s. J (snd s))"

lemma set_state_frame: "keepsW (set_state st)" "keepsW clear_conflict_height"
  unfolding set_state_def clear_conflict_height_def by (intro rules)+

lemma replies:
  "keepsW (CreateSellerData TM account)" "keepsW (SellerSigns TM account)" "keepsW (BuyerConstructs TM account)"
  "keepsW (TakerShares account)" "keepsW (BroadcastTrade (tm_env TM) psbt)"
  unfolding CreateSellerData_def SellerSigns_def BuyerConstructs_def TakerShares_def BroadcastTrade_def
  by (intro rules checks wallet buyer_trade construct unlock_inputs set_state_frame)+

lemma maker_finishes: "keepsW (MakerFinishes TM account)"
  unfolding MakerFinishes_def by (intro rules replies)

lemma has_reply: "keepsW (HasReply TM account)"
  unfolding HasReply_def after_def by (intro rules replies maker_finishes)

lemma update: "keepsW (Update TM)"
  unfolding Update_def UpdatePending_def UpdateConflict_def by (intro rules wallet spent set_state_frame)

subsection \<open>Own orders\<close>

lemma refresh: "keepsW (RunRefresh (tm_myOrders TM))"
  unfolding RunRefresh_def refresh_step_def by (intro rules)

lemma own_orders_frame:
  "keepsW (Add (tm_myOrders TM) ord)" "keepsW (RemoveById (tm_myOrders TM) oid)"
  "keepsW (TryLock (tm_myOrders TM) oid)" "keepsW (Unlock (tm_myOrders TM) oid)"
  unfolding Add_def RemoveById_def TryLock_def Unlock_def by (intro rules refresh)+

subsection \<open>The manager\<close>

lemma finish: "keepsW (finish_trade TM account t)"
  unfolding finish_trade_def HandleFailure_def HandleSuccess_def
  by (intro rules own_orders_frame wallet unlock_inputs)

lemma update_all: "keepsW (UpdateAndArchiveTrades TM)"
  unfolding UpdateAndArchiveTrades_def update_trade_def by (intro rules update finish)

lemma take_order: "keepsW (TakeOrder TM ord units)"
  unfolding TakeOrder_def by (intro rules wallet has_reply)

lemma order_taken: "keepsW (OrderTaken TM ord units other)"
  unfolding OrderTaken_def by (intro rules wallet)

lemma process_message: "keepsW (ProcessMessage TM msg)"
  unfolding ProcessMessage_def process_matching_def by (intro rules own_orders_frame order_taken has_reply)

end

end
