(* ===== verification/ManagerRuns.thy ===== *)
theory ManagerRuns
  imports TradeManager
begin

text \<open>
  Runs of the trade manager together with the own orders: orders are added and removed, trades
  are started, messages are processed and trades are updated, in any order. The invariant
  ties the two components together: every active trade on an own order holds the lock of
  that order, and no two active trades are about the same own order.
\<close>

section \<open>The invariant\<close>

definition active_trade :: "State \<Rightarrow> TradeState \<Rightarrow> bool" where
  "active_trade s t \<longleftrightarrow> trade_inv (state_account s) t \<and> \<not> IsFinalised t \<and> counterparty t \<noteq> state_account s \<and>
     (GetRole (state_account s) t = MAKER \<longrightarrow> held (ord_id t) s)"

definition manager_inv :: "State \<Rightarrow> bool" where
  "manager_inv s \<longleftrightarrow> orders_wf s \<and> (\<forall>t \<in> set (st_trades s). active_trade s t) \<and>
     distinct (maker_ids (state_account s) (st_trades s))"

lemma manager_inv_init: "manager_inv (init_state account)"
  by (simp add: manager_inv_def orders_wf_init maker_ids_def) (simp add: init_state_def)

lemma active_trade_held: "active_trade s t \<Longrightarrow> GetRole (state_account s) t = MAKER \<Longrightarrow> held (ord_id t) s"
  by (simp add: active_trade_def)

lemma frame_fields:
  assumes "frame s' = frame s"
  shows "st_account s' = st_account s" "st_trades s' = st_trades s" "st_trade_archive s' = st_trade_archive s"
  using assms by (simp_all add: frame_def)

text \<open>Steps on the own orders keep the invariant as long as no order of an active trade is unlocked.\<close>

lemma manager_inv_own_runs:
  assumes "manager_inv s" "runs (own_step V) s es s'"
    "\<And>oid. EvUnlock oid \<in> set es \<Longrightarrow> oid \<notin> set (maker_ids (state_account s) (st_trades s))"
  shows "manager_inv s'"
proof -
  from assms(1) have wf: "orders_wf s" by (simp add: manager_inv_def)
  note f = frame_fields [OF own_runs_frame [OF assms(2)]]
  have "active_trade s' t" if t: "t \<in> set (st_trades s)" for t
  proof -
    have a: "active_trade s t" using assms(1) t by (simp add: manager_inv_def)
    have "held (ord_id t) s'" if "GetRole (state_account s) t = MAKER"
    proof (rule own.holds_runs [OF assms(2) wf])
      have "ord_id t \<in> set (maker_ids (state_account s) (st_trades s))" using t that by (auto simp: maker_ids_def)
      then show "EvUnlock (ord_id t) \<notin> set es" using assms(3) by blast
      show "held (ord_id t) s" using a that by (rule active_trade_held)
    qed
    with a show ?thesis by (simp add: active_trade_def f)
  qed
  with assms(1) own.inv_runs [OF assms(2) wf] show ?thesis by (simp add: manager_inv_def f)
qed

lemma available_no_trade:
  assumes "manager_inv s" "\<not> held oid s"
  shows "oid \<notin> set (maker_ids (state_account s) (st_trades s))"
proof
  assume "oid \<in> set (maker_ids (state_account s) (st_trades s))"
  then obtain t where "t \<in> set (st_trades s)" "GetRole (state_account s) t = MAKER" "oid = ord_id t"
    by (auto simp: maker_ids_def)
  with assms show False by (auto simp: manager_inv_def dest: active_trade_held)
qed

lemma manager_inv_own_step:
  "manager_inv s \<Longrightarrow> own_step V e s s' \<Longrightarrow>
     (\<And>oid. e = EvUnlock oid \<Longrightarrow> oid \<notin> set (maker_ids (state_account s) (st_trades s))) \<Longrightarrow> manager_inv s'"
  by (rule manager_inv_own_runs [where es = "[e]"]) (auto simp: runs_cons_iff)

section \<open>Starting and processing trades\<close>

lemma role_terms:
  "terms a = terms b \<Longrightarrow> GetRole account a = GetRole account b \<and> ord_id a = ord_id b \<and> counterparty a = counterparty b"
  by (simp add: terms_def GetRole_def)

lemma held_trades [simp]: "held oid (s\<lparr>st_trades := ts\<rparr>) = held oid s"
  by (simp add: held_def)

lemma orders_wf_trades [simp]: "orders_wf (s\<lparr>st_trades := ts\<rparr>) = orders_wf s"
  by (simp add: orders_wf_def)

lemma active_trade_trades [simp]: "active_trade (s\<lparr>st_trades := ts\<rparr>) t = active_trade s t"
  by (simp add: active_trade_def)

lemma manager_inv_append:
  assumes "manager_inv s" "active_trade s t"
    "GetRole (state_account s) t = MAKER \<Longrightarrow> ord_id t \<notin> set (maker_ids (state_account s) (st_trades s))"
  shows "manager_inv (s\<lparr>st_trades := st_trades s @ [t]\<rparr>)"
  using assms by (auto simp: manager_inv_def maker_ids_def)

lemma maker_ids_update:
  assumes "i < length ts" "terms t = terms (ts ! i)"
  shows "maker_ids account (ts[i := t]) = maker_ids account ts"
proof -
  let ?xs = "take i ts" and ?zs = "drop (Suc i) ts"
  have split: "maker_ids account (xs @ y # zs) = maker_ids account xs @
      (if GetRole account y = MAKER then [ord_id y] else []) @ maker_ids account zs" for xs y zs
    by (simp add: maker_ids_def)
  have "maker_ids account (ts[i := t]) = maker_ids account (?xs @ t # ?zs)"
    using assms(1) by (simp only: upd_conv_take_nth_drop)
  also have "\<dots> = maker_ids account (?xs @ ts ! i # ?zs)"
    using role_terms [OF assms(2), of account] by (simp only: split)
  also have "\<dots> = maker_ids account ts" using assms(1) by (simp only: id_take_nth_drop [symmetric])
  finally show ?thesis .
qed

lemma manager_inv_replace:
  assumes "manager_inv s" "i < length (st_trades s)" "terms t = terms (st_trades s ! i)"
    "trade_inv (state_account s) t" "\<not> IsFinalised t"
  shows "manager_inv (s\<lparr>st_trades := (st_trades s)[i := t]\<rparr>)"
proof -
  have "active_trade s (st_trades s ! i)" using assms(1,2) by (simp add: manager_inv_def)
  then have "active_trade s t"
    using assms(4,5) role_terms [OF assms(3), of "state_account s"] by (auto simp: active_trade_def)
  with assms(1,2) maker_ids_update [OF assms(2,3)] show ?thesis
    by (auto simp: manager_inv_def dest: set_update_subset_insert [THEN subsetD])
qed

lemma HasReply_not_finalised:
  assumes "HasReply TM account (pb, w) = (r, (pb', w'))" "\<not> IsFinalised pb"
  shows "\<not> IsFinalised pb'"
  using HasReply_change [OF assms(1)] assms(2)
  by (auto simp: reply_change_def signed_change_def IsFinalised_def)

lemma process_matching_Ret:
  assumes "process_matching TM msg (s, w) = (Ret r, (s', w'))"
  obtains "s' = s" | i r' pb' where "i < length (st_trades s)" "r' \<noteq> Fatal"
    "HasReply TM (state_account s) (HandleMessage (state_account s) msg (st_trades s ! i), w) = (r', (pb', w'))"
    "s' = s\<lparr>st_trades := (st_trades s)[i := pb']\<rparr>" "terms pb' = terms (st_trades s ! i)"
proof (cases "first_match msg 0 (st_trades s)")
  case None
  with assms that(1) show thesis by (auto simp: process_matching_def)
next
  case (Some i)
  then have i: "i < length (st_trades s)" by (simp add: first_match_Some)
  let ?acc = "state_account s" and ?t = "st_trades s ! i"
  from assms Some obtain r' pb' where
      h: "HasReply TM ?acc (HandleMessage ?acc msg ?t, w) = (r', (pb', w'))" "r' \<noteq> Fatal"
    and s': "s' = s\<lparr>st_trades := (st_trades s)[i := pb']\<rparr>"
    by (auto simp: process_matching_def catch_Ret_iff onTrade_eq bnd_eq_iff [of "modifies _"])
  have "terms pb' = terms ?t" using HasReply_forward [OF h(1)] by (simp add: terms_def)
  with that(2) [OF i h(2,1) s'] show thesis .
qed

lemma process_matching_inv:
  assumes "manager_inv s" "process_matching TM msg (s, w) = (Ret r, (s', w'))"
  shows "manager_inv s'"
  using assms(2)
proof (cases rule: process_matching_Ret)
  case 1
  with assms(1) show ?thesis by simp
next
  case (2 i r' pb')
  let ?acc = "state_account s" and ?t = "st_trades s ! i"
  have t: "trade_inv ?acc ?t" "\<not> IsFinalised ?t" using assms(1) 2(1) by (auto simp: manager_inv_def active_trade_def)
  have "trade_inv ?acc pb'" using HasReply_inv [OF HandleMessage_inv [OF t(1)] 2(3,2)] .
  moreover have "\<not> IsFinalised pb'" using t(2) by (intro HasReply_not_finalised [OF 2(3)]) (simp add: IsFinalised_def)
  ultimately show ?thesis unfolding 2(4) using assms(1) 2(1,5) by (intro manager_inv_replace)
qed

lemma TakeOrder_Some:
  assumes "TakeOrder TM ord units (s, w) = (Ret (Some msg), (s', w'))"
  obtains now w1 reply pb where "CheckOrder ord units" "dflt [] (order_account ord) \<noteq> state_account s"
    "HasReply TM (state_account s) (new_trade ord now units (dflt [] (order_account ord)), w1) = (Ret reply, (pb, w'))"
    "s' = s\<lparr>st_trades := st_trades s @ [pb]\<rparr>"
    "msg = SetTakingOrder pb (case reply of Some m \<Rightarrow> m | None \<Rightarrow> InitProcessingMessage pb)"
  using assms
  by (auto simp: TakeOrder_def catch_Ret_iff prog_inv onLocal_Ret Let_def split: if_splits)

lemma TakeOrder_None: "TakeOrder TM ord units (s, w) = (Ret None, (s', w')) \<Longrightarrow> s' = s"
  by (auto simp: TakeOrder_def catch_Ret_iff prog_inv onLocal_Ret Let_def bnd_eq_iff [of "onLocal _ _"]
      dest: onLocal_state split: if_splits)

text \<open>A trade on the order of somebody else: we are its taker.\<close>

lemma taker_role:
  assumes "HasReply TM account (new_trade ord now units (dflt [] (order_account ord)), w) = (r, (pb, w'))"
    "dflt [] (order_account ord) \<noteq> account"
  shows "GetRole account pb = TAKER" "counterparty pb \<noteq> account"
proof -
  let ?new = "new_trade ord now units (dflt [] (order_account ord))"
  have "terms pb = terms ?new" using HasReply_forward [OF assms(1)] by simp
  then show "GetRole account pb = TAKER" "counterparty pb \<noteq> account"
    using role_terms [of pb ?new account] assms(2) by (simp_all add: GetRole_def)
qed

lemma TakeOrder_inv:
  assumes "manager_inv s" "TakeOrder TM ord units (s, w) = (Ret m, (s', w'))"
  shows "manager_inv s'"
proof (cases m)
  case None
  with assms show ?thesis by (auto dest: TakeOrder_None)
next
  case (Some msg)
  from assms(2) [unfolded Some] show ?thesis
  proof (cases rule: TakeOrder_Some)
    case (1 now w1 reply pb)
    note v = taker_role [OF 1(3,2)]
    have "trade_inv (state_account s) pb"
      by (rule HasReply_inv [OF fresh_trade_inv [OF fresh_new_trade] 1(3)]) simp
    moreover have "\<not> IsFinalised pb" by (rule HasReply_not_finalised [OF 1(3)]) (simp add: IsFinalised_def)
    ultimately have "active_trade s pb" using v by (simp add: active_trade_def)
    then show ?thesis unfolding 1(4) using v by (intro manager_inv_append [OF assms(1)]) simp_all
  qed
qed

lemma OrderTaken_Ret:
  assumes "OrderTaken TM ord units other (s, w) = (Ret taken, (s', w'))"
  shows "(\<not> taken \<and> s' = s) \<or> (taken \<and> CheckOrder ord units \<and> other \<noteq> state_account s \<and>
    dflt [] (order_account ord) = state_account s \<and>
    (\<exists>now. s' = s\<lparr>st_trades := st_trades s @ [new_trade ord now units other]\<rparr>))"
  using assms by (auto simp: OrderTaken_def prog_inv Let_def split: if_splits)

text \<open>
  A taken order: it was locked for this trade alone, since no active trade is about an order
  that was available.
\<close>

lemma taking_inv:
  assumes "manager_inv s" "TryLock V oid (s, w) = (Ret (Some ord), (s1, w1))"
    "OrderTaken TM ord units other (s1, w1) = (Ret True, (s2, w2))"
  shows "manager_inv s2"
proof -
  from assms(1) have wf: "orders_wf s" by (simp add: manager_inv_def)
  have step: "own_step V (EvLock oid) s s1" using assms(2) by (rule own_step.lock)
  from own_step_lock [OF step wf] have held: "\<not> held oid s" "held oid s1" by simp_all
  note f = frame_fields [OF own_step_frame [OF step]]
  have inv1: "manager_inv s1" using manager_inv_own_step [OF assms(1) step] by simp
  have "oid \<notin> set (maker_ids (state_account s) (st_trades s))"
    using assms(1) held(1) by (rule available_no_trade)
  then have fresh: "oid \<notin> set (maker_ids (state_account s1) (st_trades s1))" by (simp add: f)
  from assms(2) have ord: "order_id ord = Some oid" by (auto elim: TryLock_Some)
  from OrderTaken_Ret [OF assms(3)] obtain now where
      new: "other \<noteq> state_account s1" "s2 = s1\<lparr>st_trades := st_trades s1 @ [new_trade ord now units other]\<rparr>" by auto
  have "active_trade s1 (new_trade ord now units other)"
    using new(1) held(2) ord fresh_trade_inv [OF fresh_new_trade, of "state_account s1" ord now units other]
    by (simp add: active_trade_def IsFinalised_def)
  then show ?thesis unfolding new(2) using inv1 fresh ord by (intro manager_inv_append) simp_all
qed

lemma ProcessMessage_inv:
  assumes "manager_inv s" "ProcessMessage TM msg (s, w) = (Ret r, (s', w'))"
  shows "manager_inv s'"
proof (cases "pm_taking_order msg")
  case None
  with assms show ?thesis
    by (auto simp: ProcessMessage_def split: option.splits intro: process_matching_inv)
next
  case (Some to)
  let ?V = "tm_myOrders TM" and ?oid = "dflt 0 (to_id to)"
  from assms(2) Some obtain other locked s1 w1 where
      lock: "TryLock ?V ?oid (s, w) = (Ret locked, (s1, w1))"
    and rest: "(case locked of None \<Rightarrow> ret None
      | Some ord \<Rightarrow> bnd (OrderTaken TM ord (dflt 0 (to_units to)) other) (\<lambda>taken.
          if \<not> taken then bnd (Unlock ?V ?oid) (\<lambda>_. ret None) else process_matching TM msg)) (s1, w1) = (Ret r, (s', w'))"
    by (auto simp: ProcessMessage_def bnd_Ret_iff [of "TryLock _ _"] split: option.splits)
  show ?thesis
  proof (cases locked)
    case None
    with lock rest assms(1) show ?thesis by (auto dest: TryLock_None)
  next
    case locked: (Some ord)
    with rest obtain taken s2 w2 where taken: "OrderTaken TM ord (dflt 0 (to_units to)) other (s1, w1) = (Ret taken, (s2, w2))"
      and rest2: "(if \<not> taken then bnd (Unlock ?V ?oid) (\<lambda>_. ret None) else process_matching TM msg) (s2, w2) = (Ret r, (s', w'))"
      by (auto simp: bnd_Ret_iff [of "OrderTaken _ _ _ _"])
    note lock' = lock [unfolded locked]
    show ?thesis
    proof (cases taken)
      case True
      have "manager_inv s2" using taking_inv [OF assms(1) lock'] taken True by simp
      with rest2 True show ?thesis by (auto intro: process_matching_inv)
    next
      case False
      with OrderTaken_Ret [OF taken] rest2 have un: "Unlock ?V ?oid (s1, w2) = (Ret (), (s', w'))"
        by (auto simp: prog_inv)
      have run: "runs (own_step ?V) s [EvLock ?oid, EvUnlock ?oid] s'"
        using own_step.lock [OF lock'] own_step.unlock [OF un] by (auto simp: runs_cons_iff)
      have "\<not> held ?oid s" using own_step_lock [OF own_step.lock [OF lock']] assms(1) by (simp add: manager_inv_def)
      with assms(1) have "?oid \<notin> set (maker_ids (state_account s) (st_trades s))" by (rule available_no_trade)
      then show ?thesis by (intro manager_inv_own_runs [OF assms(1) run]) auto
    qed
  qed
qed

section \<open>Updating\<close>

lemma updated_props:
  assumes "updated TM t t'"
  shows "terms t' = terms t" "trade_inv account t \<Longrightarrow> trade_inv account t'"
  using assms by (auto simp: updated_def dest: Update_forward Update_inv)

lemma maker_ids_updated:
  "list_all2 (updated TM) ts ts' \<Longrightarrow> maker_ids account ts' = maker_ids account ts"
proof (induction rule: list_all2_induct)
  case (Cons t ts t' ts')
  with role_terms [OF updated_props(1) [OF Cons.hyps(1)], of account] show ?case by (simp add: maker_ids_def)
qed (simp add: maker_ids_def)

lemma maker_ids_filter: "distinct (maker_ids account ts) \<Longrightarrow> distinct (maker_ids account (filter P ts))"
proof -
  have "filter (\<lambda>t. GetRole account t = MAKER) (filter P ts) = filter P (filter (\<lambda>t. GetRole account t = MAKER) ts)"
    by (simp add: conj_commute)
  then show "distinct (maker_ids account ts) \<Longrightarrow> distinct (maker_ids account (filter P ts))"
    unfolding maker_ids_def by (simp only: distinct_map_filter)
qed

lemma maker_ids_partition:
  "set (maker_ids account (filter P ts)) \<inter> set (maker_ids account (filter (\<lambda>t. \<not> P t) ts)) = {}"
  if "distinct (maker_ids account ts)"
  using that by (auto simp: maker_ids_def distinct_map inj_on_def)

lemma list_all2_in_right: "list_all2 R xs ys \<Longrightarrow> y \<in> set ys \<Longrightarrow> \<exists>x \<in> set xs. R x y"
  by (induction rule: list_all2_induct) auto

lemma archived_inv:
  assumes "manager_inv s" "list_all2 (updated TM) (st_trades s) ts'"
  shows "manager_inv (s\<lparr>st_trades := filter (\<lambda>t. \<not> IsFinalised t) ts', st_trade_archive := arch\<rparr>)"
proof -
  let ?acc = "state_account s"
  let ?s1 = "s\<lparr>st_trades := filter (\<lambda>t. \<not> IsFinalised t) ts', st_trade_archive := arch\<rparr>"
  have act: "active_trade ?s1 t'" if "t' \<in> set ts'" "\<not> IsFinalised t'" for t'
  proof -
    from list_all2_in_right [OF assms(2) that(1)] obtain t where t: "t \<in> set (st_trades s)" "updated TM t t'" by blast
    then have "active_trade s t" using assms(1) by (simp add: manager_inv_def)
    with updated_props [OF t(2)] role_terms [OF updated_props(1) [OF t(2)], of ?acc] that(2) show ?thesis
      by (simp add: active_trade_def held_def)
  qed
  have "distinct (maker_ids ?acc ts')" using assms(1) maker_ids_updated [OF assms(2)] by (simp add: manager_inv_def)
  from assms(1) act maker_ids_filter [OF this, of "\<lambda>t. \<not> IsFinalised t"] show ?thesis
    by (auto simp: manager_inv_def orders_wf_def)
qed

lemma UpdateAndArchiveTrades_inv:
  assumes "manager_inv s" "ids_left (length (st_trades s)) s"
    "UpdateAndArchiveTrades TM (s, w) = (Ret (), (s', w'))"
  shows "manager_inv s'"
  using assms(3)
proof (rule UpdateAndArchiveTrades_Ret)
  fix ts' s1 w1
  assume upd: "list_all2 (updated TM) (st_trades s) ts'"
    and s1: "s1 = s\<lparr>st_trades := filter (\<lambda>t. \<not> IsFinalised t) ts',
      st_trade_archive := st_trade_archive s @ map (GetPublicInfo (state_account s)) (filter IsFinalised ts')\<rparr>"
    and fin: "for_each (finish_trade TM (state_account s)) (filter IsFinalised ts') (s1, w1) = (Ret (), (s', w'))"
  let ?acc = "state_account s"
  have ids: "distinct (maker_ids ?acc ts')"
    using assms(1) maker_ids_updated [OF upd] by (simp add: manager_inv_def)
  have inv1: "manager_inv s1" unfolding s1 using assms(1) upd by (rule archived_inv)
  have "ids_left (length (filter IsFinalised ts')) s1"
    using assms(2) list_all2_lengthD [OF upd] length_filter_le [of IsFinalised ts']
    unfolding ids_left_def s1 by (simp del: length_filter_le)
  with finish_all_own [OF fin] obtain es where run: "runs (own_step (tm_myOrders TM)) s1 es s'"
      "\<forall>oid. EvUnlock oid \<in> set es \<longrightarrow> oid \<in> set (maker_ids ?acc (filter IsFinalised ts'))"
    by blast
  have "oid \<notin> set (maker_ids (state_account s1) (st_trades s1))" if "EvUnlock oid \<in> set es" for oid
    using that run(2) maker_ids_partition [OF ids, of IsFinalised] unfolding s1 by simp blast
  then show ?thesis by (rule manager_inv_own_runs [OF inv1 run(1)])
qed

section \<open>Runs of the manager\<close>

datatype manager_event =
    OwnOrder own_event
  | TakesOrder Order Amount "ProcessingMessage option"
  | Processes ProcessingMessage "ProcessingMessage option"
  | Updates

inductive manager_step :: "'w TradeManager \<Rightarrow> manager_event \<Rightarrow> State \<Rightarrow> State \<Rightarrow> bool"
  for TM :: "'w TradeManager" where
  m_own: "own_step (tm_myOrders TM) e s s' \<Longrightarrow> (\<And>oid. e \<noteq> EvUnlock oid) \<Longrightarrow> manager_step TM (OwnOrder e) s s'"
| m_take: "TakeOrder TM ord units (s, w) = (Ret m, (s', w')) \<Longrightarrow> manager_step TM (TakesOrder ord units m) s s'"
| m_process: "ProcessMessage TM msg (s, w) = (Ret m, (s', w')) \<Longrightarrow> manager_step TM (Processes msg m) s s'"
| m_update: "UpdateAndArchiveTrades TM (s, w) = (Ret (), (s', w')) \<Longrightarrow> ids_left (length (st_trades s)) s \<Longrightarrow>
    manager_step TM Updates s s'"

lemma manager_step_inv: "manager_inv s \<Longrightarrow> manager_step TM e s s' \<Longrightarrow> manager_inv s'"
  by (erule manager_step.cases)
     (auto intro: manager_inv_own_step TakeOrder_inv ProcessMessage_inv UpdateAndArchiveTrades_inv)

lemma manager_runs_inv: "runs (manager_step TM) s es s' \<Longrightarrow> manager_inv s \<Longrightarrow> manager_inv s'"
  by (erule runs_invariant) (auto intro: manager_step_inv)

end
