(* ===== verification/Mock.thy ===== *)
theory Mock
  imports Env Checker
begin

text \<open>
  The mock servers that the repository's own tests run the daemon against:
  \<^verbatim>\<open>src/src/mockxaya.cpp\<close>, \<^verbatim>\<open>mockxaya.hpp\<close> and the \<^verbatim>\<open>TestAssets\<close> of \<^verbatim>\<open>testutils.cpp\<close>. They
  are an executable instance of the environment that the other theories leave open.

  The world is one record with the state of the mock wallet, the mock GSP and the test
  assets. A gmock expectation (\<^verbatim>\<open>EXPECT_CALL ... WillRepeatedly (Return ...)\<close>) is an entry of
  an association list from the arguments to the result; a call that no expectation covers,
  an out-of-range \<^verbatim>\<open>at\<close> and a failed \<^verbatim>\<open>CHECK\<close> make the test fail and are the fatal outcome.
  The functions of libxayautil, jsoncpp and SHA-256 are the record \<open>libs\<close>.
\<close>

section \<open>State\<close>

record libs =
  lib_SHA256 :: "string \<Rightarrow> uint256"
  lib_ToHex :: "uint256 \<Rightarrow> string"
  lib_FromHex :: "string \<Rightarrow> uint256 option"
  lib_ChiAmountToJson :: "Amount \<Rightarrow> json"
  lib_ChiAmountFromJson :: "json \<Rightarrow> Amount option"
  lib_writeString :: "json \<Rightarrow> string"
  lib_realToString :: "rat \<Rightarrow> string"

record mock =
  mx_addrCount :: uint32
  mx_utxos :: "(string \<times> int) list"
  mx_psbts :: "(string \<times> json) list"
  mx_locked :: "(string \<times> uint32) list"
  mx_bestBlock :: uint256
  ex_CreateFundedPsbt :: "((json \<times> json \<times> json) \<times> string) list"
  ex_createpsbt :: "((json \<times> json) \<times> string) list"
  ex_NamePsbt :: "((string \<times> int \<times> string \<times> string) \<times> string) list"
  ex_joinpsbts :: "(json \<times> string) list"
  ex_walletprocesspsbt :: "(string \<times> json) list"
  ex_sendrawtransaction :: "(string \<times> string) list"
  mg_currentHeight :: uint32
  mg_btxids :: "(string \<times> json) list"
  ta_balances :: "(string \<times> (Asset \<times> Amount) list) list"
  ta_currentHash :: uint256
  mock_time :: int

definition new_mock :: mock where
  "new_mock = \<lparr>mx_addrCount = 0, mx_utxos = [], mx_psbts = [], mx_locked = [], mx_bestBlock = 0,
     ex_CreateFundedPsbt = [], ex_createpsbt = [], ex_NamePsbt = [], ex_joinpsbts = [],
     ex_walletprocesspsbt = [], ex_sendrawtransaction = [], mg_currentHeight = 0, mg_btxids = [],
     ta_balances = [], ta_currentHash = 0, mock_time = 0\<rparr>"

definition SetBestBlock :: "uint256 \<Rightarrow> mock \<Rightarrow> mock" where
  "SetBestBlock b m = m\<lparr>mx_bestBlock := b\<rparr>"

definition AddUtxo :: "string \<Rightarrow> int \<Rightarrow> mock \<Rightarrow> mock" where
  "AddUtxo txid vout m = m\<lparr>mx_utxos := List.insert (txid, vout) (mx_utxos m)\<rparr>"

definition SetPsbt :: "string \<Rightarrow> json \<Rightarrow> mock \<Rightarrow> mock" where
  "SetPsbt psbt decoded m = m\<lparr>mx_psbts := AList.update psbt decoded (mx_psbts m)\<rparr>"

text \<open>The entry of a map or of the expectations; a missing one is fatal.\<close>

definition map_at :: "('k \<times> 'v) list \<Rightarrow> 'k \<Rightarrow> ('s, 'v) prog" where
  "map_at xs k = (case map_of xs k of None \<Rightarrow> fatal | Some v \<Rightarrow> ret v)"

section \<open>Preparing the wallet\<close>

text \<open>Members of a decoded PSBT: \<^verbatim>\<open>decoded["tx"]["vin"]\<close> and so on.\<close>

definition jpath :: "json \<Rightarrow> string list \<Rightarrow> json" where
  "jpath j ks = foldl jget j ks"

definition ExtendJson :: "json \<Rightarrow> json \<Rightarrow> ('s, json) prog" where
  "ExtendJson out inp = checked (isArray out) (checked (isArray inp) (ret (JArr (jelems out @ jelems inp))))"

text \<open>One part of \<^verbatim>\<open>SetJoinedPsbt\<close>'s loop: the collected inputs and outputs.\<close>

definition join_part :: "string \<Rightarrow> json \<times> json \<times> json \<times> json \<Rightarrow> (mock, json \<times> json \<times> json \<times> json) prog" where
  "join_part part acc =
     (case acc of (vin, vout, inputs, outputs) \<Rightarrow>
      bnd (gets mx_psbts) (\<lambda>psbts.
      bnd (map_at psbts part) (\<lambda>decodedPart.
      bnd (ExtendJson vin (jpath decodedPart [''tx'', ''vin''])) (\<lambda>vin'.
      bnd (ExtendJson vout (jpath decodedPart [''tx'', ''vout''])) (\<lambda>vout'.
      bnd (ExtendJson inputs (jget decodedPart ''inputs'')) (\<lambda>inputs'.
      bnd (ExtendJson outputs (jget decodedPart ''outputs'')) (\<lambda>outputs'.
      ret (vin', vout', inputs', outputs'))))))))"

definition SetJoinedPsbt :: "string list \<Rightarrow> string \<Rightarrow> (mock, unit) prog" where
  "SetJoinedPsbt psbtsIn combined =
     bnd (fold_prog join_part psbtsIn (JArr [], JArr [], JArr [], JArr [])) (\<lambda>(vin, vout, inputs, outputs).
     let res = jset ''tx'' (jset ''vin'' vin (jset ''vout'' vout jempty))
           (jset ''inputs'' inputs (jset ''outputs'' outputs jempty)) in
     bnd (modifies (SetPsbt combined res)) (\<lambda>_.
     modifies (\<lambda>m. m\<lparr>ex_joinpsbts := AList.update (JArr (map JStr psbtsIn)) combined (ex_joinpsbts m)\<rparr>)))"

definition addr_script :: "string \<Rightarrow> json" where
  "addr_script addr = jset ''addresses'' (JArr [JStr addr]) jempty"

definition input_json :: "string \<Rightarrow> int \<Rightarrow> json" where
  "input_json txid vout = jset ''txid'' (JStr txid) (jset ''vout'' (JInt vout) jempty)"

definition output_json :: "json \<Rightarrow> json \<Rightarrow> json" where
  "output_json amount script = jset ''value'' amount (jset ''scriptPubKey'' script jempty)"

definition psbt_json :: "json list \<Rightarrow> json list \<Rightarrow> json" where
  "psbt_json vin vout = jset ''tx'' (jset ''vin'' (JArr vin) (jset ''vout'' (JArr vout) jempty))
     (jset ''inputs'' (JArr (map (\<lambda>_. jempty) vin)) (jset ''outputs'' (JArr (map (\<lambda>_. jempty) vout)) jempty))"

definition prepare_chi :: "libs \<Rightarrow> SellerData \<Rightarrow> Amount \<Rightarrow> mock \<Rightarrow> mock" where
  "prepare_chi L sd amt m =
     (let jsonTotal = lib_ChiAmountToJson L amt; chiAddr = dflt [] (sd_chi_address sd);
          outputs = JArr [jset chiAddr jsonTotal jempty];
          options = jset ''fee_rate'' (JInt 100) (jset ''lockUnspents'' (JBool True) jempty);
          decoded = psbt_json [input_json ''buyer txid'' 1, input_json ''buyer txid'' 2]
            [output_json jsonTotal (addr_script chiAddr),
             output_json (JReal (3 / 2)) (addr_script ''change addr'')];
          m1 = m\<lparr>ex_CreateFundedPsbt := AList.update (JArr [], outputs, options) ''chi part'' (ex_CreateFundedPsbt m)\<rparr> in
      (SetPsbt ''chi part'' decoded m1)\<lparr>mx_locked := List.insert (''buyer txid'', 2)
         (List.insert (''buyer txid'', 1) (mx_locked m1))\<rparr>)"

definition name_script :: "string \<Rightarrow> string \<Rightarrow> string \<Rightarrow> json" where
  "name_script seller move addr =
     jset ''nameOp'' (jset ''op'' (JStr ''name_update'') (jset ''name_encoding'' (JStr ''utf8'')
       (jset ''value_encoding'' (JStr ''utf8'') (jset ''name'' (JStr (''p/'' @ seller))
       (jset ''value'' (JStr move) jempty))))) (addr_script addr)"

definition prepare_name :: "string \<Rightarrow> int \<Rightarrow> SellerData \<Rightarrow> string \<Rightarrow> mock \<Rightarrow> mock" where
  "prepare_name seller vout sd move m =
     (let nameAddr = dflt [] (sd_name_address sd);
          inputs = JArr [input_json (seller @ '' txid'') vout];
          outputs = JArr [jset nameAddr (JReal (1 / 100)) jempty];
          decoded = psbt_json [input_json (seller @ '' txid'') 12]
            [output_json (JReal (1 / 100)) (name_script seller move nameAddr)];
          m1 = m\<lparr>ex_createpsbt := AList.update (inputs, outputs) ''raw name part'' (ex_createpsbt m),
            ex_NamePsbt := AList.update (''raw name part'', 0, ''p/'' @ seller, move) ''name part'' (ex_NamePsbt m)\<rparr> in
      SetPsbt ''name part'' decoded m1)"

text \<open>The method also sets the fee-rate flag to 100; callers use flags with that value.\<close>

definition PrepareConstructTransaction ::
    "libs \<Rightarrow> string \<Rightarrow> string \<Rightarrow> int \<Rightarrow> SellerData \<Rightarrow> Amount \<Rightarrow> string \<Rightarrow> (mock, unit) prog" where
  "PrepareConstructTransaction L psbt seller vout sd amt move =
     bnd (modifies (prepare_chi L sd amt)) (\<lambda>_.
     bnd (modifies (prepare_name seller vout sd move)) (\<lambda>_.
     SetJoinedPsbt [''chi part'', ''name part''] psbt))"

definition is_signed :: "json \<Rightarrow> bool" where
  "is_signed inp \<longleftrightarrow> isMember inp ''signed'' \<and> asBool (jget inp ''signed'')"

definition sign_inputs :: "string list \<Rightarrow> json list \<Rightarrow> json list \<Rightarrow> json list" where
  "sign_inputs signTxids vin inputs =
     map2 (\<lambda>v inp. if jtext (jget v ''txid'') \<in> set signTxids then jset ''signed'' (JBool True) inp else inp) vin inputs"

definition SetSignedPsbt :: "string \<Rightarrow> string \<Rightarrow> string list \<Rightarrow> (mock, unit) prog" where
  "SetSignedPsbt signedPsbt psbt signTxids =
     bnd (gets mx_psbts) (\<lambda>psbts.
     bnd (map_at psbts psbt) (\<lambda>decoded.
     let vin = jelems (jpath decoded [''tx'', ''vin'']); inputs = jelems (jget decoded ''inputs'') in
     checked (length vin = length inputs) (
     let inputs' = sign_inputs signTxids vin inputs;
         complete = list_all is_signed inputs';
         result = jset ''psbt'' (JStr signedPsbt) (jset ''complete'' (JBool complete) jempty) in
     bnd (modifies (SetPsbt signedPsbt (jset ''inputs'' (JArr inputs') decoded))) (\<lambda>_.
     modifies (\<lambda>m. m\<lparr>ex_walletprocesspsbt := AList.update psbt result (ex_walletprocesspsbt m)\<rparr>)))))"

section \<open>The RPC methods\<close>

definition GetBlockHash :: "libs \<Rightarrow> nat \<Rightarrow> uint256" where
  "GetBlockHash L height = lib_SHA256 L (''block '' @ show_nat height)"

definition mock_getnewaddress :: "(mock, string) prog" where
  "mock_getnewaddress =
     bnd (modifies (\<lambda>m. m\<lparr>mx_addrCount := mx_addrCount m + 1\<rparr>)) (\<lambda>_.
     bnd (gets mx_addrCount) (\<lambda>n. ret (''addr '' @ show_nat (unat n))))"

definition mock_name_show :: "string \<Rightarrow> (mock, json) prog" where
  "mock_name_show name =
     (if name = ''p/invalid'' \<or> take 2 name \<noteq> ''p/'' then throw (JsonRpcException (- 4) ''name not found'')
      else let suffix = drop 2 name in
        ret (jset ''name'' (JStr suffix) (jset ''txid'' (JStr (suffix @ '' txid'')) (jset ''vout'' (JInt 12) jempty))))"

definition mock_gettxout :: "libs \<Rightarrow> json \<Rightarrow> (mock, json) prog" where
  "mock_gettxout L params =
     (let txid = jtext (jelems params ! 0); vout = jnum (jelems params ! 1) in
      bnd (gets id) (\<lambda>m.
      if (txid, vout) \<notin> set (mx_utxos m) then ret JNull
      else ret (jset ''bestblock'' (JStr (lib_ToHex L (mx_bestBlock m))) jempty)))"

definition header_json :: "libs \<Rightarrow> nat \<Rightarrow> json" where
  "header_json L h =
     (let res = jset ''hash'' (JStr (lib_ToHex L (GetBlockHash L h))) (jset ''height'' (JInt (int h))
            (jset ''nextblockhash'' (JStr (lib_ToHex L (GetBlockHash L (h + 1)))) jempty)) in
      if h > 0 then jset ''previousblockhash'' (JStr (lib_ToHex L (GetBlockHash L (h - 1)))) res else res)"

definition mock_getblockheader :: "libs \<Rightarrow> string \<Rightarrow> (mock, json) prog" where
  "mock_getblockheader L hashStr =
     (case lib_FromHex L hashStr of
        None \<Rightarrow> throw (JsonRpcException (- 8) ''block hash is not uint256'')
      | Some hash \<Rightarrow>
          (case List.find (\<lambda>h. hash = GetBlockHash L h) [0..<1000] of
             Some h \<Rightarrow> ret (header_json L h)
           | None \<Rightarrow> throw (JsonRpcException (- 5) ''unknown block hash'')))"

definition mock_decodepsbt :: "string \<Rightarrow> (mock, json) prog" where
  "mock_decodepsbt psbt =
     bnd (gets mx_psbts) (\<lambda>psbts.
     case map_of psbts psbt of
       None \<Rightarrow> throw (JsonRpcException (- 22) (''unknown psbt: '' @ psbt))
     | Some decoded \<Rightarrow> ret decoded)"

definition mock_walletcreatefundedpsbt :: "json \<Rightarrow> json \<Rightarrow> int \<Rightarrow> json \<Rightarrow> (mock, json) prog" where
  "mock_walletcreatefundedpsbt inputs outputs lockTime options =
     checked (lockTime = 0) (
     bnd (gets ex_CreateFundedPsbt) (\<lambda>ex.
     bnd (map_at ex (inputs, outputs, options)) (\<lambda>psbt. ret (jset ''psbt'' (JStr psbt) jempty))))"

definition mock_createpsbt :: "json \<Rightarrow> json \<Rightarrow> (mock, string) prog" where
  "mock_createpsbt inputs outputs = bnd (gets ex_createpsbt) (\<lambda>ex. map_at ex (inputs, outputs))"

definition jsize :: "json \<Rightarrow> nat" where
  "jsize j = (case j of JArr xs \<Rightarrow> length xs | JObj kvs \<Rightarrow> length kvs | _ \<Rightarrow> 0)"

definition mock_namepsbt :: "string \<Rightarrow> int \<Rightarrow> json \<Rightarrow> (mock, json) prog" where
  "mock_namepsbt psbt vout nameOp =
     checked (isObject nameOp) (
     checked (jsize nameOp = 3) (
     let opVal = jget nameOp ''op'' in
     checked (isString opVal) (
     checked (jtext opVal = ''name_update'') (
     let nameVal = jget nameOp ''name'' in
     checked (isString nameVal) (
     let valueVal = jget nameOp ''value'' in
     checked (isString valueVal) (
     bnd (gets ex_NamePsbt) (\<lambda>ex.
     bnd (map_at ex (psbt, vout, jtext nameVal, jtext valueVal)) (\<lambda>res.
     ret (jset ''psbt'' (JStr res) jempty)))))))))"

definition lock_one :: "libs \<Rightarrow> bool \<Rightarrow> json \<Rightarrow> (mock, unit) prog" where
  "lock_one L unlock o' =
     checked (isObject o') (
     bnd (liftO (asString (lib_realToString L) (jget o' ''txid''))) (\<lambda>txid.
     bnd (liftO (convUInt (jget o' ''vout''))) (\<lambda>vout.
     let entry = (txid, vout) in
     bnd (gets mx_locked) (\<lambda>locked.
     if unlock then
       (if entry \<notin> set locked then throw (JsonRpcException (- 8) ''not locked'')
        else modifies (\<lambda>m. m\<lparr>mx_locked := removeAll entry locked\<rparr>))
     else
       (if entry \<in> set locked then throw (JsonRpcException (- 8) ''already locked'')
        else modifies (\<lambda>m. m\<lparr>mx_locked := List.insert entry locked\<rparr>))))))"

definition mock_lockunspent :: "libs \<Rightarrow> bool \<Rightarrow> json \<Rightarrow> (mock, bool) prog" where
  "mock_lockunspent L unlock outputs =
     checked (isArray outputs) (
     bnd (for_each (lock_one L unlock) (jelems outputs)) (\<lambda>_. ret True))"

definition combine_inputs :: "json list \<Rightarrow> json list \<Rightarrow> json list" where
  "combine_inputs outs curs = map2 (\<lambda>out inp. if is_signed inp then inp else out) outs curs"

definition combine_one :: "string \<Rightarrow> string \<times> json \<Rightarrow> (mock, string \<times> json) prog" where
  "combine_one curName acc =
     (case acc of (outputName, decoded) \<Rightarrow>
      bnd (gets mx_psbts) (\<lambda>psbts.
      bnd (map_at psbts curName) (\<lambda>cur.
      checked (jget decoded ''tx'' = jget cur ''tx'') (
      checked (jget decoded ''outputs'' = jget cur ''outputs'') (
      let outputInputs = jget decoded ''inputs''; curInputs = jget cur ''inputs'' in
      checked (isArray outputInputs) (
      checked (isArray curInputs) (
      checked (length (jelems outputInputs) = length (jelems curInputs)) (
      ret (outputName @ '' + '' @ curName,
           jset ''inputs'' (JArr (combine_inputs (jelems outputInputs) (jelems curInputs))) decoded)))))))))"

definition mock_combinepsbt :: "json \<Rightarrow> (mock, string) prog" where
  "mock_combinepsbt inputPsbts =
     checked (isArray inputPsbts) (
     checked (0 < length (jelems inputPsbts)) (
     let names = map jtext (jelems inputPsbts) in
     bnd (gets mx_psbts) (\<lambda>psbts.
     bnd (map_at psbts (hd names)) (\<lambda>decoded.
     bnd (fold_prog combine_one (tl names) (hd names, decoded)) (\<lambda>(outputName, res).
     bnd (modifies (SetPsbt outputName res)) (\<lambda>_. ret outputName))))))"

definition mock_finalizepsbt :: "string \<Rightarrow> (mock, json) prog" where
  "mock_finalizepsbt psbt =
     bnd (gets mx_psbts) (\<lambda>psbts.
     bnd (map_at psbts psbt) (\<lambda>decoded.
     let inputs = jget decoded ''inputs'' in
     checked (isArray inputs) (
     let complete = list_all is_signed (jelems inputs) in
     ret (jset ''complete'' (JBool complete)
       (if complete then jset ''hex'' (JStr (''rawtx '' @ psbt)) jempty else jset ''psbt'' (JStr psbt) jempty)))))"

section \<open>The mock GSP\<close>

definition SetPending :: "string \<Rightarrow> mock \<Rightarrow> mock" where
  "SetPending btxid m = m\<lparr>mg_btxids := AList.update btxid (jset ''state'' (JStr ''pending'') jempty) (mg_btxids m)\<rparr>"

definition SetConfirmed :: "string \<Rightarrow> uint32 \<Rightarrow> mock \<Rightarrow> mock" where
  "SetConfirmed btxid h m = m\<lparr>mg_btxids := AList.update btxid
     (jset ''height'' (JInt (sint h)) (jset ''state'' (JStr ''confirmed'') jempty)) (mg_btxids m)\<rparr>"

definition mock_checktrade :: "string \<Rightarrow> (mock, json) prog" where
  "mock_checktrade btxid =
     bnd (gets id) (\<lambda>m.
     ret (jset ''data'' (case map_of (mg_btxids m) btxid of
            Some d \<Rightarrow> d | None \<Rightarrow> jset ''state'' (JStr ''unknown'') jempty)
         (jset ''height'' (JInt (sint (mg_currentHeight m))) jempty)))"

section \<open>The test assets\<close>

definition test_IsAsset :: "Asset \<Rightarrow> bool" where
  "test_IsAsset asset \<longleftrightarrow> asset = ''gold'' \<or> asset = ''silver'' \<or> asset = ''bronze''"

definition SetBalance :: "string \<Rightarrow> Asset \<Rightarrow> Amount \<Rightarrow> mock \<Rightarrow> mock" where
  "SetBalance name asset n m =
     m\<lparr>ta_balances := AList.update name (AList.update asset n (case map_of (ta_balances m) name of
        None \<Rightarrow> [] | Some b \<Rightarrow> b)) (ta_balances m)\<rparr>"

definition InitialiseAccount :: "string \<Rightarrow> mock \<Rightarrow> mock" where
  "InitialiseAccount name m =
     (case map_of (ta_balances m) name of
        None \<Rightarrow> m\<lparr>ta_balances := AList.update name [] (ta_balances m)\<rparr> | Some b \<Rightarrow> m)"

definition test_CanSell :: "string \<Rightarrow> Asset \<Rightarrow> Amount \<Rightarrow> (mock, uint256 option) prog" where
  "test_CanSell name asset n =
     bnd (gets id) (\<lambda>m.
     case map_of (ta_balances m) name of
       None \<Rightarrow> ret None
     | Some account \<Rightarrow>
         (case map_of account asset of
            None \<Rightarrow> ret None
          | Some balance \<Rightarrow> if sint n \<le> sint balance then ret (Some (ta_currentHash m)) else ret None))"

definition test_CanBuy :: "string \<Rightarrow> Asset \<Rightarrow> Amount \<Rightarrow> (mock, bool) prog" where
  "test_CanBuy name asset n = gets (\<lambda>m. map_of (ta_balances m) name \<noteq> None)"

definition test_GetTransferMove :: "string \<Rightarrow> string \<Rightarrow> Asset \<Rightarrow> Amount \<Rightarrow> json outcome" where
  "test_GetTransferMove sender receiver asset n =
     Ret (jset ''to'' (JStr receiver) (jset ''asset'' (JStr asset) (jset ''amount'' (JInt (sint n)) jempty)))"

definition TestAssets :: "mock AssetSpec" where
  "TestAssets = \<lparr>GetGameId = ''test'', IsAsset = (\<lambda>asset. ret (test_IsAsset asset)), CanSell = test_CanSell,
     CanBuy = test_CanBuy, GetTransferMove = test_GetTransferMove\<rparr>"

definition mock_env :: "libs \<Rightarrow> mock env" where
  "mock_env L = \<lparr>name_show = mock_name_show, gettxout = mock_gettxout L, getblockheader = mock_getblockheader L,
     decodepsbt = mock_decodepsbt, lockunspent = mock_lockunspent L, getnewaddress = mock_getnewaddress,
     walletcreatefundedpsbt = mock_walletcreatefundedpsbt, createpsbt = mock_createpsbt, namepsbt = mock_namepsbt,
     joinpsbts = (\<lambda>psbts. bnd (gets ex_joinpsbts) (\<lambda>ex. map_at ex psbts)),
     walletprocesspsbt = (\<lambda>psbt. bnd (gets ex_walletprocesspsbt) (\<lambda>ex. map_at ex psbt)),
     combinepsbt = mock_combinepsbt, finalizepsbt = mock_finalizepsbt,
     sendrawtransaction = (\<lambda>hex. bnd (gets ex_sendrawtransaction) (\<lambda>ex. map_at ex hex)),
     checktrade = mock_checktrade, clock_now = gets mock_time,
     ChiAmountToJson = lib_ChiAmountToJson L, ChiAmountFromJson = lib_ChiAmountFromJson L,
     uint256_FromHex = lib_FromHex L, uint256_ToHex = lib_ToHex L, writeString = lib_writeString L,
     realToString = lib_realToString L\<rparr>"

section \<open>Concrete library functions\<close>

text \<open>
  Simple stand-ins for the library functions, to run the mock servers on concrete inputs:
  hashes and their texts are decimal numbers, amounts are exact multiples of a satoshi.
\<close>

fun compact :: "json \<Rightarrow> string" where
  "compact JNull = ''null''"
| "compact (JInt i) = show_int i"
| "compact (JUInt i) = show_int i"
| "compact (JReal r) = ''real''"
| "compact (JStr s) = CHR 0x22 # s @ [CHR 0x22]"
| "compact (JBool b) = (if b then ''true'' else ''false'')"
| "compact (JArr xs) = ''['' @ concat (map (\<lambda>x. compact x @ '','') xs) @ '']''"
| "compact (JObj kvs) = ''{'' @ concat (map (\<lambda>(k, v). k @ '':'' @ compact v @ '','') kvs) @ ''}''"

definition test_libs :: libs where
  "test_libs = \<lparr>lib_SHA256 = (\<lambda>s. word_of_nat (read_nat 0 (drop 6 s))),
     lib_ToHex = (\<lambda>h. show_nat (unat h)),
     lib_FromHex = (\<lambda>s. Some (word_of_nat (read_nat 0 s))),
     lib_ChiAmountToJson = (\<lambda>a. JReal (of_int (sint a) / 100000000)),
     lib_ChiAmountFromJson = (\<lambda>j. case j of JReal r \<Rightarrow> Some (word_of_int (floor (r * 100000000)))
        | JInt i \<Rightarrow> Some (word_of_int (i * 100000000)) | _ \<Rightarrow> None),
     lib_writeString = compact, lib_realToString = (\<lambda>r. ''real'')\<rparr>"

section \<open>The block headers of the mock chain\<close>

text \<open>What the mock chain needs of the hash and of its text.\<close>

locale mock_libs =
  fixes L :: libs
  assumes from_to_hex: "lib_FromHex L (lib_ToHex L h) = Some h"
    and no_collision: "a < 1000 \<Longrightarrow> b < 1000 \<Longrightarrow> GetBlockHash L a = GetBlockHash L b \<Longrightarrow> a = b"
begin

lemma find_height:
  assumes "h < 1000"
  shows "List.find (\<lambda>k. GetBlockHash L h = GetBlockHash L k) [0..<1000] = Some h"
proof -
  have "GetBlockHash L h \<noteq> GetBlockHash L j" if "j < h" for j
    using no_collision [of h j] that assms by auto
  then show ?thesis using assms by (subst find_Some_iff) (intro exI [of _ h], simp)
qed

end

definition mock_known :: "libs \<Rightarrow> uint256 set" where
  "mock_known L = GetBlockHash L ` {..<1000}"

definition mock_parent :: "libs \<Rightarrow> uint256 \<Rightarrow> uint256 option" where
  "mock_parent L hash =
     (case List.find (\<lambda>k. hash = GetBlockHash L k) [0..<1000] of
        Some h \<Rightarrow> if h = 0 then None else Some (GetBlockHash L (h - 1))
      | None \<Rightarrow> None)"

sublocale mock_libs \<subseteq> mock_chain: block_headers "mock_env L" "mock_known L" "mock_parent L"
proof
  fix h
  show "h \<in> mock_known L \<Longrightarrow> uint256_FromHex (mock_env L) (uint256_ToHex (mock_env L) h) = Some h"
    by (simp add: mock_env_def from_to_hex)
next
  fix h w
  assume "h \<in> mock_known L"
  then obtain k where k: "h = GetBlockHash L k" "k < 1000" by (auto simp: mock_known_def)
  then have "getblockheader (mock_env L) (uint256_ToHex (mock_env L) h) w = (Ret (header_json L k), w)"
    by (simp add: mock_env_def mock_getblockheader_def from_to_hex find_height)
  moreover have "jget (header_json L k) ''previousblockhash'' =
      (case mock_parent L h of None \<Rightarrow> JNull | Some p \<Rightarrow> JStr (uint256_ToHex (mock_env L) p))"
    using k by (simp add: header_json_def mock_parent_def find_height mock_env_def Let_def)
  moreover have "isObject (header_json L k)" by (simp add: header_json_def Let_def)
  ultimately show "\<exists>hdr. getblockheader (mock_env L) (uint256_ToHex (mock_env L) h) w = (Ret hdr, w) \<and>
      isObject hdr \<and> jget hdr ''previousblockhash'' =
        (case mock_parent L h of None \<Rightarrow> JNull | Some p \<Rightarrow> JStr (uint256_ToHex (mock_env L) p))" by blast
next
  fix h p
  show "h \<in> mock_known L \<Longrightarrow> mock_parent L h = Some p \<Longrightarrow> p \<in> mock_known L"
    by (auto simp: mock_parent_def mock_known_def find_Some_iff split: option.splits if_splits)
qed

lemma test_GetBlockHash: "GetBlockHash test_libs h = word_of_nat h"
  by (simp add: GetBlockHash_def test_libs_def read_show_nat)

interpretation test: mock_libs test_libs
proof
  show "lib_FromHex test_libs (lib_ToHex test_libs h) = Some h" for h
    by (simp add: test_libs_def read_show_nat)
  show "a < 1000 \<Longrightarrow> b < 1000 \<Longrightarrow> GetBlockHash test_libs a = GetBlockHash test_libs b \<Longrightarrow> a = b" for a b
    by (simp add: test_GetBlockHash word_of_nat_eq_iff take_bit_nat_eq_self)
qed

end
