(* ===== verification/CheckerProps.thy ===== *)
theory CheckerProps
  imports Mock
begin

text \<open>
  The properties of the trade checker, with witnesses on the mock servers: what buyer and
  seller may rely on once a check has passed, and that the checks come to an answer on
  every well-formed transaction.
\<close>

section \<open>Totality on well-formed outputs\<close>

text \<open>
  The outputs of a decoded transaction as Xaya Core describes them: an amount and a script
  that either has no name operation or one whose fields are texts in UTF-8.
\<close>

definition wf_output :: "'w env \<Rightarrow> json \<Rightarrow> bool" where
  "wf_output E out \<longleftrightarrow> isObject out \<and> isObject (jget out ''scriptPubKey'') \<and>
     ChiAmountFromJson E (jget out ''value'') \<noteq> None \<and>
     (let nameOp = jget (jget out ''scriptPubKey'') ''nameOp'' in
      isNull nameOp \<or> (isObject nameOp \<and> isMember nameOp ''name'' \<and> isMember nameOp ''value'' \<and>
        jget nameOp ''name_encoding'' = JStr ''utf8'' \<and> jget nameOp ''value_encoding'' = JStr ''utf8'' \<and>
        isString (jget nameOp ''op'') \<and> isString (jget nameOp ''name'') \<and> isString (jget nameOp ''value'')))"

lemma seller_output_step_total:
  assumes "wf_output E out" "GetNameUpdateValue E sp tc = Ret val"
  shows "\<exists>found'. seller_output_step E sp tc sd amt out found w = (Ret found', w)"
proof (cases found)
  case (Pair fc fn)
  show ?thesis
  proof (cases "isNull (jget (jget out ''scriptPubKey'') ''nameOp'')")
    case True
    with assms Pair show ?thesis
      by (auto simp: seller_output_step_def wf_output_def Let_def MatchesAddress_eq isNull_def split: option.splits)
  next
    case False
    with assms Pair show ?thesis
      by (auto simp: seller_output_step_def wf_output_def Let_def MatchesAddress_eq isString_iff)
  qed
qed

lemma seller_outputs_total:
  assumes "\<forall>out \<in> set outs. wf_output E out" "GetNameUpdateValue E sp tc = Ret val"
  shows "\<exists>found'. fold_prog (seller_output_step E sp tc sd amt) outs found w = (Ret found', w)"
  using assms(1)
proof (induction outs arbitrary: found)
  case (Cons out outs)
  then obtain f1 where "seller_output_step E sp tc sd amt out found w = (Ret f1, w)"
    using seller_output_step_total [OF _ assms(2)] by (metis list.set_intros(1))
  with Cons show ?case by (simp add: bnd_run_Ret)
qed simp

text \<open>A transaction of which all outputs are well-formed.\<close>

definition wf_outputs :: "'w env \<Rightarrow> json \<Rightarrow> bool" where
  "wf_outputs E decoded \<longleftrightarrow> isObject decoded \<and> isObject (jget decoded ''tx'') \<and>
     isArray (jget (jget decoded ''tx'') ''vout'') \<and>
     list_all (wf_output E) (jelems (jget (jget decoded ''tx'') ''vout''))"

lemma CheckForSellerOutputs_total:
  assumes "decodepsbt E psbt w = (Ret decoded, w1)" "wf_outputs E decoded" "GetNameUpdateValue E sp tc = Ret val"
    "has (sd_chi_address sd)" "has (sd_name_address sd)" "0 < sint (tc_units tc)" "0 \<le> sint (tc_price tc)"
  shows "\<exists>b. CheckForSellerOutputs E sp tc psbt sd w = (Ret b, w1)"
proof -
  let ?amt = "tc_price tc * tc_units tc" and ?due = "sint (tc_price tc) * sint (tc_units tc)"
  obtain fc fn where fold: "fold_prog (seller_output_step E sp tc sd ?amt) (jelems (jget (jget decoded ''tx'') ''vout''))
      (?amt = 0, False) w1 = (Ret (fc, fn), w1)"
    using seller_outputs_total [OF _ assms(3)] assms(2) by (fastforce simp: wf_outputs_def list_all_iff)
  have "fits_int64 ?due \<Longrightarrow> 0 \<le> sint ?amt" using assms(6,7) by (simp add: sint64_mult_fits)
  with fold assms show ?thesis
    by (cases "fits_int64 ?due")
       (auto simp add: CheckForSellerOutputs_def wf_outputs_def bnd_run_Ret GetTotalSat_spec Let_def)
qed

section \<open>Properties\<close>

text \<open>
  The total of a trade is computed exactly, or reported as an overflow exactly when the
  product of price and units does not fit into a signed 64-bit integer.
\<close>

theorem total_exact_or_overflow:
  assumes "0 < sint (tc_units tc)"
  shows "\<exists>ok t. GetTotalSat tc s = (Ret (ok, t), s) \<and>
    ok = fits_int64 (sint (tc_price tc) * sint (tc_units tc)) \<and>
    (ok \<longrightarrow> sint t = sint (tc_price tc) * sint (tc_units tc))"
  using assms by (auto simp: GetTotalSat_spec sint64_mult_fits)

definition sample_tc :: TradeChecker where
  "sample_tc = \<lparr>tc_buyer = ''buyer'', tc_seller = ''seller'', tc_asset = ''gold'', tc_price = 10, tc_units = 3\<rparr>"

theorem total_exact_or_overflow_witness:
  "(\<exists>ok t. GetTotalSat sample_tc () = (Ret (ok, t), ()) \<and> ok \<and> sint t = 30) \<and>
   (\<exists>t. GetTotalSat (sample_tc\<lparr>tc_price := 4611686018427387904\<rparr>) () = (Ret (False, t), ()))"
proof
  have "0 < sint (tc_units sample_tc)" by (simp add: sample_tc_def)
  from total_exact_or_overflow [OF this, of "()"]
  show "\<exists>ok t. GetTotalSat sample_tc () = (Ret (ok, t), ()) \<and> ok \<and> sint t = 30"
    by (auto simp: sample_tc_def fits_int64_def)
next
  let ?tc = "sample_tc\<lparr>tc_price := 4611686018427387904\<rparr>"
  have "0 < sint (tc_units ?tc)" by (simp add: sample_tc_def)
  from total_exact_or_overflow [OF this, of "()"]
  show "\<exists>t. GetTotalSat ?tc () = (Ret (False, t), ())" by (auto simp: sample_tc_def fits_int64_def)
qed

subsection \<open>The seller\<close>

text \<open>
  C3: On a well-formed transaction the seller's check always answers, and it accepts exactly
  when the amount due does not overflow, some output pays at least price times units to the
  seller's CHI address (unless nothing is due), and some output is the name update with
  the agreed transfer move, to the seller's name address.
\<close>

theorem seller_outputs_exact:
  assumes "decodepsbt E psbt w = (Ret decoded, w1)" "wf_outputs E decoded" "GetNameUpdateValue E sp tc = Ret val"
    "sd_chi_address sd = Some chi" "sd_name_address sd = Some nm" "0 < sint (tc_units tc)" "0 \<le> sint (tc_price tc)"
  shows "CheckForSellerOutputs E sp tc psbt sd w =
    (let outs = jelems (jget (jget decoded ''tx'') ''vout'');
         due = sint (tc_price tc) * sint (tc_units tc) in
     (Ret (fits_int64 due \<and> (due = 0 \<or> (\<exists>out\<in>set outs. is_chi_payment E chi due out)) \<and>
        (\<exists>out\<in>set outs. is_name_update E (GetXayaName (tc_seller tc)) val nm out)), w1))"
proof -
  from CheckForSellerOutputs_total [OF assms(1-3), of sd] assms(4-7) obtain b where
    b: "CheckForSellerOutputs E sp tc psbt sd w = (Ret b, w1)" by auto
  from CheckForSellerOutputs_spec [OF b] assms show ?thesis by (auto simp: Let_def b)
qed

definition sample_sd :: SellerData where
  "sample_sd = \<lparr>sd_name_address = Some ''addr 1'', sd_chi_address = Some ''addr 2'',
     sd_name_output = Some \<lparr>op_hash = Some ''seller txid'', op_n = Some 12\<rparr>\<rparr>"

definition sample_env :: "mock env" where
  "sample_env = mock_env test_libs"

definition sample_move :: string where
  "sample_move = (case GetNameUpdateValue sample_env TestAssets sample_tc of Ret v \<Rightarrow> v | _ \<Rightarrow> [])"

text \<open>The wallet after the buyer has built the transaction and both parties have signed it.\<close>

definition sample_world :: mock where
  "sample_world = snd (bnd (PrepareConstructTransaction test_libs ''psbt'' ''seller'' 12 sample_sd 30 sample_move) (\<lambda>_.
     bnd (SetSignedPsbt ''partial'' ''psbt'' [''buyer txid'']) (\<lambda>_.
     SetSignedPsbt ''full'' ''partial'' [''seller txid''])) new_mock)"

definition sample_decoded :: "string \<Rightarrow> json" where
  "sample_decoded psbt = dflt JNull (map_of (mx_psbts sample_world) psbt)"

theorem seller_outputs_exact_witness:
  "CheckForSellerOutputs sample_env TestAssets sample_tc ''psbt'' sample_sd sample_world = (Ret True, sample_world)"
proof -
  have d: "decodepsbt sample_env ''psbt'' sample_world = (Ret (sample_decoded ''psbt''), sample_world)"
    by (simp add: sample_env_def mock_env_def mock_decodepsbt_def sample_decoded_def) code_simp
  have wf: "wf_outputs sample_env (sample_decoded ''psbt'')" by code_simp
  have v: "GetNameUpdateValue sample_env TestAssets sample_tc = Ret sample_move" by code_simp
  have sd: "sd_chi_address sample_sd = Some ''addr 2''" "sd_name_address sample_sd = Some ''addr 1''"
    by (simp_all add: sample_sd_def)
  have u: "0 < sint (tc_units sample_tc)" "0 \<le> sint (tc_price sample_tc)" by (simp_all add: sample_tc_def)
  have pay: "\<exists>out\<in>set (jelems (jget (jget (sample_decoded ''psbt'') ''tx'') ''vout'')).
      is_chi_payment sample_env ''addr 2'' 30 out" by code_simp
  have upd: "\<exists>out\<in>set (jelems (jget (jget (sample_decoded ''psbt'') ''tx'') ''vout'')).
      is_name_update sample_env (GetXayaName (tc_seller sample_tc)) sample_move ''addr 1'' out" by code_simp
  from seller_outputs_exact [OF d wf v sd u] pay upd show ?thesis
    by (simp add: Let_def sample_tc_def fits_int64_def)
qed

text \<open>
  When the seller's signature check passes, signing did not touch the transaction itself,
  and it changed no input but the first one that spends the seller's name output.
\<close>

theorem seller_signs_name_input_only:
  assumes "CheckForSellerSignature E beforeStr afterStr sd w = (Ret True, w')"
  shows "\<exists>nmOut before after w1 idx. sd_name_output sd = Some nmOut \<and>
    decodepsbt E beforeStr w = (Ret before, w1) \<and> decodepsbt E afterStr w1 = (Ret after, w') \<and>
    jget before ''tx'' = jget after ''tx'' \<and>
    idx < length (jelems (jget (jget before ''tx'') ''vin'')) \<and>
    spends nmOut (jelems (jget (jget before ''tx'') ''vin'') ! idx) \<and>
    length (jelems (jget before ''inputs'')) = length (jelems (jget after ''inputs'')) \<and>
    (\<forall>j < length (jelems (jget before ''inputs'')). j \<noteq> idx \<longrightarrow>
       jelems (jget before ''inputs'') ! j = jelems (jget after ''inputs'') ! j)"
  using CheckForSellerSignature_spec [OF assms] by (auto simp: Let_def)

theorem seller_signs_name_input_only_witness:
  "\<exists>nmOut before after w1 idx. sd_name_output sample_sd = Some nmOut \<and>
    decodepsbt sample_env ''partial'' sample_world = (Ret before, w1) \<and>
    decodepsbt sample_env ''full'' w1 = (Ret after, sample_world) \<and>
    jget before ''tx'' = jget after ''tx'' \<and>
    idx < length (jelems (jget (jget before ''tx'') ''vin'')) \<and>
    spends nmOut (jelems (jget (jget before ''tx'') ''vin'') ! idx) \<and>
    length (jelems (jget before ''inputs'')) = length (jelems (jget after ''inputs'')) \<and>
    (\<forall>j < length (jelems (jget before ''inputs'')). j \<noteq> idx \<longrightarrow>
       jelems (jget before ''inputs'') ! j = jelems (jget after ''inputs'') ! j)"
proof (rule seller_signs_name_input_only)
  show "CheckForSellerSignature sample_env ''partial'' ''full'' sample_sd sample_world = (Ret True, sample_world)"
    by code_simp
qed

subsection \<open>The buyer\<close>

text \<open>
  The buyer's signature check passes exactly when signing left the transaction alone and
  changed every input except one (the seller's name input, which the buyer cannot sign).
\<close>

theorem buyer_signs_all_but_one:
  assumes "CheckForBuyerSignature E beforeStr afterStr w = (Ret b, w')"
  shows "\<exists>before after w1. decodepsbt E beforeStr w = (Ret before, w1) \<and>
    decodepsbt E afterStr w1 = (Ret after, w') \<and> jget before ''tx'' = jget after ''tx'' \<and>
    (b \<longleftrightarrow> (\<exists>!i. i < length (jelems (jget before ''inputs'')) \<and>
       jelems (jget before ''inputs'') ! i = jelems (jget after ''inputs'') ! i))"
  using CheckForBuyerSignature_spec [OF assms] by (auto simp: Let_def)

theorem buyer_signs_all_but_one_witness:
  "\<exists>before after w1. decodepsbt sample_env ''psbt'' sample_world = (Ret before, w1) \<and>
    decodepsbt sample_env ''partial'' w1 = (Ret after, sample_world) \<and> jget before ''tx'' = jget after ''tx'' \<and>
    (True \<longleftrightarrow> (\<exists>!i. i < length (jelems (jget before ''inputs'')) \<and>
       jelems (jget before ''inputs'') ! i = jelems (jget after ''inputs'') ! i))"
proof (rule buyer_signs_all_but_one)
  show "CheckForBuyerSignature sample_env ''psbt'' ''partial'' sample_world = (Ret True, sample_world)"
    by code_simp
qed

text \<open>
  On a chain of block headers, the ancestor test answers (within its bounded number of
  steps) exactly whether the one block is the other or at most that many blocks before it.
\<close>

theorem ancestor_within_bound:
  assumes "block_headers E known par" "child \<in> known"
  shows "IsBlockAncestor E ancestor child n w = (Ret (\<exists>k\<le>n. nth_parent par k child = Some ancestor), w)"
  using assms by (rule block_headers.IsBlockAncestor_eq)

theorem ancestor_within_bound_witness:
  "IsBlockAncestor (mock_env test_libs) 7 9 3 new_mock
     = (Ret (\<exists>k\<le>3. nth_parent (mock_parent test_libs) k 9 = Some 7), new_mock)"
proof (rule ancestor_within_bound)
  show "block_headers (mock_env test_libs) (mock_known test_libs) (mock_parent test_libs)"
    by (rule test.mock_chain.block_headers_axioms)
  have "GetBlockHash test_libs 9 = 9" by (simp add: test_GetBlockHash)
  then show "9 \<in> mock_known test_libs" unfolding mock_known_def by (intro image_eqI [of _ _ 9]) simp_all
qed

text \<open>
  C4: A trade passes the buyer's check only for a known asset that the buyer may receive, a
  name output of the seller that is unspent, and a seller whose assets the game confirms in
  a block that has the block of the unspent output as itself or within its last three
  ancestors. So the name output that is going to be spent is as recent as the proof of
  the seller's assets.
\<close>

theorem buyer_trade_safe:
  assumes "block_headers E known par" "CheckForBuyerTrade E sp tc w = (Ret (Some nameIn), w')"
  shows "\<exists>w1 w2 w3 w4 w5 utxo utxoBlock gspBlock. IsAsset sp (tc_asset tc) w = (Ret True, w1) \<and>
    CanBuy sp (tc_buyer tc) (tc_asset tc) (tc_units tc) w1 = (Ret True, w2) \<and>
    GetNameOutPoint E (tc_seller tc) w2 = (Ret nameIn, w3) \<and>
    gettxout E (JArr [JStr (dflt [] (op_hash nameIn)), JUInt (uint (dflt 0 (op_n nameIn)))]) w3 = (Ret utxo, w4) \<and>
    utxo \<noteq> JNull \<and> uint256_FromHex E (jtext (jget utxo ''bestblock'')) = Some utxoBlock \<and>
    CanSell sp (tc_seller tc) (tc_asset tc) (tc_units tc) w4 = (Ret (Some gspBlock), w5) \<and>
    (gspBlock \<in> known \<longrightarrow> (\<exists>k\<le>3. nth_parent par k gspBlock = Some utxoBlock))"
proof -
  from assms(2) obtain w1 w2 w3 w4 w5 utxo utxoBlock gspBlock where
      steps: "IsAsset sp (tc_asset tc) w = (Ret True, w1)"
        "CanBuy sp (tc_buyer tc) (tc_asset tc) (tc_units tc) w1 = (Ret True, w2)"
        "GetNameOutPoint E (tc_seller tc) w2 = (Ret nameIn, w3)"
        "gettxout E (JArr [JStr (dflt [] (op_hash nameIn)), JUInt (uint (dflt 0 (op_n nameIn)))]) w3 = (Ret utxo, w4)"
        "utxo \<noteq> JNull" "uint256_FromHex E (jtext (jget utxo ''bestblock'')) = Some utxoBlock"
        "CanSell sp (tc_seller tc) (tc_asset tc) (tc_units tc) w4 = (Ret (Some gspBlock), w5)"
    and anc: "IsBlockAncestor E utxoBlock gspBlock MAX_BLOCK_ANCESTORS_CHECKED w5 = (Ret True, w')"
    by (auto simp: CheckForBuyerTrade_def prog_inv Let_def isNull_def split: if_splits option.splits)
  have "\<exists>k\<le>3. nth_parent par k gspBlock = Some utxoBlock" if "gspBlock \<in> known"
    using anc block_headers.IsBlockAncestor_eq [OF assms(1) that, of utxoBlock MAX_BLOCK_ANCESTORS_CHECKED w5]
    by (simp add: MAX_BLOCK_ANCESTORS_CHECKED_def)
  with steps show ?thesis by blast
qed

definition buyer_world :: mock where
  "buyer_world = (SetBestBlock 9 (AddUtxo ''seller txid'' 12 (SetBalance ''seller'' ''gold'' 5
     (InitialiseAccount ''buyer'' sample_world))))\<lparr>ta_currentHash := 9\<rparr>"

theorem buyer_trade_safe_witness:
  "\<exists>w1 w2 w3 w4 w5 utxo utxoBlock gspBlock. IsAsset TestAssets ''gold'' buyer_world = (Ret True, w1) \<and>
    CanBuy TestAssets ''buyer'' ''gold'' 3 w1 = (Ret True, w2) \<and>
    GetNameOutPoint sample_env ''seller'' w2 = (Ret \<lparr>op_hash = Some ''seller txid'', op_n = Some 12\<rparr>, w3) \<and>
    gettxout sample_env (JArr [JStr ''seller txid'', JUInt 12]) w3 = (Ret utxo, w4) \<and>
    utxo \<noteq> JNull \<and> uint256_FromHex sample_env (jtext (jget utxo ''bestblock'')) = Some utxoBlock \<and>
    CanSell TestAssets ''seller'' ''gold'' 3 w4 = (Ret (Some gspBlock), w5) \<and>
    (gspBlock \<in> mock_known test_libs \<longrightarrow> (\<exists>k\<le>3. nth_parent (mock_parent test_libs) k gspBlock = Some utxoBlock))"
proof -
  have "CheckForBuyerTrade sample_env TestAssets sample_tc buyer_world
      = (Ret (Some \<lparr>op_hash = Some ''seller txid'', op_n = Some 12\<rparr>), buyer_world)"
    by code_simp
  from buyer_trade_safe [OF test.mock_chain.block_headers_axioms this [unfolded sample_env_def]]
  show ?thesis by (simp add: sample_tc_def sample_env_def)
qed

end
