(* ===== verification/TradeProps.thy ===== *)
theory TradeProps
  imports ManagerRuns CheckerProps
begin

text \<open>
  The properties of a single trade, with witnesses from a sale that is played through on the
  mock servers: \<^verbatim>\<open>seller\<close> is the maker of an ask, \<^verbatim>\<open>buyer\<close> takes three units of it.
\<close>

section \<open>A sale on the mock servers\<close>

definition sample_tm :: "mock TradeManager" where
  "sample_tm = \<lparr>tm_env = sample_env, tm_spec = TestAssets,
     tm_flags = default_flags\<lparr>democrit_feerate_wo_names := 100\<rparr>, tm_myOrders = base_virtual\<rparr>"

definition sample_order :: Order where
  "sample_order = empty_order\<lparr>order_account := Some ''seller'', order_id := Some 7, order_asset := Some ''gold'',
     order_max_units := Some 5, order_type := Some ASK, order_price_sat := Some 10\<rparr>"

definition buyer_trade :: TradeState where
  "buyer_trade = new_trade sample_order 1000 3 ''seller''"

definition seller_trade :: TradeState where
  "seller_trade = new_trade sample_order 1000 3 ''buyer''"

text \<open>The messages between the two.\<close>

definition sample_msg :: "string \<Rightarrow> ProcessingMessage" where
  "sample_msg other = empty_pm\<lparr>pm_counterparty := Some other, pm_identifier := Some (GetIdentifier buyer_trade)\<rparr>"

definition data_msg :: ProcessingMessage where
  "data_msg = (sample_msg ''seller'')\<lparr>pm_seller_data := Some (sample_sd\<lparr>sd_name_output := None\<rparr>)\<rparr>"

definition psbt_msg :: ProcessingMessage where
  "psbt_msg = (sample_msg ''buyer'')\<lparr>pm_psbt := Some \<lparr>tp_psbt = Some ''partial''\<rparr>\<rparr>"

definition sale_world :: mock where
  "sale_world = buyer_world\<lparr>ex_sendrawtransaction := [(''rawtx full'', ''txid'')]\<rparr>"

text \<open>The buyer after the seller's data has arrived.\<close>

definition buyer_pending :: TradeState where
  "buyer_pending = (HandleMessage ''buyer'' data_msg buyer_trade)\<lparr>ts_our_psbt := Some ''partial'', ts_state := Some PENDING\<rparr>"

lemma buyer_replies:
  "HasReply sample_tm ''buyer'' (HandleMessage ''buyer'' data_msg buyer_trade, sale_world)
     = (Ret (Some ((sample_msg ''seller'')\<lparr>pm_psbt := Some \<lparr>tp_psbt = Some ''partial''\<rparr>\<rparr>)), (buyer_pending, sale_world))"
  by code_simp

text \<open>The seller creates its data, and later signs and broadcasts.\<close>

definition seller_ready :: TradeState where
  "seller_ready = seller_trade\<lparr>ts_seller_data := Some sample_sd\<rparr>"

definition seller_pending :: TradeState where
  "seller_pending = seller_ready\<lparr>ts_their_psbt := Some ''partial'', ts_our_psbt := Some ''full'', ts_state := Some PENDING\<rparr>"

lemma seller_sends_data:
  "HasReply sample_tm ''seller'' (HandleMessage ''seller'' (sample_msg ''buyer'') seller_trade, sale_world)
     = (Ret (Some ((sample_msg ''buyer'')\<lparr>pm_seller_data := Some (sample_sd\<lparr>sd_name_output := None\<rparr>)\<rparr>)),
        (seller_ready, sale_world\<lparr>mx_addrCount := 2, mx_locked := (''seller txid'', 12) # mx_locked sale_world\<rparr>))"
  by code_simp

lemma seller_finishes:
  "HasReply sample_tm ''seller'' (HandleMessage ''seller'' psbt_msg seller_ready, sale_world)
     = (Ret None, (seller_pending, sale_world))"
  by code_simp

text \<open>The two steps of the seller and the step of the buyer.\<close>

lemma sale_steps:
  "trade_step sample_tm ''seller'' (Received (sample_msg ''buyer'')
     (Some ((sample_msg ''buyer'')\<lparr>pm_seller_data := Some (sample_sd\<lparr>sd_name_output := None\<rparr>)\<rparr>))) seller_trade seller_ready"
  "trade_step sample_tm ''seller'' (Received psbt_msg None) seller_ready seller_pending"
  "trade_step sample_tm ''buyer'' (Received data_msg
     (Some ((sample_msg ''seller'')\<lparr>pm_psbt := Some \<lparr>tp_psbt = Some ''partial''\<rparr>\<rparr>))) buyer_trade buyer_pending"
  using trade_step.received [OF seller_sends_data] trade_step.received [OF seller_finishes]
    trade_step.received [OF buyer_replies] by (simp_all add: sent_of_def)

lemma fresh_sample: "fresh_trade buyer_trade" "fresh_trade seller_trade"
  by (simp_all add: buyer_trade_def seller_trade_def fresh_new_trade)

section \<open>Both sides of a trade\<close>

text \<open>
  Maker and taker of a trade take opposite sides of it, use the same identifier for it, and
  build the same checker: they verify the same buyer, seller, asset, units and price, and
  hence expect the same transfer move in the transaction.
\<close>

theorem parties_agree:
  assumes "mirrored maker taker pbM pbT"
  shows "GetOrderType maker pbM \<noteq> GetOrderType taker pbT \<and> GetIdentifier pbM = GetIdentifier pbT \<and>
    BuildTradeChecker maker pbM = BuildTradeChecker taker pbT"
  using mirrored_roles [OF assms] by blast

theorem parties_agree_witness:
  "GetOrderType ''seller'' seller_trade \<noteq> GetOrderType ''buyer'' buyer_trade \<and>
   GetIdentifier seller_trade = GetIdentifier buyer_trade \<and>
   BuildTradeChecker ''seller'' seller_trade = BuildTradeChecker ''buyer'' buyer_trade"
proof (rule parties_agree)
  show "mirrored ''seller'' ''buyer'' seller_trade buyer_trade"
    by (simp add: mirrored_def seller_trade_def buyer_trade_def sample_order_def)
qed

text \<open>
  The identifier of a trade tells apart any two orders: since account names have no line
  breaks, equal identifiers mean the same maker and the same order ID.
\<close>

theorem identifier_unique:
  assumes "CHR 0x0A \<notin> set (ord_account a)" "CHR 0x0A \<notin> set (ord_account b)"
  shows "GetIdentifier a = GetIdentifier b \<longleftrightarrow> ord_account a = ord_account b \<and> ord_id a = ord_id b"
  using assms by (rule GetIdentifier_inject)

theorem identifier_unique_witness:
  "GetIdentifier buyer_trade \<noteq> GetIdentifier (new_trade (sample_order\<lparr>order_id := Some 77\<rparr>) 1000 3 ''seller'')"
  using identifier_unique [of buyer_trade "new_trade (sample_order\<lparr>order_id := Some 77\<rparr>) 1000 3 ''seller''"]
  by (simp add: buyer_trade_def sample_order_def)

section \<open>The life of a trade\<close>

text \<open>
  Whatever messages arrive and whatever the blockchain does, a trade that was started
  properly stays consistent: once it is pending it has our PSBT, an unfinished or abandoned
  trade has a signature of ours only if we are the maker, and the seller's data is complete.
\<close>

theorem trade_consistent:
  assumes "fresh_trade pb" "runs (trade_step TM account) pb es pb'"
  shows "trade_inv account pb'"
  using assms by (blast intro: trade_runs_inv fresh_trade_inv)

theorem trade_consistent_witness: "trade_inv ''seller'' seller_pending"
proof (rule trade_consistent)
  show "fresh_trade seller_trade" by (rule fresh_sample)
  show "runs (trade_step sample_tm ''seller'') seller_trade
    [Received (sample_msg ''buyer'') (Some ((sample_msg ''buyer'')\<lparr>pm_seller_data := Some (sample_sd\<lparr>sd_name_output := None\<rparr>)\<rparr>)),
     Received psbt_msg None] seller_pending"
    using sale_steps(1,2) by (auto simp: runs_cons_iff)
qed

text \<open>
  C17: A trade only moves forward: its terms never change, its state goes from initiated to
  pending or abandoned and from pending to success or failed and never back, and seller
  data and PSBTs, once there, are never replaced.
\<close>

theorem trade_moves_forward:
  assumes "runs (trade_step TM account) pb es pb'"
  shows "terms pb' = terms pb \<and> may_become (status pb) (status pb') \<and> kept (ts_seller_data pb) (ts_seller_data pb') \<and>
    kept (ts_our_psbt pb) (ts_our_psbt pb') \<and> kept (ts_their_psbt pb) (ts_their_psbt pb')"
  using trade_runs_forward [OF assms] by (simp add: forward_def)

theorem trade_moves_forward_witness:
  "terms seller_pending = terms seller_ready \<and> may_become INITIATED PENDING \<and>
   kept (ts_seller_data seller_ready) (ts_seller_data seller_pending)"
proof -
  have "runs (trade_step sample_tm ''seller'') seller_ready [Received psbt_msg None] seller_pending"
    using sale_steps(2) by (auto simp: runs_cons_iff)
  from trade_moves_forward [OF this] show ?thesis by simp
qed

text \<open>
  C16: A taker who has sent a PSBT is committed: from that message on the trade is pending or
  has succeeded or failed, and its own PSBT is the one that was sent. So a trade is never
  abandoned (and its coins released) after the signature left the wallet.
\<close>

theorem taker_signature_commits:
  assumes "fresh_trade pb" "runs (trade_step TM account) pb (es @ e # fs) pb'"
    "GetRole account pb = TAKER" "sent_psbt e = Some p"
  shows "status pb' \<in> {PENDING, SUCCESS, FAILED} \<and> ts_our_psbt pb' = Some p"
proof -
  from assms(2) obtain s1 s2 where r: "runs (trade_step TM account) pb es s1" "trade_step TM account e s1 s2"
      "runs (trade_step TM account) s2 fs pb'" by (auto simp: runs_append_iff runs_cons_iff)
  have "trade_inv account s1" using r(1) fresh_trade_inv [OF assms(1)] by (rule trade_runs_inv)
  moreover have "GetRole account s1 = TAKER"
    using trade_runs_forward [OF r(1)] assms(3) by (simp add: forward_def terms_def GetRole_def)
  ultimately have "ts_our_psbt s2 = Some p" "status s2 = PENDING" using psbt_sent [OF r(2) assms(4)] by auto
  with trade_runs_forward [OF r(3)] show ?thesis by (auto simp: forward_def kept_def)
qed

theorem taker_signature_commits_witness:
  "status buyer_pending \<in> {PENDING, SUCCESS, FAILED} \<and> ts_our_psbt buyer_pending = Some ''partial''"
proof (rule taker_signature_commits)
  let ?m = "(sample_msg ''seller'')\<lparr>pm_psbt := Some \<lparr>tp_psbt = Some ''partial''\<rparr>\<rparr>"
  show "fresh_trade buyer_trade" by (rule fresh_sample)
  show "runs (trade_step sample_tm ''buyer'') buyer_trade ([] @ Received data_msg (Some ?m) # []) buyer_pending"
    using sale_steps(3) by (auto simp: runs_cons_iff)
  show "GetRole ''buyer'' buyer_trade = TAKER" by (simp add: GetRole_def buyer_trade_def sample_order_def)
  show "sent_psbt (Received data_msg (Some ?m)) = Some ''partial''" by simp
qed

text \<open>
  In its whole life a trade sends at most one message with a PSBT and at most one message
  with seller data.
\<close>

theorem sends_at_most_once:
  assumes "fresh_trade pb" "runs (trade_step TM account) pb es pb'"
  shows "length (filter (\<lambda>e. sent_psbt e \<noteq> None) es) \<le> 1 \<and>
    length (filter (\<lambda>e. sent_seller_data e \<noteq> None) es) \<le> 1"
  using psbt_count [OF assms(2) fresh_trade_inv [OF assms(1)]] seller_data_count [OF assms(2)] assms(1)
  by (simp add: fresh_trade_def)

theorem sends_at_most_once_witness:
  "length (filter (\<lambda>e. sent_psbt e \<noteq> None) [Received data_msg (Some ((sample_msg ''seller'')\<lparr>pm_psbt := Some \<lparr>tp_psbt = Some ''partial''\<rparr>\<rparr>))]) \<le> 1"
proof -
  have "runs (trade_step sample_tm ''buyer'') buyer_trade
      [Received data_msg (Some ((sample_msg ''seller'')\<lparr>pm_psbt := Some \<lparr>tp_psbt = Some ''partial''\<rparr>\<rparr>))] buyer_pending"
    using sale_steps(3) by (auto simp: runs_cons_iff)
  from sends_at_most_once [OF fresh_sample(1) this] show ?thesis by blast
qed

section \<open>What is signed\<close>

lemma newly_signed:
  assumes "HasReply TM account (pb, w) = (r, (pb', w'))" "ts_our_psbt pb = None" "ts_our_psbt pb' = Some psbt"
  obtains w1 w2 where "has (ts_seller_data pb)" "our_signature TM account pb w1 psbt w2"
  using HasReply_unfold [OF assms(1)]
proof (elim disjE)
  assume "status pb = INITIATED \<and> has (ts_seller_data pb) \<and> (\<exists>w1. sign_and_finish TM account (pb, w1) = (r, pb', w'))"
  then obtain w1 where sd: "has (ts_seller_data pb)" and s: "sign_and_finish TM account (pb, w1) = (r, pb', w')" by blast
  from sign_and_finish_or [OF s] assms(2,3) have "\<exists>w2. our_signature TM account pb w1 psbt w2"
    by (auto simp: our_signature_def; blast)
  with sd that show thesis by blast
qed (use assms(2,3) in auto)



text \<open>
  C2: The signed transaction of a buyer is always one that the buyer built itself for a trade
  the seller can fulfil: it was joined from a payment of exactly price times units (which does
  not overflow) to the seller's CHI address and the name update with the agreed move.
\<close>

theorem buyer_signs_own_transaction:
  assumes "HasReply TM account (pb, w) = (r, (pb', w'))" "GetOrderType account pb = BID"
    "ts_our_psbt pb = None" "ts_our_psbt pb' = Some psbt"
  shows "\<exists>sd nameIn chiPart namePart bare t w1 w2 w3 w4 w5 w6 w7.
    ts_seller_data pb = Some sd \<and>
    (let E = tm_env TM; tc = BuildTradeChecker account pb in
     CheckForBuyerTrade E (tm_spec TM) tc w1 = (Ret (Some nameIn), w2) \<and>
     sint t = sint (tc_price tc) * sint (tc_units tc) \<and>
     FundPayment E (tm_flags TM) sd t w2 = (Ret chiPart, w3) \<and>
     NameOperation E (tm_spec TM) tc sd (counterparty pb) nameIn w3 = (Ret namePart, w4) \<and>
     joinpsbts E (JArr [JStr chiPart, JStr namePart]) w4 = (Ret bare, w5) \<and>
     SignPsbt E bare w5 = (Ret (psbt, False), w6) \<and>
     CheckForBuyerSignature E bare psbt w6 = (Ret True, w7))"
proof -
  let ?tc = "BuildTradeChecker account pb"
  from newly_signed [OF assms(1,3,4)] obtain w0 w7 where "has (ts_seller_data pb)"
      "our_signature TM account pb w0 psbt w7" .
  then obtain sd nameIn bare w1 w2 w3 where sd: "ts_seller_data pb = Some sd"
    and b: "CheckForBuyerTrade (tm_env TM) (tm_spec TM) ?tc w0 = (Ret (Some nameIn), w1)"
      "ConstructTransaction TM account pb ?tc nameIn w1 = (Ret bare, w2)"
      "SignPsbt (tm_env TM) bare w2 = (Ret (psbt, False), w3)"
      "CheckForBuyerSignature (tm_env TM) bare psbt w3 = (Ret True, w7)"
    using assms(2) by (auto simp: our_signature_def buyer_signed_def has_iff)
  from b(2) sd obtain chiPart namePart w4 w5 where
      fits: "fits_int64 (sint (tc_price ?tc) * sint (tc_units ?tc))"
    and c: "FundPayment (tm_env TM) (tm_flags TM) sd (tc_price ?tc * tc_units ?tc) w1 = (Ret chiPart, w4)"
      "NameOperation (tm_env TM) (tm_spec TM) ?tc sd (counterparty pb) nameIn w4 = (Ret namePart, w5)"
      "joinpsbts (tm_env TM) (JArr [JStr chiPart, JStr namePart]) w5 = (Ret bare, w2)"
    by (auto simp: ConstructTransaction_def GetTotalSat_spec prog_inv Let_def split: if_splits)
  note sint64_mult_fits [OF fits]
  with sd b(1,3,4) c show ?thesis unfolding Let_def by blast
qed

theorem buyer_signs_own_transaction_witness:
  "\<exists>sd nameIn chiPart namePart bare t w1 w2 w3 w4 w5 w6 w7.
    ts_seller_data (HandleMessage ''buyer'' data_msg buyer_trade) = Some sd \<and>
    (let E = tm_env sample_tm; tc = BuildTradeChecker ''buyer'' (HandleMessage ''buyer'' data_msg buyer_trade) in
     CheckForBuyerTrade E (tm_spec sample_tm) tc w1 = (Ret (Some nameIn), w2) \<and>
     sint t = sint (tc_price tc) * sint (tc_units tc) \<and>
     FundPayment E (tm_flags sample_tm) sd t w2 = (Ret chiPart, w3) \<and>
     NameOperation E (tm_spec sample_tm) tc sd (counterparty (HandleMessage ''buyer'' data_msg buyer_trade)) nameIn w3
       = (Ret namePart, w4) \<and>
     joinpsbts E (JArr [JStr chiPart, JStr namePart]) w4 = (Ret bare, w5) \<and>
     SignPsbt E bare w5 = (Ret (''partial'', False), w6) \<and>
     CheckForBuyerSignature E bare ''partial'' w6 = (Ret True, w7))"
proof (rule buyer_signs_own_transaction [OF buyer_replies])
  show "GetOrderType ''buyer'' (HandleMessage ''buyer'' data_msg buyer_trade) = BID" by code_simp
  show "ts_our_psbt (HandleMessage ''buyer'' data_msg buyer_trade) = None" by code_simp
  show "ts_our_psbt buyer_pending = Some ''partial''" by (simp add: buyer_pending_def)
qed

text \<open>
  A maker never sends a signed PSBT: the only PSBT message of a maker is the buyer's, with
  the transaction as it was before the wallet signed it.
\<close>

theorem maker_sends_unsigned_only:
  assumes "fresh_trade pb" "runs (trade_step TM account) pb (es @ [e]) pb'"
    "GetRole account pb = MAKER" "sent_psbt e = Some p"
  shows "GetOrderType account pb = BID \<and>
    (\<exists>pb1 psbt w w'. terms pb1 = terms pb \<and> ts_our_psbt pb' = Some psbt \<and> buyer_signed TM account pb1 w p psbt w')"
proof -
  from assms(2) obtain s1 where r: "runs (trade_step TM account) pb es s1" "trade_step TM account e s1 pb'"
    by (auto simp: runs_append_iff runs_cons_iff)
  have inv: "trade_inv account s1" using r(1) fresh_trade_inv [OF assms(1)] by (rule trade_runs_inv)
  have t: "terms s1 = terms pb" using trade_runs_forward [OF r(1)] by (simp add: forward_def)
  then have v: "GetRole account s1 = MAKER" "GetOrderType account s1 = GetOrderType account pb"
    using assms(3) by (simp_all add: terms_def GetRole_def GetOrderType_def)
  from psbt_sent [OF r(2) assms(4) inv] v t show ?thesis by auto
qed

text \<open>The same sale with the buyer as the maker of a bid.\<close>

definition bid_trade :: TradeState where
  "bid_trade = new_trade (sample_order\<lparr>order_account := Some ''buyer'', order_type := Some BID\<rparr>) 1000 3 ''seller''"

definition bid_signed :: TradeState where
  "bid_signed = (HandleMessage ''buyer'' data_msg bid_trade)\<lparr>ts_our_psbt := Some ''partial''\<rparr>"

definition bid_reply :: ProcessingMessage where
  "bid_reply = (InitProcessingMessage bid_trade)\<lparr>pm_psbt := Some \<lparr>tp_psbt = Some ''psbt''\<rparr>\<rparr>"

lemma bid_step: "trade_step sample_tm ''buyer'' (Received data_msg (Some bid_reply)) bid_trade bid_signed"
proof -
  have "HasReply sample_tm ''buyer'' (HandleMessage ''buyer'' data_msg bid_trade, sale_world)
      = (Ret (Some bid_reply), (bid_signed, sale_world))" by code_simp
  from trade_step.received [OF this] show ?thesis by (simp add: sent_of_def)
qed

theorem maker_sends_unsigned_only_witness:
  "GetOrderType ''buyer'' bid_trade = BID \<and>
    (\<exists>pb1 psbt w w'. terms pb1 = terms bid_trade \<and> ts_our_psbt bid_signed = Some psbt \<and>
       buyer_signed sample_tm ''buyer'' pb1 w ''psbt'' psbt w')"
proof (rule maker_sends_unsigned_only)
  show "fresh_trade bid_trade" by (simp add: bid_trade_def fresh_new_trade)
  show "runs (trade_step sample_tm ''buyer'') bid_trade ([] @ [Received data_msg (Some bid_reply)]) bid_signed"
    using bid_step by (auto simp: runs_cons_iff)
  show "GetRole ''buyer'' bid_trade = MAKER" by (simp add: GetRole_def bid_trade_def sample_order_def)
  show "sent_psbt (Received data_msg (Some bid_reply)) = Some ''psbt''" by (simp add: bid_reply_def)
qed

section \<open>Updates from the blockchain\<close>

text \<open>
  A trade that is still being initiated is abandoned exactly when more time than the
  timeout has passed since its start; otherwise the update leaves it alone.
\<close>

theorem initiated_times_out:
  assumes "status pb = INITIATED" "clock_now (tm_env TM) w = (Ret nanos, w')"
  shows "Update TM (pb, w) = (Ret (),
    (if sint (democrit_trade_timeout_ms (tm_flags TM)) < (nanos sdiv 1000000000 - dflt 0 (ts_start_time pb)) * 1000
     then pb\<lparr>ts_state := Some ABANDONED\<rparr> else pb, w'))"
  using assms
  by (auto simp: Update_def GetCurrentTime_def GetTradeTimeout_def set_state_def bnd_run_Ret onW_def bnd_def)

theorem initiated_times_out_witness:
  "Update sample_tm (buyer_trade, sale_world\<lparr>mock_time := 1031000000000\<rparr>)
     = (Ret (), (buyer_trade\<lparr>ts_state := Some ABANDONED\<rparr>, sale_world\<lparr>mock_time := 1031000000000\<rparr>)) \<and>
   Update sample_tm (buyer_trade, sale_world\<lparr>mock_time := 1030999999999\<rparr>)
     = (Ret (), (buyer_trade, sale_world\<lparr>mock_time := 1030999999999\<rparr>))"
proof
  have st: "status buyer_trade = INITIATED" "dflt 0 (ts_start_time buyer_trade) = 1000"
    by (simp_all add: buyer_trade_def new_trade_def)
  have clock: "clock_now (tm_env sample_tm) (sale_world\<lparr>mock_time := n\<rparr>) = (Ret n, sale_world\<lparr>mock_time := n\<rparr>)" for n
    by (simp add: sample_tm_def sample_env_def mock_env_def)
  have fl: "sint (democrit_trade_timeout_ms (tm_flags sample_tm)) = 30000" by (simp add: sample_tm_def default_flags_def)
  show "Update sample_tm (buyer_trade, sale_world\<lparr>mock_time := 1031000000000\<rparr>)
     = (Ret (), (buyer_trade\<lparr>ts_state := Some ABANDONED\<rparr>, sale_world\<lparr>mock_time := 1031000000000\<rparr>))"
    using initiated_times_out [OF st(1) clock [of 1031000000000]] by (simp add: st fl)
  show "Update sample_tm (buyer_trade, sale_world\<lparr>mock_time := 1030999999999\<rparr>)
     = (Ret (), (buyer_trade, sale_world\<lparr>mock_time := 1030999999999\<rparr>))"
    using initiated_times_out [OF st(1) clock [of 1030999999999]] by (simp add: st fl)
qed

text \<open>
  C32: A pending trade becomes a success only when the GSP reports its transaction as confirmed
  with at least the configured number of confirmations; the 64-bit sum of the code
  computes this without wrap-around.
\<close>

theorem success_is_confirmed:
  assumes "Update TM (pb, w) = (r, (pb', w'))" "status pb = PENDING" "status pb' = SUCCESS"
    "0 \<le> sint (democrit_confirmations (tm_flags TM))"
  shows "\<exists>ours decoded check w1 w2. ts_our_psbt pb = Some ours \<and>
    decodepsbt (tm_env TM) ours w = (Ret decoded, w1) \<and>
    checktrade (tm_env TM) (jtext (jget (jget decoded ''tx'') ''btxid'')) w1 = (Ret check, w2) \<and>
    jget (jget check ''data'') ''state'' = JStr ''confirmed'' \<and>
    jnum (jget (jget check ''data'') ''height'') + sint (democrit_confirmations (tm_flags TM))
      \<le> jnum (jget check ''height'') + 1"
proof -
  from Update_or [OF assms(1)] assms(2,3) obtain ours where ours: "ts_our_psbt pb = Some ours"
    and u: "UpdatePending (tm_env TM) (tm_flags TM) ours (pb, w) = (r, (pb', w'))" by auto
  from UpdatePending_or [OF u] assms(2,3) obtain tx cur dat w1 where
      q: "QueryTrade (tm_env TM) ours w = (Ret (tx, cur, dat), w1)" and c: "confirmed_deep (tm_flags TM) cur dat"
    by auto
  from QueryTrade_Ret [OF q] obtain decoded check w2 where
      d: "decodepsbt (tm_env TM) ours w = (Ret decoded, w2)" "tx = jget decoded ''tx''"
        "checktrade (tm_env TM) (jtext (jget tx ''btxid'')) w2 = (Ret check, w1)" "isUInt (jget check ''height'')"
        "cur = ucast (asUInt (jget check ''height''))" "dat = jget check ''data''" "isString (jget dat ''state'')" by blast
  from c d have "jget dat ''state'' = JStr ''confirmed''" by (auto simp: confirmed_deep_def isString_iff)
  moreover from c d(5) have "isUInt (jget dat ''height'')"
    "uint (asUInt (jget dat ''height'')) + sint (democrit_confirmations (tm_flags TM)) \<le> uint (asUInt (jget check ''height'')) + 1"
    by (auto simp: confirmed_deep_def is_final_iff [OF assms(4)])
  ultimately show ?thesis using ours d by (auto simp: uint_asUInt)
qed

definition confirmed_world :: mock where
  "confirmed_world = (SetConfirmed ''btx'' 10 (SetPsbt ''partial''
     (jset ''tx'' (jset ''btxid'' (JStr ''btx'') (jset ''vin'' (JArr [input_json ''gone'' 1]) jempty)) jempty) sale_world))
     \<lparr>mg_currentHeight := 15\<rparr>"

theorem success_is_confirmed_witness:
  "\<exists>ours decoded check w1 w2. ts_our_psbt buyer_pending = Some ours \<and>
    decodepsbt (tm_env sample_tm) ours confirmed_world = (Ret decoded, w1) \<and>
    checktrade (tm_env sample_tm) (jtext (jget (jget decoded ''tx'') ''btxid'')) w1 = (Ret check, w2) \<and>
    jget (jget check ''data'') ''state'' = JStr ''confirmed'' \<and>
    jnum (jget (jget check ''data'') ''height'') + sint (democrit_confirmations (tm_flags sample_tm))
      \<le> jnum (jget check ''height'') + 1"
proof (rule success_is_confirmed)
  show "Update sample_tm (buyer_pending, confirmed_world)
      = (Ret (), (buyer_pending\<lparr>ts_state := Some SUCCESS\<rparr>, confirmed_world))" by code_simp
  show "status buyer_pending = PENDING" by (simp add: buyer_pending_def)
  show "status (buyer_pending\<lparr>ts_state := Some SUCCESS\<rparr>) = SUCCESS" by simp
  show "0 \<le> sint (democrit_confirmations (tm_flags sample_tm))" by (simp add: sample_tm_def default_flags_def)
qed

text \<open>
  C33: A pending trade fails only when the GSP does not know its transaction, one of its inputs
  is spent, and such a conflict was already recorded at a height that has the configured
  number of confirmations.
\<close>

theorem failure_is_conflict:
  assumes "Update TM (pb, w) = (r, (pb', w'))" "status pb = PENDING" "status pb' = FAILED"
  shows "\<exists>ours tx cur dat w1 h. ts_our_psbt pb = Some ours \<and>
    QueryTrade (tm_env TM) ours w = (Ret (tx, cur, dat), w1) \<and> jget dat ''state'' = JStr ''unknown'' \<and>
    some_input_spent (tm_env TM) (jelems (jget tx ''vin'')) w1 = (Ret True, w') \<and>
    ts_conflict_height pb = Some h \<and> h + scast (democrit_confirmations (tm_flags TM)) \<le> cur + 1"
proof -
  from Update_or [OF assms(1)] assms(2,3) obtain ours where ours: "ts_our_psbt pb = Some ours"
    and u: "UpdatePending (tm_env TM) (tm_flags TM) ours (pb, w) = (r, (pb', w'))" by auto
  from UpdatePending_or [OF u] assms(2,3) obtain tx cur dat w1 h where
      q: "QueryTrade (tm_env TM) ours w = (Ret (tx, cur, dat), w1)" "conflict_seen (tm_env TM) tx dat w1 w'"
        "ts_conflict_height pb = Some h" "is_final (tm_flags TM) h cur"
    by auto
  moreover from QueryTrade_Ret [OF q(1)] have "isString (jget dat ''state'')" by blast
  ultimately show ?thesis using ours by (auto simp: conflict_seen_def is_final_def isString_iff)
qed

theorem failure_is_conflict_witness:
  "\<exists>ours tx cur dat w1 h. ts_our_psbt (buyer_pending\<lparr>ts_conflict_height := Some 10\<rparr>) = Some ours \<and>
    QueryTrade (tm_env sample_tm) ours (confirmed_world\<lparr>mg_btxids := []\<rparr>) = (Ret (tx, cur, dat), w1) \<and>
    jget dat ''state'' = JStr ''unknown'' \<and>
    some_input_spent (tm_env sample_tm) (jelems (jget tx ''vin'')) w1 = (Ret True, confirmed_world\<lparr>mg_btxids := []\<rparr>) \<and>
    ts_conflict_height (buyer_pending\<lparr>ts_conflict_height := Some 10\<rparr>) = Some h \<and>
    h + scast (democrit_confirmations (tm_flags sample_tm)) \<le> cur + 1"
proof (rule failure_is_conflict)
  let ?pb = "buyer_pending\<lparr>ts_conflict_height := Some 10\<rparr>" and ?w = "confirmed_world\<lparr>mg_btxids := []\<rparr>"
  show "Update sample_tm (?pb, ?w) = (Ret (), (?pb\<lparr>ts_state := Some FAILED\<rparr>, ?w))" by code_simp
  show "status ?pb = PENDING" "status (?pb\<lparr>ts_state := Some FAILED\<rparr>) = FAILED" by (simp_all add: buyer_pending_def)
qed

end
