(* ===== verification/Interleaving.thy ===== *)
theory Interleaving
  imports ManagerRuns "HOL-Library.Multiset"
begin

text \<open>
  The threads of the daemon at the granularity at which they really interleave. The methods of
  \<^verbatim>\<open>MyOrders\<close> and \<^verbatim>\<open>TradeManager\<close> take the mutex of the global state several times
  (\<^verbatim>\<open>State::AccessState\<close>, \<^verbatim>\<open>ReadState\<close>), and other threads may run between two such sections. Here
  each section is a program of its own, a thread is the list of what it still has to do, and
  a step lets one thread run one section.

  The first part shows that the methods are exactly their sections run one after the other. The
  second shows that the lock of an order protects it across sections: the invariant counts,
  beside the active trades, the orders that some thread has taken out of the shared state
  and not yet put back.
\<close>

section \<open>Sections\<close>

definition refresh_section :: "'w MyOrdersVirtual \<Rightarrow> (State \<times> 'w, unit) prog" where
  "refresh_section V =
     bnd (gets fst) (\<lambda>s0.
     bnd (fold_prog (refresh_step V (state_account s0)) (own_orders s0) []) (\<lambda>updated.
     modifies (\<lambda>(s, w). (s\<lparr>st_own_orders := \<lparr>ooa_account = None, ooa_orders = updated\<rparr>\<rparr>, w))))"

definition add_section :: "'w MyOrdersVirtual \<Rightarrow> Order \<Rightarrow> (State \<times> 'w, bool) prog" where
  "add_section V o' =
     bnd (gets fst) (\<lambda>s.
     bnd (onW (ValidateOrder V (state_account s) o')) (\<lambda>valid.
     if \<not> valid then ret False else
     let cleared = o'\<lparr>order_account := None, order_id := None\<rparr>;
         oid = dflt 0 (st_next_free_id s) in
     bnd (modifies (\<lambda>(s, w).
       (set_own (AList.update oid cleared (own_orders s)) (s\<lparr>st_next_free_id := Some (oid + 1)\<rparr>), w))) (\<lambda>_.
     ret True)))"

definition remove_section :: "uint64 \<Rightarrow> (State \<times> 'w, unit) prog" where
  "remove_section oid = modifies (\<lambda>(s, w). (set_own (AList.delete oid (own_orders s)) s, w))"

definition lock_section :: "uint64 \<Rightarrow> (State \<times> 'w, Order option) prog" where
  "lock_section oid =
     bnd (gets fst) (\<lambda>s.
     case map_of (own_orders s) oid of
       None \<Rightarrow> ret None
     | Some o' \<Rightarrow>
         if is_locked o' then ret None else
         let out = o'\<lparr>order_account := Some (state_account s), order_id := Some oid\<rparr> in
         bnd (modifies (\<lambda>(s, w).
           (set_own (AList.update oid (o'\<lparr>order_locked := Some True\<rparr>) (own_orders s)) s, w))) (\<lambda>_.
         ret (Some out)))"

definition unlock_section :: "uint64 \<Rightarrow> (State \<times> 'w, unit) prog" where
  "unlock_section oid =
     bnd (gets fst) (\<lambda>s.
     case map_of (own_orders s) oid of
       None \<Rightarrow> fatal
     | Some o' \<Rightarrow>
         checked (is_locked o') (
         modifies (\<lambda>(s, w). (set_own (AList.update oid (o'\<lparr>order_locked := None\<rparr>) (own_orders s)) s, w))))"

text \<open>The account and the trades that became final.\<close>

definition archive_section :: "'w TradeManager \<Rightarrow> (State \<times> 'w, string \<times> TradeState list) prog" where
  "archive_section TM =
     bnd (gets fst) (\<lambda>s0.
     let account = state_account s0 in
     bnd (fold_prog (update_trade TM account) [0..<length (st_trades s0)] ([], [])) (\<lambda>(stillActive, finalised).
     bnd (modifies (\<lambda>(s, w). (s\<lparr>st_trades := stillActive\<rparr>, w))) (\<lambda>_.
     ret (account, finalised))))"

text \<open>
  What threads do, one section at a time. \<^verbatim>\<open>TakeOrder\<close>, \<^verbatim>\<open>OrderTaken\<close> and the last part of
  \<^verbatim>\<open>ProcessMessage\<close> have a single section each; the reading of the clock before it concerns the
  outside world only, and so does the release of coins after a failed trade.
\<close>

datatype act =
    Refresh
  | ReadOwn
  | Publish OrdersOfAccount
  | AddSec Order
  | RemoveSec uint64
  | LockSec ProcessingMessage string TakingOrder
  | TakenSec ProcessingMessage string TakingOrder Order
  | UnlockSec uint64
  | ProcessSec ProcessingMessage
  | TakeSec Order Amount
  | ArchiveSec
  | FinishSec string TradeState
  | ReleaseSec string TradeState

definition release_coins :: "'w TradeManager \<Rightarrow> string \<Rightarrow> TradeState \<Rightarrow> (State \<times> 'w, unit) prog" where
  "release_coins TM account pb =
     bnd (case sd_name_output (dflt empty_sd (ts_seller_data pb)) of
            None \<Rightarrow> ret ()
          | Some out \<Rightarrow> onW (bnd (LockUnspent (tm_env TM) False out) (\<lambda>_. ret ()))) (\<lambda>_.
     case ts_our_psbt pb of
       Some ours \<Rightarrow>
         if GetOrderType account pb = BID then onW (UnlockPsbtInputs (tm_env TM) ours) else ret ()
     | None \<Rightarrow> ret ())"

text \<open>The first test of \<^verbatim>\<open>HandleSuccess\<close> and \<^verbatim>\<open>HandleFailure\<close> decides what they do with the own order.\<close>

definition success_acts :: "string \<Rightarrow> TradeState \<Rightarrow> act list" where
  "success_acts account pb =
     (if GetRole account pb = MAKER then
        let newMax = dflt 0 (order_max_units (ts_order pb)) - dflt 0 (ts_units pb);
            newOrder = (ts_order pb)\<lparr>order_id := None, order_max_units := Some newMax\<rparr> in
        RemoveSec (ord_id pb) #
          (if 0 < newMax \<and> dflt 0 (order_min_units newOrder) \<le> newMax then [AddSec newOrder] else [])
      else [])"

definition failure_acts :: "string \<Rightarrow> TradeState \<Rightarrow> act list" where
  "failure_acts account pb =
     (if GetRole account pb = MAKER then [UnlockSec (ord_id pb)] else []) @ [ReleaseSec account pb]"

text \<open>One section, and what the thread has to do because of its result.\<close>

fun exec_act :: "'w TradeManager \<Rightarrow> act \<Rightarrow> (State \<times> 'w, act list) prog" where
  "exec_act TM Refresh = bnd (refresh_section (tm_myOrders TM)) (\<lambda>_. ret [ReadOwn])"
| "exec_act TM ReadOwn = bnd (gets fst) (\<lambda>s. ret [Publish (InternalGetOrders False s)])"
| "exec_act TM (Publish oo) =
     bnd (gets fst) (\<lambda>s. bnd (onW (MyOrdersVirtual.UpdateOrders (tm_myOrders TM) s oo)) (\<lambda>_. ret []))"
| "exec_act TM (AddSec ord) = bnd (add_section (tm_myOrders TM) ord) (\<lambda>added. ret (if added then [Refresh] else []))"
| "exec_act TM (RemoveSec oid) = bnd (remove_section oid) (\<lambda>_. ret [Refresh])"
| "exec_act TM (LockSec msg other to) =
     bnd (lock_section (dflt 0 (to_id to))) (\<lambda>locked.
     ret (case locked of None \<Rightarrow> [] | Some ord \<Rightarrow> [Refresh, TakenSec msg other to ord]))"
| "exec_act TM (TakenSec msg other to ord) =
     bnd (OrderTaken TM ord (dflt 0 (to_units to)) other) (\<lambda>taken.
     ret (if taken then [ProcessSec msg] else [UnlockSec (dflt 0 (to_id to))]))"
| "exec_act TM (UnlockSec oid) = bnd (unlock_section oid) (\<lambda>_. ret [Refresh])"
| "exec_act TM (ProcessSec msg) = bnd (process_matching TM msg) (\<lambda>_. ret [])"
| "exec_act TM (TakeSec ord units) = bnd (TakeOrder TM ord units) (\<lambda>_. ret [])"
| "exec_act TM ArchiveSec = bnd (archive_section TM) (\<lambda>(account, fin). ret (map (FinishSec account) fin))"
| "exec_act TM (FinishSec account t) =
     (case status t of
        ABANDONED \<Rightarrow> ret (failure_acts account t)
      | FAILED \<Rightarrow> ret (failure_acts account t)
      | SUCCESS \<Rightarrow> ret (success_acts account t)
      | _ \<Rightarrow> fatal)"
| "exec_act TM (ReleaseSec account t) = bnd (release_coins TM account t) (\<lambda>_. ret [])"

section \<open>Threads\<close>

text \<open>The calls that start a thread, or that a thread makes next.\<close>

datatype request =
    RqAdd Order | RqCancel uint64 | RqTake Order Amount | RqMessage string ProcessingMessage | RqRefresh | RqUpdate

definition request_acts :: "request \<Rightarrow> act list" where
  "request_acts rq =
     (case rq of
        RqAdd ord \<Rightarrow> [AddSec ord]
      | RqCancel oid \<Rightarrow> [RemoveSec oid]
      | RqTake ord units \<Rightarrow> [TakeSec ord units]
      | RqMessage other msg \<Rightarrow>
          (let m = msg\<lparr>pm_counterparty := Some other\<rparr> in
           case pm_taking_order msg of None \<Rightarrow> [ProcessSec m] | Some to \<Rightarrow> [LockSec m other to])
      | RqRefresh \<Rightarrow> [Refresh]
      | RqUpdate \<Rightarrow> [ArchiveSec])"

datatype conc_event = Starts request | Runs nat act

text \<open>An addition is a step while the counter of order IDs has not reached its last value.\<close>

definition can_run :: "act \<Rightarrow> State \<Rightarrow> bool" where
  "can_run a s \<longleftrightarrow> (case a of AddSec _ \<Rightarrow> next_id s \<noteq> - 1 | _ \<Rightarrow> True)"

inductive conc_step :: "'w TradeManager \<Rightarrow> conc_event \<Rightarrow> State \<times> act list list \<Rightarrow> State \<times> act list list \<Rightarrow> bool"
  for TM :: "'w TradeManager" where
  c_start: "conc_step TM (Starts rq) (s, ths) (s, ths @ [request_acts rq])"
| c_run: "exec_act TM a (s, w) = (Ret follow, (s', w')) \<Longrightarrow> can_run a s \<Longrightarrow>
    conc_step TM (Runs (length as) a) (s, as @ (a # rest) # bs) (s', as @ (follow @ rest) # bs)"

section \<open>The methods are their sections\<close>

text \<open>A thread that runs alone to its end.\<close>

inductive serial :: "'w TradeManager \<Rightarrow> act list \<Rightarrow> State \<times> 'w \<Rightarrow> State \<times> 'w \<Rightarrow> bool"
  for TM :: "'w TradeManager" where
  serial_nil: "serial TM [] x x"
| serial_cons: "exec_act TM a x = (Ret follow, y) \<Longrightarrow> serial TM (follow @ rest) y z \<Longrightarrow> serial TM (a # rest) x z"

inductive_simps serial_nil_iff [simp]: "serial TM [] x z"
inductive_simps serial_cons_iff: "serial TM (a # rest) x z"

text \<open>The method behind a request.\<close>

definition call :: "'w TradeManager \<Rightarrow> request \<Rightarrow> (State \<times> 'w, unit) prog" where
  "call TM rq =
     (case rq of
        RqAdd ord \<Rightarrow> bnd (Add (tm_myOrders TM) ord) (\<lambda>_. ret ())
      | RqCancel oid \<Rightarrow> RemoveById (tm_myOrders TM) oid
      | RqTake ord units \<Rightarrow> bnd (TakeOrder TM ord units) (\<lambda>_. ret ())
      | RqMessage other msg \<Rightarrow> bnd (ProcessMessage TM (msg\<lparr>pm_counterparty := Some other\<rparr>)) (\<lambda>_. ret ())
      | RqRefresh \<Rightarrow> RunRefresh (tm_myOrders TM)
      | RqUpdate \<Rightarrow> UpdateAndArchiveTrades TM)"

lemma RunRefresh_sections:
  "RunRefresh V = bnd (refresh_section V) (\<lambda>_. bnd (gets fst) (\<lambda>s. onW (MyOrdersVirtual.UpdateOrders V s (InternalGetOrders False s))))"
  by (simp add: RunRefresh_def refresh_section_def bnd_assoc)

lemma Add_sections:
  "Add V ord = bnd (add_section V ord) (\<lambda>added. if added then bnd (RunRefresh V) (\<lambda>_. ret True) else ret False)"
  by (auto simp: Add_def add_section_def bnd_assoc Let_def fun_eq_iff bnd_def split: prod.splits outcome.splits)

lemma RemoveById_sections: "RemoveById V oid = bnd (remove_section oid) (\<lambda>_. RunRefresh V)"
  by (simp add: RemoveById_def remove_section_def)

lemma TryLock_sections:
  "TryLock V oid = bnd (lock_section oid) (\<lambda>r. case r of None \<Rightarrow> ret None | Some out \<Rightarrow> bnd (RunRefresh V) (\<lambda>_. ret (Some out)))"
  by (auto simp: TryLock_def lock_section_def Let_def fun_eq_iff bnd_def split: prod.splits outcome.splits option.splits)

lemma Unlock_sections: "Unlock V oid = bnd (unlock_section oid) (\<lambda>_. RunRefresh V)"
  by (auto simp: Unlock_def unlock_section_def checked_def fun_eq_iff bnd_def split: prod.splits outcome.splits option.splits)

lemma UpdateAndArchiveTrades_sections:
  "UpdateAndArchiveTrades TM = bnd (archive_section TM) (\<lambda>(account, fin). for_each (finish_trade TM account) fin)"
  by (auto simp: UpdateAndArchiveTrades_def archive_section_def Let_def fun_eq_iff bnd_def split: prod.splits outcome.splits)

lemma serial_Refresh:
  "serial TM (Refresh # rest) x z \<longleftrightarrow> (\<exists>y. RunRefresh (tm_myOrders TM) x = (Ret (), y) \<and> serial TM rest y z)"
  by (auto simp: serial_cons_iff RunRefresh_sections prog_inv)

lemma serial_own:
  "serial TM (AddSec ord # rest) x z \<longleftrightarrow> (\<exists>b y. Add (tm_myOrders TM) ord x = (Ret b, y) \<and> serial TM rest y z)"
  "serial TM (RemoveSec oid # rest) x z \<longleftrightarrow> (\<exists>y. RemoveById (tm_myOrders TM) oid x = (Ret (), y) \<and> serial TM rest y z)"
  "serial TM (UnlockSec oid # rest) x z \<longleftrightarrow> (\<exists>y. Unlock (tm_myOrders TM) oid x = (Ret (), y) \<and> serial TM rest y z)"
proof -
  show "serial TM (AddSec ord # rest) x z \<longleftrightarrow> (\<exists>b y. Add (tm_myOrders TM) ord x = (Ret b, y) \<and> serial TM rest y z)"
  proof
    assume "serial TM (AddSec ord # rest) x z"
    then obtain added y where sec: "add_section (tm_myOrders TM) ord x = (Ret added, y)"
      and "serial TM ((if added then [Refresh] else []) @ rest) y z"
      by (auto simp: serial_cons_iff prog_inv)
    moreover have "Add (tm_myOrders TM) ord x = (if added then bnd (RunRefresh (tm_myOrders TM)) (\<lambda>_. ret True) else ret False) y"
      by (simp add: Add_sections bnd_def sec)
    ultimately show "\<exists>b y. Add (tm_myOrders TM) ord x = (Ret b, y) \<and> serial TM rest y z"
      by (cases added; cases y) (auto simp: serial_Refresh prog_inv)
  next
    assume "\<exists>b y. Add (tm_myOrders TM) ord x = (Ret b, y) \<and> serial TM rest y z"
    then obtain b y added u where sec: "add_section (tm_myOrders TM) ord x = (Ret added, u)" and rest: "serial TM rest y z"
      and more: "(if added then bnd (RunRefresh (tm_myOrders TM)) (\<lambda>_. ret True) else ret False) u = (Ret b, y)"
      unfolding Add_sections bnd_Ret_iff by blast
    have "serial TM ((if added then [Refresh] else []) @ rest) u z"
      using more rest by (cases added) (auto simp: serial_Refresh prog_inv)
    moreover have "exec_act TM (AddSec ord) x = (Ret (if added then [Refresh] else []), u)" by (simp add: bnd_def sec)
    ultimately show "serial TM (AddSec ord # rest) x z" by (rule serial_cons [rotated])
  qed
qed (auto simp: serial_cons_iff [of TM "RemoveSec oid"] serial_cons_iff [of TM "UnlockSec oid"] RemoveById_sections
      Unlock_sections serial_Refresh prog_inv)

lemma HandleFailure_sections:
  "HandleFailure TM account t = bnd (if GetRole account t = MAKER then Unlock (tm_myOrders TM) (ord_id t) else ret ()) (\<lambda>_.
     release_coins TM account t)"
  by (simp add: HandleFailure_def release_coins_def)

lemma serial_Release:
  "serial TM (ReleaseSec account t # rest) x z \<longleftrightarrow> (\<exists>y. release_coins TM account t x = (Ret (), y) \<and> serial TM rest y z)"
  by (auto simp: serial_cons_iff prog_inv)

lemma serial_failure:
  "serial TM (failure_acts account t @ rest) x z \<longleftrightarrow> (\<exists>y. HandleFailure TM account t x = (Ret (), y) \<and> serial TM rest y z)"
  by (cases x) (auto simp: failure_acts_def HandleFailure_sections serial_own serial_Release prog_inv)

lemma serial_success:
  "serial TM (success_acts account t @ rest) x z \<longleftrightarrow> (\<exists>y. HandleSuccess TM account t x = (Ret (), y) \<and> serial TM rest y z)"
  by (cases x) (auto simp: success_acts_def HandleSuccess_def Let_def serial_own prog_inv)

lemma serial_Finish:
  "serial TM (FinishSec account t # rest) x z \<longleftrightarrow> (\<exists>y. finish_trade TM account t x = (Ret (), y) \<and> serial TM rest y z)"
  by (cases x) (auto simp: serial_cons_iff [of TM "FinishSec account t"] finish_trade_def serial_failure serial_success
      split: trade_status.splits)

lemma serial_finish_all:
  "serial TM (map (FinishSec account) ts) x z \<longleftrightarrow> for_each (finish_trade TM account) ts x = (Ret (), z)"
  by (induction ts arbitrary: x) (auto simp: serial_Finish prog_inv)

lemma serial_Process: "serial TM [ProcessSec m] x z \<longleftrightarrow> (\<exists>r. process_matching TM m x = (Ret r, z))"
  by (auto simp: serial_cons_iff prog_inv)

text \<open>The rest of \<^verbatim>\<open>ProcessMessage\<close> after the order was locked.\<close>

definition after_lock :: "'w TradeManager \<Rightarrow> ProcessingMessage \<Rightarrow> string \<Rightarrow> TakingOrder \<Rightarrow> Order \<Rightarrow> (State \<times> 'w, ProcessingMessage option) prog" where
  "after_lock TM m other to ord =
     bnd (OrderTaken TM ord (dflt 0 (to_units to)) other) (\<lambda>taken.
     if \<not> taken then bnd (Unlock (tm_myOrders TM) (dflt 0 (to_id to))) (\<lambda>_. ret None) else process_matching TM m)"

lemma serial_Taken: "serial TM [TakenSec m other to ord] x z \<longleftrightarrow> (\<exists>r. after_lock TM m other to ord x = (Ret r, z))"
proof -
  have "serial TM [TakenSec m other to ord] x z \<longleftrightarrow> (\<exists>taken v. OrderTaken TM ord (dflt 0 (to_units to)) other x = (Ret taken, v) \<and>
      serial TM (if taken then [ProcessSec m] else [UnlockSec (dflt 0 (to_id to))]) v z)"
    unfolding serial_cons_iff by (auto simp: prog_inv)
  also have "\<dots> \<longleftrightarrow> (\<exists>taken v. OrderTaken TM ord (dflt 0 (to_units to)) other x = (Ret taken, v) \<and>
      (\<exists>r. (if \<not> taken then bnd (Unlock (tm_myOrders TM) (dflt 0 (to_id to))) (\<lambda>_. ret None) else process_matching TM m) v = (Ret r, z)))"
    by (cases z) (intro ex_cong1 conj_cong refl, auto simp: serial_Process serial_own prog_inv)
  finally show ?thesis unfolding after_lock_def bnd_Ret_iff by blast
qed

lemma ProcessMessage_sections:
  assumes "pm_counterparty m = Some other" "pm_taking_order m = Some to"
  shows "ProcessMessage TM m = bnd (lock_section (dflt 0 (to_id to))) (\<lambda>locked.
    case locked of None \<Rightarrow> ret None | Some ord \<Rightarrow> bnd (RunRefresh (tm_myOrders TM)) (\<lambda>_. after_lock TM m other to ord))"
proof -
  have "ProcessMessage TM m = bnd (TryLock (tm_myOrders TM) (dflt 0 (to_id to))) (\<lambda>locked.
      case locked of None \<Rightarrow> ret None | Some ord \<Rightarrow> after_lock TM m other to ord)"
    using assms unfolding after_lock_def by (simp add: ProcessMessage_def)
  also have "\<dots> = bnd (lock_section (dflt 0 (to_id to))) (\<lambda>r. bnd (case r of None \<Rightarrow> ret None
      | Some out \<Rightarrow> bnd (RunRefresh (tm_myOrders TM)) (\<lambda>_. ret (Some out))) (\<lambda>locked.
      case locked of None \<Rightarrow> ret None | Some ord \<Rightarrow> after_lock TM m other to ord))"
    by (simp only: TryLock_sections bnd_assoc)
  also have "(\<lambda>r. bnd (case r of None \<Rightarrow> ret None
      | Some out \<Rightarrow> bnd (RunRefresh (tm_myOrders TM)) (\<lambda>_. ret (Some out))) (\<lambda>locked.
      case locked of None \<Rightarrow> ret None | Some ord \<Rightarrow> after_lock TM m other to ord)) =
    (\<lambda>locked. case locked of None \<Rightarrow> ret None | Some ord \<Rightarrow> bnd (RunRefresh (tm_myOrders TM)) (\<lambda>_. after_lock TM m other to ord))"
    by (rule ext) (simp add: bnd_assoc fun_eq_iff split: option.split)
  finally show ?thesis .
qed

lemma serial_Lock:
  assumes "pm_counterparty m = Some other" "pm_taking_order m = Some to"
  shows "serial TM [LockSec m other to] x z \<longleftrightarrow> (\<exists>r. ProcessMessage TM m x = (Ret r, z))"
proof -
  have "serial TM [LockSec m other to] x z \<longleftrightarrow> (\<exists>locked v. lock_section (dflt 0 (to_id to)) x = (Ret locked, v) \<and>
      serial TM (case locked of None \<Rightarrow> [] | Some ord \<Rightarrow> [Refresh, TakenSec m other to ord]) v z)"
    unfolding serial_cons_iff by (auto simp: prog_inv)
  also have "\<dots> \<longleftrightarrow> (\<exists>locked v. lock_section (dflt 0 (to_id to)) x = (Ret locked, v) \<and>
      (\<exists>r. (case locked of None \<Rightarrow> ret None
        | Some ord \<Rightarrow> bnd (RunRefresh (tm_myOrders TM)) (\<lambda>_. after_lock TM m other to ord)) v = (Ret r, z)))"
    by (intro ex_cong1 conj_cong refl) (auto simp: serial_Refresh serial_Taken bnd_Ret_iff split: option.split)
  finally show ?thesis unfolding ProcessMessage_sections [OF assms] bnd_Ret_iff by blast
qed

lemma calls_are_sections: "call TM rq x = (Ret (), z) \<longleftrightarrow> serial TM (request_acts rq) x z"
proof (cases rq)
  case (RqMessage other msg)
  let ?m = "msg\<lparr>pm_counterparty := Some other\<rparr>"
  have "call TM rq x = (Ret (), z) \<longleftrightarrow> (\<exists>r. ProcessMessage TM ?m x = (Ret r, z))"
    by (cases z) (auto simp: call_def RqMessage prog_inv)
  also have "\<dots> \<longleftrightarrow> serial TM (request_acts rq) x z"
  proof (cases "pm_taking_order msg")
    case None
    then show ?thesis by (simp add: request_acts_def RqMessage ProcessMessage_def serial_Process)
  next
    case (Some to)
    then show ?thesis using serial_Lock [of ?m other to TM x z] by (simp add: request_acts_def RqMessage)
  qed
  finally show ?thesis .
next
  case RqUpdate
  show ?thesis
    by (auto simp: RqUpdate call_def request_acts_def UpdateAndArchiveTrades_sections serial_cons_iff [of TM ArchiveSec]
        serial_finish_all prog_inv)
next
  case (RqTake ord units)
  show ?thesis by (auto simp: RqTake call_def request_acts_def serial_cons_iff prog_inv)
qed (auto simp: call_def request_acts_def serial_own serial_Refresh prog_inv)

section \<open>Orders in the hands of a thread\<close>

text \<open>
  The own orders that a section still to run will put back: one that was locked for a trade
  that is not recorded yet, one to be unlocked, and that of an archived trade.
\<close>

fun owned :: "act \<Rightarrow> uint64 list" where
  "owned (TakenSec _ _ to _) = [dflt 0 (to_id to)]"
| "owned (UnlockSec oid) = [oid]"
| "owned (FinishSec account t) = maker_ids account [t]"
| "owned _ = []"

definition owned_by :: "act list \<Rightarrow> uint64 list" where
  "owned_by as = concat (map owned as)"

text \<open>The state with the orders \<open>M\<close> that are in the hands of some thread.\<close>

definition shared_inv :: "State \<Rightarrow> uint64 list \<Rightarrow> bool" where
  "shared_inv s M \<longleftrightarrow> manager_inv s \<and> distinct (maker_ids (state_account s) (st_trades s) @ M) \<and> (\<forall>oid \<in> set M. held oid s)"

lemma shared_inv_mset: "shared_inv s M \<Longrightarrow> mset M = mset M' \<Longrightarrow> shared_inv s M'"
  by (auto simp: shared_inv_def dest: mset_eq_setD mset_eq_imp_distinct_iff)

lemma shared_inv_sub: "shared_inv s (xs @ ys) \<Longrightarrow> shared_inv s ys"
  by (auto simp: shared_inv_def)

text \<open>What happens to the own orders only: no order that is held may become available.\<close>

lemma shared_inv_own:
  assumes "shared_inv s M" "frame s' = frame s" "orders_wf s'" "\<And>oid. held oid s \<Longrightarrow> held oid s'"
  shows "shared_inv s' M"
  using assms frame_fields [OF assms(2)]
  by (auto simp: shared_inv_def manager_inv_def active_trade_def)

lemma shared_inv_wf: "shared_inv s M \<Longrightarrow> orders_wf s"
  by (simp add: shared_inv_def manager_inv_def)

lemma shared_inv_set_own:
  assumes "shared_inv s M" "distinct (map fst os)" "\<forall>oid \<in> fst ` set os. oid < next_id s"
    "\<And>oid ord. held oid s \<Longrightarrow> map_of os oid = Some ord \<Longrightarrow> is_locked ord"
  shows "shared_inv (set_own os s) M"
  using assms by (intro shared_inv_own [OF assms(1)]) (auto simp: orders_wf_def held_def)

lemma add_section_inv:
  assumes "shared_inv s M" "add_section V ord (s, w) = (Ret b, (s', w'))" "next_id s \<noteq> - 1"
  shows "shared_inv s' M"
proof (cases b)
  case False
  with assms(1,2) show ?thesis by (auto simp: add_section_def prog_inv Let_def split: if_splits)
next
  case True
  let ?os = "AList.update (next_id s) (ord\<lparr>order_account := None, order_id := None\<rparr>) (own_orders s)"
  from True assms(2) have s': "s' = set_own ?os (s\<lparr>st_next_free_id := Some (next_id s + 1)\<rparr>)"
    by (auto simp: add_section_def prog_inv Let_def split: if_splits)
  note inc = word_less_inc [OF assms(3)]
  note wf = update_wf [OF shared_inv_wf [OF assms(1)] inc order.strict_implies_order [OF inc]]
  have "held oid s'" if "held oid s" for oid
    using that word_less_Suc [OF _ assms(3), of oid] by (auto simp: s' held_def update_conv')
  with assms(1) wf show ?thesis by (intro shared_inv_own [OF assms(1)]) (auto simp: s' orders_wf_def)
qed

lemma remove_section_inv:
  assumes "shared_inv s M" "remove_section oid (s, w) = (Ret u, (s', w'))"
  shows "shared_inv s' M"
proof -
  have wf: "orders_wf s" using assms(1) by (rule shared_inv_wf)
  have "\<forall>k \<in> fst ` set (AList.delete oid (own_orders s)). k < next_id s"
    using wf dom_delete_subset [of oid "own_orders s"] unfolding orders_wf_def by blast
  with wf have "shared_inv (set_own (AList.delete oid (own_orders s)) s) M"
    by (intro shared_inv_set_own [OF assms(1)])
      (auto simp: orders_wf_def distinct_delete held_def delete_conv' split: if_splits)
  with assms(2) show ?thesis by (simp add: remove_section_def)
qed

lemma refresh_section_inv:
  assumes "shared_inv s M" "refresh_section V (s, w) = (Ret u, (s', w'))"
  shows "shared_inv s' M"
proof -
  have wf: "orders_wf s" using assms(1) by (rule shared_inv_wf)
  from assms(2) obtain updated s1 where
      fold: "fold_prog (refresh_step V (state_account s)) (own_orders s) [] (s, w) = (Ret updated, (s1, w'))"
    and s': "s' = s1\<lparr>st_own_orders := \<lparr>ooa_account = None, ooa_orders = updated\<rparr>\<rparr>"
    by (auto simp: refresh_section_def prog_inv)
  from refresh_fold_Ret [OF fold] obtain os where sub: "subseq updated (own_orders s)" and "s1 = set_own os s" by auto
  then have eq: "s' = s\<lparr>st_own_orders := \<lparr>ooa_account = None, ooa_orders = updated\<rparr>\<rparr>" by (simp add: s' set_own_def)
  have "held oid s'" if "held oid s" for oid
    using that wf map_of_subseq [OF _ sub] by (auto simp: eq held_def orders_wf_def)
  with orders_wf_refresh [OF wf sub] show ?thesis by (intro shared_inv_own [OF assms(1)]) (simp_all add: eq)
qed

lemma lock_section_inv:
  assumes "shared_inv s M" "lock_section oid (s, w) = (Ret locked, (s', w'))"
  shows "locked = None \<and> s' = s \<or> (\<exists>ord. locked = Some ord \<and> order_id ord = Some oid \<and>
    order_account ord = Some (state_account s) \<and> shared_inv s' (oid # M))"
proof (cases locked)
  case None
  with assms(2) show ?thesis by (auto simp: lock_section_def prog_inv Let_def split: option.splits if_splits)
next
  case (Some out)
  have wf: "orders_wf s" using assms(1) by (rule shared_inv_wf)
  from Some assms(2) obtain ord where ord: "map_of (own_orders s) oid = Some ord" "\<not> is_locked ord"
      "out = ord\<lparr>order_account := Some (state_account s), order_id := Some oid\<rparr>"
      "s' = set_own (AList.update oid (ord\<lparr>order_locked := Some True\<rparr>) (own_orders s)) s"
    by (auto simp: lock_section_def prog_inv Let_def split: option.splits if_splits)
  have free: "\<not> held oid s" using ord by (auto simp: held_def)
  have less: "oid < next_id s" using in_orders_less [OF wf ord(1)] .
  have inv: "shared_inv s' M"
    unfolding ord(4) using update_wf [OF wf less order_refl] ord
    by (intro shared_inv_set_own [OF assms(1)]) (auto simp: held_def update_conv' split: if_splits)
  have "oid \<notin> set (maker_ids (state_account s) (st_trades s))"
    using free assms(1) by (intro available_no_trade) (simp_all add: shared_inv_def)
  moreover have "oid \<notin> set M" using free assms(1) by (auto simp: shared_inv_def)
  moreover have "held oid s'" using less by (simp add: ord(4) held_def update_conv')
  ultimately have "shared_inv s' (oid # M)" using inv by (auto simp: shared_inv_def ord(4))
  with Some ord(3) show ?thesis by simp
qed

lemma unlock_section_inv:
  assumes "shared_inv s (oid # M)" "unlock_section oid (s, w) = (Ret u, (s', w'))"
  shows "shared_inv s' M"
proof -
  have wf: "orders_wf s" using assms(1) by (rule shared_inv_wf)
  from assms(2) obtain ord where ord: "map_of (own_orders s) oid = Some ord"
      "s' = set_own (AList.update oid (ord\<lparr>order_locked := None\<rparr>) (own_orders s)) s"
    by (auto simp: unlock_section_def prog_inv split: option.splits)
  have less: "oid < next_id s" using in_orders_less [OF wf ord(1)] .
  have keep: "held k s'" if "held k s" "k \<noteq> oid" for k using that by (auto simp: ord(2) held_def update_conv')
  have "active_trade s' t" if "t \<in> set (st_trades s)" for t
  proof -
    have "active_trade s t" using that assms(1) by (simp add: shared_inv_def manager_inv_def)
    moreover have "ord_id t \<noteq> oid" if "GetRole (state_account s) t = MAKER"
      using that \<open>t \<in> set (st_trades s)\<close> assms(1) by (auto simp: shared_inv_def maker_ids_def)
    ultimately show ?thesis using keep by (auto simp: active_trade_def ord(2))
  qed
  moreover have "orders_wf s'" using update_wf [OF wf less order_refl] by (simp add: ord(2) orders_wf_def)
  moreover have "\<forall>k \<in> set M. held k s'" using assms(1) by (auto simp: shared_inv_def intro!: keep)
  ultimately show ?thesis using assms(1) by (auto simp: shared_inv_def manager_inv_def ord(2))
qed

text \<open>Sections on the trades.\<close>

lemma shared_inv_trades:
  assumes "shared_inv s M" "manager_inv (s\<lparr>st_trades := ts\<rparr>)"
    "maker_ids (state_account s) ts = maker_ids (state_account s) (st_trades s)"
  shows "shared_inv (s\<lparr>st_trades := ts\<rparr>) M"
  using assms by (simp add: shared_inv_def)

lemma take_section_inv:
  assumes "shared_inv s M" "TakeOrder TM ord units (s, w) = (Ret r, (s', w'))"
  shows "shared_inv s' M"
proof (cases r)
  case None
  with assms TakeOrder_None show ?thesis by metis
next
  case (Some msg)
  have inv: "manager_inv s'" using assms(1) by (intro TakeOrder_inv [OF _ assms(2)]) (simp add: shared_inv_def)
  from assms(2) [unfolded Some] show ?thesis
  proof (cases rule: TakeOrder_Some)
    case (1 now w1 reply pb)
    with inv assms(1) taker_role(1) [OF 1(3,2)] show ?thesis
      by (auto simp: maker_ids_def intro!: shared_inv_trades)
  qed
qed

lemma process_section_inv:
  assumes "shared_inv s M" "process_matching TM msg (s, w) = (Ret r, (s', w'))"
  shows "shared_inv s' M"
proof -
  have inv: "manager_inv s'" using assms(1) by (intro process_matching_inv [OF _ assms(2)]) (simp add: shared_inv_def)
  from assms(2) show ?thesis
  proof (cases rule: process_matching_Ret)
    case 1
    with assms(1) show ?thesis by simp
  next
    case (2 i r' pb')
    with inv assms(1) maker_ids_update [OF 2(1,5)] show ?thesis by (auto intro!: shared_inv_trades)
  qed
qed

lemma taken_section_inv:
  assumes "shared_inv s (oid # M)" "OrderTaken TM ord units other (s, w) = (Ret taken, (s', w'))" "order_id ord = Some oid"
  shows "shared_inv s' (if taken then M else oid # M)"
proof (cases taken)
  case False
  with assms OrderTaken_Ret [OF assms(2)] show ?thesis by simp
next
  case True
  with OrderTaken_Ret [OF assms(2)] obtain now where
      new: "other \<noteq> state_account s" "s' = s\<lparr>st_trades := st_trades s @ [new_trade ord now units other]\<rparr>" by auto
  let ?t = "new_trade ord now units other"
  have inv: "manager_inv s" "held oid s" "oid \<notin> set (maker_ids (state_account s) (st_trades s))"
    using assms(1) by (auto simp: shared_inv_def)
  have "active_trade s ?t"
    using new(1) inv(2) assms(3) fresh_trade_inv [OF fresh_new_trade, of "state_account s" ord now units other]
    by (simp add: active_trade_def IsFinalised_def)
  then have "manager_inv s'" unfolding new(2) using inv(1,3) assms(3) by (intro manager_inv_append) simp_all
  with assms(1,3) True show ?thesis by (auto simp: shared_inv_def new(2) maker_ids_def)
qed

lemma owned_by_finish: "owned_by (map (FinishSec account) ts) = maker_ids account ts"
  by (induction ts) (simp_all add: owned_by_def maker_ids_def)

lemma maker_ids_split:
  "mset (maker_ids account (filter (\<lambda>t. \<not> P t) ts) @ maker_ids account (filter P ts)) = mset (maker_ids account ts)"
  by (induction ts) (auto simp: maker_ids_def filter_filter_mset conj_commute)

lemma archive_section_inv:
  assumes "shared_inv s M" "archive_section TM (s, w) = (Ret (account, fin), (s', w'))"
  shows "shared_inv s' (maker_ids account fin @ M)"
proof -
  from assms(2) obtain still s0 where
      loop: "fold_prog (update_trade TM (state_account s)) [0..<length (st_trades s)] ([], []) (s, w) = (Ret (still, fin), (s0, w'))"
    and s': "s' = s0\<lparr>st_trades := still\<rparr>" and account: "account = state_account s"
    by (auto simp: archive_section_def prog_inv Let_def)
  from update_loop_Ret [OF loop] obtain ts' rest where upd: "list_all2 (updated TM) (st_trades s) ts'"
    and parts: "still = filter (\<lambda>t. \<not> IsFinalised t) ts'" "fin = filter IsFinalised ts'"
      "s0 = s\<lparr>st_trades := rest, st_trade_archive := st_trade_archive s @ map (GetPublicInfo (state_account s)) (filter IsFinalised ts')\<rparr>"
    by auto
  have eq: "s' = s\<lparr>st_trades := still, st_trade_archive := st_trade_archive s @ map (GetPublicInfo (state_account s)) fin\<rparr>"
    by (simp add: s' parts)
  have inv: "manager_inv s'"
    unfolding eq parts using archived_inv [OF _ upd] assms(1) by (simp add: shared_inv_def)
  have ids: "mset (maker_ids account still @ maker_ids account fin) = mset (maker_ids account (st_trades s))"
    unfolding parts account using maker_ids_split maker_ids_updated [OF upd] by metis
  have "held oid s" if "oid \<in> set (maker_ids account (st_trades s))" for oid
    using that assms(1) by (auto simp: shared_inv_def manager_inv_def maker_ids_def account dest: active_trade_held)
  moreover have "held oid s' = held oid s" for oid by (simp add: eq held_def)
  moreover have "set (maker_ids account still @ maker_ids account fin) = set (maker_ids account (st_trades s))"
    using ids by (rule mset_eq_setD)
  moreover have "distinct (maker_ids account (st_trades s))" using assms(1) by (simp add: shared_inv_def account)
  then have "distinct (maker_ids account still @ maker_ids account fin)" using mset_eq_imp_distinct_iff [OF ids] by simp
  ultimately show ?thesis using assms(1) inv by (fastforce simp: shared_inv_def eq account)
qed

section \<open>Interleaved runs\<close>

definition act_ok :: "act \<Rightarrow> bool" where
  "act_ok a \<longleftrightarrow> (case a of TakenSec _ _ to ord \<Rightarrow> order_id ord = Some (dflt 0 (to_id to)) | _ \<Rightarrow> True)"

lemma exec_act_inv:
  assumes "shared_inv s (owned a @ M)" "act_ok a" "can_run a s" "exec_act TM a (s, w) = (Ret follow, (s', w'))"
  shows "shared_inv s' (owned_by follow @ M) \<and> list_all act_ok follow"
proof (cases a)
  case (LockSec m other to)
  with assms(4) obtain locked where l: "lock_section (dflt 0 (to_id to)) (s, w) = (Ret locked, (s', w'))"
    and f: "follow = (case locked of None \<Rightarrow> [] | Some ord \<Rightarrow> [Refresh, TakenSec m other to ord])"
    by (auto simp: prog_inv)
  from lock_section_inv [OF _ l, of M] assms(1) LockSec f show ?thesis by (auto simp: owned_by_def act_ok_def)
next
  case (TakenSec m other to ord)
  with assms(4) obtain taken where l: "OrderTaken TM ord (dflt 0 (to_units to)) other (s, w) = (Ret taken, (s', w'))"
    and f: "follow = (if taken then [ProcessSec m] else [UnlockSec (dflt 0 (to_id to))])"
    by (auto simp: prog_inv)
  from taken_section_inv [OF _ l, of "dflt 0 (to_id to)" M] assms(1,2) TakenSec f show ?thesis
    by (auto simp: owned_by_def act_ok_def split: if_splits)
next
  case (FinishSec account t)
  with assms show ?thesis
    by (auto simp: owned_by_def act_ok_def failure_acts_def success_acts_def maker_ids_def Let_def
        dest: shared_inv_sub [of _ "[_]", simplified] split: trade_status.splits if_splits)
next
  case ArchiveSec
  with assms(1,4) archive_section_inv [of s M TM w] show ?thesis
    by (auto simp: prog_inv owned_by_finish list_all_iff act_ok_def)
qed (use assms in \<open>auto simp: owned_by_def act_ok_def can_run_def prog_inv onW_eq release_coins_def
      dest: refresh_section_inv add_section_inv remove_section_inv unlock_section_inv process_section_inv take_section_inv
      split: option.splits if_splits\<close>)

definition conc_inv :: "State \<times> act list list \<Rightarrow> bool" where
  "conc_inv c \<longleftrightarrow> shared_inv (fst c) (owned_by (concat (snd c))) \<and> list_all act_ok (concat (snd c))"

lemma owned_by_append [simp]: "owned_by (as @ bs) = owned_by as @ owned_by bs"
  by (simp add: owned_by_def)

lemma owned_by_Cons [simp]: "owned_by (a # as) = owned a @ owned_by as"
  by (simp add: owned_by_def)

lemma conc_inv_init: "conc_inv (init_state account, [])"
  by (simp add: conc_inv_def shared_inv_def manager_inv_init owned_by_def) (simp add: maker_ids_def init_state_def)

lemma requests_own_nothing: "owned_by (request_acts rq) = []" "list_all act_ok (request_acts rq)"
  by (auto simp: request_acts_def owned_by_def act_ok_def Let_def split: request.splits option.splits)

lemma conc_step_inv:
  assumes "conc_inv c" "conc_step TM e c c'"
  shows "conc_inv c'"
  using assms(2,1)
proof (induction rule: conc_step.induct)
  case (c_start rq s ths)
  then show ?case by (simp add: conc_inv_def requests_own_nothing)
next
  case (c_run a s w follow s' w' as rest bs)
  let ?M = "owned_by (concat as) @ owned_by rest @ owned_by (concat bs)"
  from c_run.prems have "shared_inv s (owned_by (concat (as @ (a # rest) # bs)))" and ok: "act_ok a"
    by (simp_all add: conc_inv_def)
  then have "shared_inv s (owned a @ ?M)" by (elim shared_inv_mset) simp
  from exec_act_inv [OF this ok c_run.hyps(2,1)] have new: "shared_inv s' (owned_by follow @ ?M)" "list_all act_ok follow" by simp_all
  from new(1) have "shared_inv s' (owned_by (concat (as @ (follow @ rest) # bs)))" by (rule shared_inv_mset) simp
  with new(2) c_run.prems show ?case by (simp add: conc_inv_def)
qed

lemma conc_runs_inv: "runs (conc_step TM) c es c' \<Longrightarrow> conc_inv c \<Longrightarrow> conc_inv c'"
  by (erule runs_invariant) (auto intro: conc_step_inv)

lemma unlock_section_exists:
  assumes "held oid s" "has (map_of (own_orders s) oid)"
  shows "\<exists>s'. unlock_section oid (s, w) = (Ret (), (s', w))"
  using assms by (auto simp: unlock_section_def held_def has_iff)

section \<open>Properties\<close>


end
