(* ===== verification/ManagerProps.thy ===== *)
theory ManagerProps
  imports TradeProps Interleaving
begin

text \<open>
  The properties of the trade manager together with the own orders, and the ways in which a
  \<^verbatim>\<open>CHECK\<close> of this part of the daemon can be made to fail.
\<close>

section \<open>Properties\<close>

text \<open>
  C24: One round of updates loses no trade and duplicates none. Every active trade is updated
  once; the ones that are final afterwards are appended to the archive (as public
  information, in order), the others stay active in their order, and nothing else of the
  trades and the archive changes.
\<close>

theorem update_archives_finalised:
  assumes "UpdateAndArchiveTrades TM (s, w) = (Ret (), (s', w'))"
  shows "\<exists>ts'. list_all2 (updated TM) (st_trades s) ts' \<and>
    st_trades s' = filter (\<lambda>t. \<not> IsFinalised t) ts' \<and>
    st_trade_archive s' = st_trade_archive s @ map (GetPublicInfo (state_account s)) (filter IsFinalised ts')"
  using assms
proof (rule UpdateAndArchiveTrades_Ret)
  fix ts' s1 w1
  assume "list_all2 (updated TM) (st_trades s) ts'" "frame s' = frame s1"
    "s1 = s\<lparr>st_trades := filter (\<lambda>t. \<not> IsFinalised t) ts',
      st_trade_archive := st_trade_archive s @ map (GetPublicInfo (state_account s)) (filter IsFinalised ts')\<rparr>"
  then show ?thesis by (intro exI [of _ ts']) (simp add: frame_def)
qed

text \<open>A state with one timed-out and one running trade.\<close>

definition two_trades :: State where
  "two_trades = (init_state ''buyer'')\<lparr>st_trades := [buyer_trade, buyer_trade\<lparr>ts_start_time := Some 2000\<rparr>]\<rparr>"

definition late_world :: mock where
  "late_world = sale_world\<lparr>mock_time := 2000000000000\<rparr>"

theorem update_archives_finalised_witness:
  "\<exists>s'. UpdateAndArchiveTrades sample_tm (two_trades, late_world) = (Ret (), (s', late_world)) \<and>
    length (st_trades s') = 1 \<and> length (st_trade_archive s') = 1 \<and>
    (\<exists>ts'. list_all2 (updated sample_tm) (st_trades two_trades) ts' \<and>
      st_trades s' = filter (\<lambda>t. \<not> IsFinalised t) ts' \<and>
      st_trade_archive s' = st_trade_archive two_trades @ map (GetPublicInfo (state_account two_trades)) (filter IsFinalised ts'))"
proof -
  let ?s' = "two_trades\<lparr>st_trades := [buyer_trade\<lparr>ts_start_time := Some 2000\<rparr>],
    st_trade_archive := [GetPublicInfo ''buyer'' (buyer_trade\<lparr>ts_state := Some ABANDONED\<rparr>)]\<rparr>"
  have run: "UpdateAndArchiveTrades sample_tm (two_trades, late_world) = (Ret (), (?s', late_world))" by code_simp
  from update_archives_finalised [OF run] run show ?thesis by (intro exI [of _ ?s']) simp
qed

text \<open>
  In every reachable state of the manager (orders added and removed, trades started,
  messages processed, trades updated, in any order), each active trade is consistent, not
  final, and not with ourselves; each active trade on one of our own orders holds the lock
  of that order; and no two active trades are about the same own order.
\<close>

theorem manager_state_consistent:
  assumes "runs (manager_step TM) (init_state account) es s"
  shows "(\<forall>t \<in> set (st_trades s). trade_inv (state_account s) t \<and> \<not> IsFinalised t \<and>
      counterparty t \<noteq> state_account s \<and> (GetRole (state_account s) t = MAKER \<longrightarrow> held (ord_id t) s)) \<and>
    distinct (map ord_id (filter (\<lambda>t. GetRole (state_account s) t = MAKER) (st_trades s)))"
  using manager_runs_inv [OF assms manager_inv_init]
  by (simp add: manager_inv_def active_trade_def maker_ids_def)

text \<open>The seller adds an order, and the buyer takes it.\<close>

definition selling :: State where
  "selling = (init_state ''seller'')\<lparr>st_next_free_id := Some 1,
     st_own_orders := \<lparr>ooa_account = None, ooa_orders = [(0, sample_order\<lparr>order_account := None, order_id := None\<rparr>)]\<rparr>\<rparr>"

definition taking_msg :: ProcessingMessage where
  "taking_msg = empty_pm\<lparr>pm_counterparty := Some ''buyer'', pm_identifier := Some (''seller'' @ CHR 0x0A # ''0''),
     pm_taking_order := Some \<lparr>to_id = Some 0, to_units = Some 3\<rparr>\<rparr>"

definition taken_trade :: TradeState where
  "taken_trade = (new_trade (sample_order\<lparr>order_id := Some 0\<rparr>) 1000 3 ''buyer'')\<lparr>ts_seller_data := Some sample_sd\<rparr>"

definition sold :: State where
  "sold = selling\<lparr>st_own_orders := \<lparr>ooa_account = None, ooa_orders =
       [(0, sample_order\<lparr>order_account := None, order_id := None, order_locked := Some True\<rparr>)]\<rparr>,
     st_trades := [taken_trade]\<rparr>"

definition start_world :: mock where
  "start_world = sale_world\<lparr>mock_time := 1000000000000\<rparr>"

definition data_reply :: ProcessingMessage where
  "data_reply = (InitProcessingMessage taken_trade)\<lparr>pm_seller_data := Some (sample_sd\<lparr>sd_name_output := None\<rparr>)\<rparr>"

lemma taking_run:
  "ProcessMessage sample_tm taking_msg (selling, start_world) = (Ret (Some data_reply),
     (sold, start_world\<lparr>mx_addrCount := 2, mx_locked := (''seller txid'', 12) # mx_locked start_world\<rparr>))"
  by code_simp

lemma selling_step: "manager_step sample_tm (OwnOrder (EvAdd sample_order)) (init_state ''seller'') selling"
proof (rule m_own)
  have "Add base_virtual sample_order (init_state ''seller'', start_world) = (Ret True, (selling, start_world))" by code_simp
  then have "own_step (base_virtual :: mock MyOrdersVirtual) (EvAdd sample_order) (init_state ''seller'') selling"
    by (rule own_step.add) (simp add: init_state_def)
  then show "own_step (tm_myOrders sample_tm) (EvAdd sample_order) (init_state ''seller'') selling"
    by (simp add: sample_tm_def)
qed simp

theorem manager_state_consistent_witness:
  "trade_inv ''seller'' taken_trade \<and> \<not> IsFinalised taken_trade \<and> held 0 sold"
proof -
  have run: "runs (manager_step sample_tm) (init_state ''seller'')
      [OwnOrder (EvAdd sample_order), Processes taking_msg (Some data_reply)] sold"
    using selling_step m_process [OF taking_run] by (auto simp: runs_cons_iff)
  have c: "st_trades sold = [taken_trade]" "state_account sold = ''seller''" "GetRole ''seller'' taken_trade = MAKER"
      "ord_id taken_trade = 0"
    by code_simp+
  note props = manager_state_consistent [OF run]
  have "trade_inv ''seller'' taken_trade \<and> \<not> IsFinalised taken_trade \<and>
      (GetRole ''seller'' taken_trade = MAKER \<longrightarrow> held (ord_id taken_trade) sold)"
    using props [unfolded c(1,2)] by simp
  with c(3,4) show ?thesis by simp
qed


text \<open>An order is added; before its refresh has run, two messages that want to take it arrive.\<close>

definition greedy_msg :: ProcessingMessage where
  "greedy_msg = taking_msg\<lparr>pm_taking_order := Some \<lparr>to_id = Some 0, to_units = Some 9\<rparr>\<rparr>"

definition locked_state :: State where
  "locked_state = set_own [(0, sample_order\<lparr>order_account := None, order_id := None, order_locked := Some True\<rparr>)] selling"

abbreviation lock_for :: "ProcessingMessage \<Rightarrow> act" where
  "lock_for m \<equiv> LockSec m ''buyer'' (the (pm_taking_order m))"

abbreviation taken_for :: "ProcessingMessage \<Rightarrow> act" where
  "taken_for m \<equiv> TakenSec m ''buyer'' (the (pm_taking_order m)) (sample_order\<lparr>order_id := Some 0\<rparr>)"

definition race_events :: "conc_event list" where
  "race_events = [Starts (RqAdd sample_order), Runs 0 (AddSec sample_order), Starts (RqMessage ''buyer'' greedy_msg),
     Starts (RqMessage ''buyer'' taking_msg), Runs 1 (lock_for greedy_msg), Runs 2 (lock_for taking_msg)]"

lemma race_steps:
  "exec_act sample_tm (AddSec sample_order) (init_state ''seller'', new_mock) = (Ret [Refresh], (selling, new_mock))"
  "exec_act sample_tm (lock_for greedy_msg) (selling, new_mock) = (Ret [Refresh, taken_for greedy_msg], (locked_state, new_mock))"
  "exec_act sample_tm (lock_for taking_msg) (locked_state, new_mock) = (Ret [], (locked_state, new_mock))"
  by code_simp+

lemma race_requests:
  "request_acts (RqAdd sample_order) = [AddSec sample_order]"
  "request_acts (RqMessage ''buyer'' greedy_msg) = [lock_for greedy_msg]"
  "request_acts (RqMessage ''buyer'' taking_msg) = [lock_for taking_msg]"
  by (simp_all add: request_acts_def greedy_msg_def taking_msg_def)

lemma race_runs:
  "runs (conc_step sample_tm) (init_state ''seller'', []) race_events (locked_state, [[Refresh], [Refresh, taken_for greedy_msg], []])"
proof -
  let ?step = "conc_step sample_tm" and ?s0 = "init_state ''seller''" and ?g = "lock_for greedy_msg" and ?t = "lock_for taking_msg"
  have "?step (Starts (RqAdd sample_order)) (?s0, []) (?s0, [[AddSec sample_order]])"
    using c_start [of sample_tm "RqAdd sample_order" ?s0 "[]"] by (simp add: race_requests)
  moreover have "?step (Runs 0 (AddSec sample_order)) (?s0, [[AddSec sample_order]]) (selling, [[Refresh]])"
    using c_run [OF race_steps(1), of "[]" "[]" "[]"] by (simp add: can_run_def init_state_def)
  moreover have "?step (Starts (RqMessage ''buyer'' greedy_msg)) (selling, [[Refresh]]) (selling, [[Refresh], [?g]])"
    using c_start [of sample_tm "RqMessage ''buyer'' greedy_msg" selling "[[Refresh]]"] by (simp add: race_requests)
  moreover have "?step (Starts (RqMessage ''buyer'' taking_msg)) (selling, [[Refresh], [?g]]) (selling, [[Refresh], [?g], [?t]])"
    using c_start [of sample_tm "RqMessage ''buyer'' taking_msg" selling "[[Refresh], [?g]]"] by (simp add: race_requests)
  moreover have "?step (Runs 1 ?g) (selling, [[Refresh], [?g], [?t]]) (locked_state, [[Refresh], [Refresh, taken_for greedy_msg], [?t]])"
    using c_run [OF race_steps(2), of "[[Refresh]]" "[]" "[[?t]]"] by (simp add: can_run_def)
  moreover have "?step (Runs 2 ?t) (locked_state, [[Refresh], [Refresh, taken_for greedy_msg], [?t]])
      (locked_state, [[Refresh], [Refresh, taken_for greedy_msg], []])"
    using c_run [OF race_steps(3), of "[[Refresh], [Refresh, taken_for greedy_msg]]" "[]" "[]"]
    by (simp add: can_run_def numeral_2_eq_2)
  ultimately show ?thesis unfolding race_events_def by (elim runs_cons) (rule runs_nil)
qed


text \<open>
  A message without a taken order concerns at most one trade: the first active trade with
  the sender as counterparty and the message's identifier. No other trade, no order and no
  archived trade changes, the terms of that trade stay, and a reply is addressed to the
  sender under the same identifier.
\<close>

theorem message_concerns_one_trade:
  assumes "ProcessMessage TM msg (s, w) = (Ret r, (s', w'))" "pm_taking_order msg = None"
  shows "s' = s \<and> r = None \<or>
    (\<exists>i t'. i < length (st_trades s) \<and> Matches msg (st_trades s ! i) \<and> (\<forall>j < i. \<not> Matches msg (st_trades s ! j)) \<and>
      s' = s\<lparr>st_trades := (st_trades s)[i := t']\<rparr> \<and> terms t' = terms (st_trades s ! i) \<and>
      (\<forall>m. r = Some m \<longrightarrow> pm_counterparty m = pm_counterparty msg \<and> pm_identifier m = pm_identifier msg \<and> pm_taking_order m = None))"
proof -
  from assms obtain other where other: "pm_counterparty msg = Some other"
    and p: "process_matching TM msg (s, w) = (Ret r, (s', w'))"
    by (auto simp: ProcessMessage_def split: option.splits)
  show ?thesis
  proof (cases "first_match msg 0 (st_trades s)")
    case None
    with p show ?thesis by (simp add: process_matching_def)
  next
    case (Some i)
    then have i: "i < length (st_trades s)" "Matches msg (st_trades s ! i)" "\<forall>j < i. \<not> Matches msg (st_trades s ! j)"
      by (simp_all add: first_match_Some)
    let ?acc = "state_account s" and ?t = "st_trades s ! i"
    from p Some consider (ok) pb' where "HasReply TM ?acc (HandleMessage ?acc msg ?t, w) = (Ret r, (pb', w'))"
        "s' = s\<lparr>st_trades := (st_trades s)[i := pb']\<rparr>"
      | (exc) e pb' where "HasReply TM ?acc (HandleMessage ?acc msg ?t, w) = (Throw e, (pb', w'))"
        "s' = s\<lparr>st_trades := (st_trades s)[i := pb']\<rparr>" "r = None"
      by (auto simp: process_matching_def catch_Ret_iff onTrade_eq)
    then obtain r' pb' where
        h: "HasReply TM ?acc (HandleMessage ?acc msg ?t, w) = (r', (pb', w'))"
      and s': "s' = s\<lparr>st_trades := (st_trades s)[i := pb']\<rparr>" and r: "r = sent_of r'"
      by cases (force simp: sent_of_def)+
    have "terms pb' = terms ?t" using HasReply_forward [OF h] by (simp add: terms_def)
    moreover have "pm_counterparty m = pm_counterparty msg \<and> pm_identifier m = pm_identifier msg \<and> pm_taking_order m = None"
      if "r = Some m" for m
    proof -
      from that r have "r' = Ret (Some m)" by (cases r') (auto simp: sent_of_def)
      from HasReply_sent [OF h [unfolded this]] have "pm_counterparty m = Some (counterparty ?t) \<and>
          pm_identifier m = Some (GetIdentifier ?t) \<and> pm_taking_order m = None"
        by (auto simp: InitProcessingMessage_def empty_pm_def GetIdentifier_def)
      with i(2) other show ?thesis
        by (cases "pm_identifier msg") (auto simp: Matches_def GetIdentifier_def)
    qed
    ultimately show ?thesis using i s' by blast
  qed
qed

theorem message_concerns_one_trade_witness:
  "ProcessMessage sample_tm data_msg ((init_state ''buyer'')\<lparr>st_trades := [buyer_trade]\<rparr>, sale_world)
     = (Ret (Some ((sample_msg ''seller'')\<lparr>pm_psbt := Some \<lparr>tp_psbt = Some ''partial''\<rparr>\<rparr>)),
        ((init_state ''buyer'')\<lparr>st_trades := [buyer_pending]\<rparr>, sale_world)) \<and>
   terms buyer_pending = terms buyer_trade"
proof
  show run: "ProcessMessage sample_tm data_msg ((init_state ''buyer'')\<lparr>st_trades := [buyer_trade]\<rparr>, sale_world)
     = (Ret (Some ((sample_msg ''seller'')\<lparr>pm_psbt := Some \<lparr>tp_psbt = Some ''partial''\<rparr>\<rparr>)),
        ((init_state ''buyer'')\<lparr>st_trades := [buyer_pending]\<rparr>, sale_world))" by code_simp
  have m: "pm_taking_order data_msg = None" "pm_identifier data_msg \<noteq> None"
    by (simp_all add: data_msg_def sample_msg_def empty_pm_def)
  from message_concerns_one_trade [OF run m(1)] obtain t' where
    "(init_state ''buyer'')\<lparr>st_trades := [buyer_pending]\<rparr> = (init_state ''buyer'')\<lparr>st_trades := [t']\<rparr>" "terms t' = terms buyer_trade"
    by auto
  from arg_cong [OF this(1), of st_trades] this(2) show "terms buyer_pending = terms buyer_trade" by simp
qed

text \<open>
  An order that is already taken cannot be taken again: a message that takes a held order is
  refused without any effect.
\<close>

theorem held_order_refused:
  assumes "pm_counterparty msg = Some other" "pm_taking_order msg = Some to" "held (dflt 0 (to_id to)) s"
  shows "ProcessMessage TM msg (s, w) = (Ret None, (s, w))"
proof -
  have "TryLock (tm_myOrders TM) (dflt 0 (to_id to)) (s, w) = (Ret None, (s, w))"
    using assms(3) by (auto simp: TryLock_def held_def split: option.splits)
  with assms(1,2) show ?thesis by (simp add: ProcessMessage_def bnd_run_Ret)
qed

theorem held_order_refused_witness:
  "ProcessMessage sample_tm (taking_msg\<lparr>pm_counterparty := Some ''third''\<rparr>) (sold, start_world) = (Ret None, (sold, start_world))"
  by (rule held_order_refused [where to = "\<lparr>to_id = Some 0, to_units = Some 3\<rparr>" and other = "''third''"])
     (simp_all add: taking_msg_def empty_pm_def held_def sold_def selling_def)

text \<open>
  When an order is taken successfully, the new trade is recorded with exactly the order,
  units and maker, and the message to the maker names the maker, the order's ID and the
  units, carries no PSBT, and carries seller data only if we are selling.
\<close>

theorem take_order_message:
  assumes "TakeOrder TM ord units (s, w) = (Ret (Some msg), (s', w'))"
  shows "\<exists>t. s' = s\<lparr>st_trades := st_trades s @ [t]\<rparr> \<and> ts_order t = ord \<and> ts_units t = Some units \<and>
    Some (counterparty t) = order_account ord \<and> counterparty t \<noteq> state_account s \<and>
    pm_counterparty msg = order_account ord \<and> pm_identifier msg = Some (GetIdentifier t) \<and>
    pm_taking_order msg = Some \<lparr>to_id = order_id ord, to_units = Some units\<rparr> \<and> pm_psbt msg = None \<and>
    (pm_seller_data msg \<noteq> None \<longrightarrow> order_type ord = Some BID \<and> has (ts_seller_data t))"
  using assms
proof (rule TakeOrder_Some)
  fix now w1 reply pb
  let ?other = "dflt [] (order_account ord)" let ?new = "new_trade ord now units ?other"
  assume c: "CheckOrder ord units" "?other \<noteq> state_account s"
    and h: "HasReply TM (state_account s) (?new, w1) = (Ret reply, (pb, w'))"
    and s': "s' = s\<lparr>st_trades := st_trades s @ [pb]\<rparr>"
    and msg: "msg = SetTakingOrder pb (case reply of Some m \<Rightarrow> m | None \<Rightarrow> InitProcessingMessage pb)"
  have t: "ts_order pb = ord" "ts_units pb = Some units" "counterparty pb = ?other"
    using HasReply_forward [OF h] by (auto simp: terms_def new_trade_def)
  have o: "order_account ord = Some ?other" "order_id ord = Some (ord_id pb)" "has (order_type ord)"
    using c(1) t(1) by (auto simp: CheckOrder_def has_iff split: if_splits)
  have f: "ts_seller_data ?new = None" by (simp add: new_trade_def empty_ts_def)
  have i: "InitProcessingMessage ?new = InitProcessingMessage pb"
    using t by (simp add: InitProcessingMessage_def GetIdentifier_def)
  have r: "m = (InitProcessingMessage pb)\<lparr>pm_seller_data := Some (sd\<lparr>sd_name_output := None\<rparr>)\<rparr> \<and> has (ts_seller_data pb) \<and>
      GetOrderType (state_account s) ?new = ASK" if "reply = Some m" "sd = dflt empty_sd (ts_seller_data pb)" for m sd
    using HasReply_sent [OF h [unfolded that(1)]] f i that(2) by auto
  have ty: "GetOrderType (state_account s) ?new = ASK \<Longrightarrow> order_type ord = Some BID"
    using c(2) o(3) by (auto simp: GetOrderType_def GetRole_def has_iff split: order_type.splits)
  have init: "pm_counterparty (InitProcessingMessage pb) = order_account ord"
      "pm_identifier (InitProcessingMessage pb) = Some (GetIdentifier pb)" "pm_psbt (InitProcessingMessage pb) = None"
      "pm_seller_data (InitProcessingMessage pb) = None"
    using t(3) o(1) by (simp_all add: InitProcessingMessage_def empty_pm_def)
  have m: "msg = SetTakingOrder pb (InitProcessingMessage pb) \<or>
      (\<exists>sd. msg = SetTakingOrder pb ((InitProcessingMessage pb)\<lparr>pm_seller_data := sd\<rparr>)) \<and> has (ts_seller_data pb) \<and> order_type ord = Some BID"
    using msg r ty by (cases reply) (simp, metis option.simps(5))
  show ?thesis
    using m s' t o(1,2) c(2) init
    by (intro exI [of _ pb]) (elim disjE exE conjE; simp add: SetTakingOrder_def)
qed

theorem take_order_message_witness:
  "\<exists>t. (init_state ''buyer'')\<lparr>st_trades := [buyer_trade]\<rparr> = (init_state ''buyer'')\<lparr>st_trades := st_trades (init_state ''buyer'') @ [t]\<rparr> \<and>
    ts_order t = sample_order \<and> ts_units t = Some 3"
proof -
  have "TakeOrder sample_tm sample_order 3 (init_state ''buyer'', start_world) =
      (Ret (Some (SetTakingOrder buyer_trade (sample_msg ''seller''))), ((init_state ''buyer'')\<lparr>st_trades := [buyer_trade]\<rparr>, start_world))"
    by code_simp
  from take_order_message [OF this] show ?thesis by blast
qed

subsection \<open>After a success\<close>

lemma set_refreshed: "refreshed os s s' \<Longrightarrow> set (own_orders s') \<subseteq> set os"
  by (auto simp: refreshed_def dest: subsetD [OF subseq_set])

text \<open>
  C35: After a trade on an own order has succeeded, that order is gone. It is replaced by an order
  under a new ID, for exactly the remaining units and otherwise the same terms, only if some
  units remain and they still reach the order's minimum; no other order is added.
\<close>

theorem success_reduces_order:
  assumes "HandleSuccess TM account pb (s, w) = (Ret (), (s', w'))" "GetRole account pb = MAKER"
    "dflt 0 (ts_units pb) \<le> dflt 0 (order_max_units (ts_order pb))"
  shows "\<exists>rest. unat rest + unat (dflt 0 (ts_units pb)) = unat (dflt 0 (order_max_units (ts_order pb))) \<and>
    set (own_orders s') \<subseteq> {(k, ord) \<in> set (own_orders s). k \<noteq> ord_id pb} \<union>
      (if 0 < rest \<and> dflt 0 (order_min_units (ts_order pb)) \<le> rest
       then {(next_id s, (ts_order pb)\<lparr>order_account := None, order_id := None, order_max_units := Some rest\<rparr>)} else {})"
proof -
  let ?V = "tm_myOrders TM" and ?rest = "dflt 0 (order_max_units (ts_order pb)) - dflt 0 (ts_units pb)"
  let ?new = "(ts_order pb)\<lparr>order_id := None, order_max_units := Some ?rest\<rparr>"
  let ?big = "0 < ?rest \<and> dflt 0 (order_min_units (ts_order pb)) \<le> ?rest"
  have rest: "unat ?rest + unat (dflt 0 (ts_units pb)) = unat (dflt 0 (order_max_units (ts_order pb)))"
    using assms(3) by (simp add: unat_sub word_le_nat_alt)
  from assms(1,2) obtain s1 w1 where rm: "RemoveById ?V (ord_id pb) (s, w) = (Ret (), (s1, w1))"
    and fin: "if ?big then \<exists>b. Add ?V ?new (s1, w1) = (Ret b, (s', w')) else s' = s1"
    by (auto simp: HandleSuccess_def prog_inv Let_def split: if_splits)
  have s1: "set (own_orders s1) \<subseteq> {(k, ord) \<in> set (own_orders s). k \<noteq> ord_id pb}" "next_id s1 = next_id s"
    using set_refreshed [OF RemoveById_Ret [OF rm]] refreshed_next [OF RemoveById_Ret [OF rm]]
    by (auto simp: AList.delete_eq)
  show ?thesis
  proof (cases ?big)
    case False
    then show ?thesis using rest fin s1 by (intro exI [of _ ?rest]) auto
  next
    case True
    then obtain b where add: "Add ?V ?new (s1, w1) = (Ret b, (s', w'))" using fin by auto
    have "set (own_orders s') \<subseteq> insert (next_id s, ?new\<lparr>order_account := None, order_id := None\<rparr>) (set (own_orders s1))"
    proof (cases b)
      case True
      with add have "Add ?V ?new (s1, w1) = (Ret True, (s', w'))" by simp
      then have "refreshed (AList.update (next_id s1) (?new\<lparr>order_account := None, order_id := None\<rparr>) (own_orders s1))
          (s1\<lparr>st_next_free_id := Some (next_id s1 + 1)\<rparr>) s'" by (rule Add_True)
      from set_refreshed [OF this] s1(2) show ?thesis using set_update_alist [of "next_id s1"] by fastforce
    next
      case False
      with add show ?thesis by (auto dest: Add_False)
    qed
    then show ?thesis using rest s1(1) True by (intro exI [of _ ?rest]) auto
  qed
qed

definition succeeded :: TradeState where
  "succeeded = taken_trade\<lparr>ts_state := Some SUCCESS\<rparr>"

theorem success_reduces_order_witness:
  "\<exists>rest. unat rest + 3 = 5 \<and>
    set (own_orders (set_own [(1, sample_order\<lparr>order_account := None, order_id := None, order_max_units := Some 2\<rparr>)] sold
        \<lparr>st_next_free_id := Some 2\<rparr>))
      \<subseteq> {(k, ord) \<in> set (own_orders sold). k \<noteq> 0} \<union>
      (if 0 < rest \<and> 0 \<le> rest
       then {(1, (ts_order succeeded)\<lparr>order_account := None, order_id := None, order_max_units := Some rest\<rparr>)} else {})"
proof -
  have run: "HandleSuccess sample_tm ''seller'' succeeded (sold, start_world) = (Ret (),
      (set_own [(1, sample_order\<lparr>order_account := None, order_id := None, order_max_units := Some 2\<rparr>)] sold
        \<lparr>st_next_free_id := Some 2\<rparr>, start_world))" by code_simp
  have c: "GetRole ''seller'' succeeded = MAKER" "ord_id succeeded = 0" "next_id sold = 1"
      "dflt 0 (ts_units succeeded) = 3" "dflt 0 (order_max_units (ts_order succeeded)) = 5"
      "dflt 0 (order_min_units (ts_order succeeded)) = 0"
    by code_simp+
  from success_reduces_order [OF run c(1)] show ?thesis unfolding c by simp
qed

section \<open>Checks that can be made to fail\<close>

definition zero_msg :: ProcessingMessage where
  "zero_msg = taking_msg\<lparr>pm_taking_order := Some \<lparr>to_id = Some 0, to_units = Some 0\<rparr>\<rparr>"


text \<open>
  Cancelling an own order while a trade on it is running makes the daemon abort when that
  trade times out: the failed trade wants to unlock an order that is not there any more.
\<close>

theorem cancel_while_taken_aborts:
  "\<exists>s1 s2. RemoveById base_virtual 0 (sold, late_world) = (Ret (), (s1, late_world)) \<and>
     UpdateAndArchiveTrades sample_tm (s1, late_world) = (Fatal, (s2, late_world))"
proof -
  let ?s1 = "set_own [] sold"
  have "RemoveById base_virtual 0 (sold, late_world) = (Ret (), (?s1, late_world))" by code_simp
  moreover have "UpdateAndArchiveTrades sample_tm (?s1, late_world) = (Fatal, (?s1\<lparr>st_trades := [],
      st_trade_archive := [GetPublicInfo ''seller'' (taken_trade\<lparr>ts_state := Some ABANDONED\<rparr>)]\<rparr>, late_world))" by code_simp
  ultimately show ?thesis by blast
qed

text \<open>
  An RPC error during a periodic update ends the process: the update lets the exception
  through, and the worker thread of the periodic job does not catch it.
\<close>

theorem background_rpc_error_aborts:
  "\<exists>e s' w'. UpdateAndArchiveTrades sample_tm ((init_state ''buyer'')\<lparr>st_trades := [buyer_pending]\<rparr>, new_mock) = (Throw e, (s', w')) \<and>
     job_round (UpdateAndArchiveTrades sample_tm) ((init_state ''buyer'')\<lparr>st_trades := [buyer_pending]\<rparr>, new_mock) = (Fatal, (s', w'))"
proof -
  have "UpdateAndArchiveTrades sample_tm ((init_state ''buyer'')\<lparr>st_trades := [buyer_pending]\<rparr>, new_mock)
      = (Throw (JsonRpcException (- 22) ''unknown psbt: partial''), ((init_state ''buyer'')\<lparr>st_trades := [buyer_pending]\<rparr>, new_mock))"
    by code_simp
  then show ?thesis by (intro exI conjI) (assumption, simp add: job_round_def catch_def)
qed

definition no_address_tm :: "mock TradeManager" where
  "no_address_tm = sample_tm\<lparr>tm_env := sample_env\<lparr>getnewaddress := throw (JsonRpcException (- 12) ''keypool ran out'')\<rparr>\<rparr>"

text \<open>
  When creating the seller's data fails after the name output was locked (here because the
  wallet gives no address), taking the order is refused and no trade remembers the output,
  so it stays locked in the wallet.
\<close>

theorem failed_seller_data_leaks_lock:
  "\<exists>w'. TakeOrder no_address_tm (sample_order\<lparr>order_account := Some ''buyer'', order_type := Some BID\<rparr>) 3 (init_state ''seller'', start_world)
     = (Ret None, (init_state ''seller'', w')) \<and>
     (''seller txid'', 12) \<notin> set (mx_locked start_world) \<and> (''seller txid'', 12) \<in> set (mx_locked w')"
proof -
  let ?w' = "start_world\<lparr>mx_locked := (''seller txid'', 12) # mx_locked start_world\<rparr>"
  have "TakeOrder no_address_tm (sample_order\<lparr>order_account := Some ''buyer'', order_type := Some BID\<rparr>) 3 (init_state ''seller'', start_world)
     = (Ret None, (init_state ''seller'', ?w'))" by code_simp
  moreover have "(''seller txid'', 12) \<notin> set (mx_locked start_world)" by code_simp
  ultimately show ?thesis by (intro exI [of _ ?w']) simp
qed

end
