(* ===== verification/DaemonProps.thy ===== *)
theory DaemonProps
  imports Daemon WorldFrame ManagerProps "HOL-Library.Sublist"
begin

text \<open>
  What the handlers of the daemon do. The trade code runs with the XMPP client as part of its
  world, and the frame theorem of \<open>world_frame\<close> shows that it does nothing to the client but
  publish own orders. With that, each handler is described by what it changes: who can get a
  reply to a private message, and which orders a room message brings into the book.
\<close>

section \<open>Running the parts\<close>

lemma onAuth_eq: "onAuth m im = (r, im') \<longleftrightarrow> (\<exists>a. m (im_auth im) = (r, a) \<and> im' = im\<lparr>im_auth := a\<rparr>)"
  by (auto simp: onAuth_def split: prod.splits)

lemma onBook_eq: "onBook m im = (r, im') \<longleftrightarrow> (\<exists>b. m (im_allOrders im) = (r, b) \<and> im' = im\<lparr>im_allOrders := b\<rparr>)"
  by (auto simp: onBook_def split: prod.splits)

lemma onNet_eq: "onNet m im = (r, im') \<longleftrightarrow> (\<exists>n. m (im_net im) = (r, n) \<and> im' = im\<lparr>im_net := n\<rparr>)"
  by (auto simp: onNet_def split: prod.splits)

lemma onState_eq:
  "onState m im = (r, im') \<longleftrightarrow> (\<exists>s n. m (im_state im, im_net im) = (r, (s, n)) \<and> im' = im\<lparr>im_state := s, im_net := n\<rparr>)"
  by (auto simp: onState_def split: prod.splits)

lemma onL_eq: "onL m n = (r, n') \<longleftrightarrow> (\<exists>p. m (fst n) = (r, p) \<and> n' = (p, snd n))"
  by (cases n) (auto simp: onL_def split: prod.splits)

lemmas impl_eqs = onAuth_eq onBook_eq onNet_eq onState_eq onL_eq

text \<open>The XMPP client of the daemon.\<close>

abbreviation client :: "'w Impl \<Rightarrow> MucClient" where
  "client im \<equiv> fst (im_net im)"

section \<open>The trade code only publishes\<close>

text \<open>Nothing happened to the client but that own orders were published.\<close>

definition only_published :: "MucClient \<Rightarrow> MucClient \<times> 'w \<Rightarrow> bool" where
  "only_published c n \<longleftrightarrow> (\<exists>pubs. fst n = c\<lparr>mc_out := mc_out c @ map Published pubs\<rparr>)"

lemma only_published_refl: "only_published (fst n) n"
  by (auto simp: only_published_def intro: exI [of _ "[]"])

lemma keeps_fst_onW: "keeps (only_published c) (onW m)"
  by (auto simp: keeps_def onW_def only_published_def split: prod.splits)

lemma publishing_step:
  assumes "only_published c n" "fst n' = (fst n)\<lparr>mc_out := mc_out (fst n) @ [Published oo]\<rparr>"
  shows "only_published c n'"
proof -
  from assms(1) obtain pubs where "fst n = c\<lparr>mc_out := mc_out c @ map Published pubs\<rparr>" by (auto simp: only_published_def)
  with assms(2) have "fst n' = c\<lparr>mc_out := mc_out c @ map Published (pubs @ [oo])\<rparr>" by simp
  then show ?thesis unfolding only_published_def by blast
qed

lemma keeps_UpdateOrders: "keeps (only_published c) (daemon_UpdateOrders s oo)"
proof (rule keepsI)
  fix n r n' assume pub: "only_published c n" and run: "daemon_UpdateOrders s oo n = (r, n')"
  from run have "n' = n \<or> fst n' = (fst n)\<lparr>mc_out := mc_out (fst n) @ [Published oo]\<rparr>"
    by (auto simp: daemon_UpdateOrders_def PublishMessage_def SendMessage_def checked_def onL_def split: if_splits prod.splits)
  with pub publishing_step show "only_published c n'" by blast
qed

interpretation publishing: world_frame "daemon_tm C" "only_published c"
  by unfold_locales
    (simp_all add: daemon_tm_def lift_env_def lift_spec_def MyOrdersImpl_def keeps_fst_onW keeps_UpdateOrders)

lemma trade_code_publishes:
  assumes "ProcessMessage (daemon_tm C) msg (s, n) = (r, (s', n'))"
  shows "only_published (fst n) n'"
  using keepsD [OF publishing.process_message _ assms, of "fst n"] only_published_refl [of n] by simp

lemma take_publishes:
  assumes "TakeOrder (daemon_tm C) ord units (s, n) = (r, (s', n'))"
  shows "only_published (fst n) n'"
  using keepsD [OF publishing.take_order _ assms, of "fst n"] only_published_refl [of n] by simp

section \<open>Replies\<close>

lemma process_matching_reply:
  assumes "process_matching TM msg (s, w) = (Ret (Some m), (s', w'))" "pm_counterparty msg = Some other"
  shows "pm_counterparty m = Some other"
proof -
  from assms obtain i where i: "first_match msg 0 (st_trades s) = Some i"
    by (auto simp: process_matching_def split: option.splits)
  let ?acc = "state_account s" and ?t = "st_trades s ! i"
  from assms(1) i obtain pb' where h: "HasReply TM ?acc (HandleMessage ?acc msg ?t, w) = (Ret (Some m), (pb', w'))"
    by (auto simp: process_matching_def catch_Ret_iff onTrade_eq)
  have "pm_counterparty m = Some (counterparty ?t)"
    using HasReply_sent [OF h] by (auto simp: InitProcessingMessage_def empty_pm_def)
  moreover have "Matches msg ?t" using i by (simp add: first_match_Some)
  ultimately show ?thesis using assms(2) by (simp add: Matches_def)
qed

lemma ProcessMessage_reply:
  assumes "ProcessMessage TM msg (s, w) = (Ret (Some m), (s', w'))" "pm_counterparty msg = Some other"
  shows "pm_counterparty m = Some other"
  using assms process_matching_reply
  by (fastforce simp: ProcessMessage_def prog_inv split: option.splits if_splits)

lemma SendProcessingMessage_eq:
  assumes "SendProcessingMessage m im = (r, im')"
  shows "im' = im \<or> (\<exists>jid. LookupJid (im_auth im) (dflt [] (pm_counterparty m)) = Some jid \<and>
    IsConnected (client im) \<and> r = Ret () \<and>
    im' = im\<lparr>im_net := ((client im)\<lparr>mc_out := mc_out (client im) @ [Sent jid (m\<lparr>pm_counterparty := None\<rparr>)]\<rparr>, snd (im_net im))\<rparr>)"
  using assms
  by (auto simp: SendProcessingMessage_def SendMessage_def onNet_eq onL_eq checked_eq_iff split: option.splits)

text \<open>A message whose claimed sender is overwritten.\<close>

definition claiming :: "string option \<Rightarrow> Stanza \<Rightarrow> Stanza" where
  "claiming other msg = msg\<lparr>ext_procmsg := map_option (\<lambda>x. x\<lparr>stanza_data := (stanza_data x)\<lparr>pm_counterparty := other\<rparr>\<rparr>) (ext_procmsg msg)\<rparr>"

lemma claiming_ignored: "Impl_HandlePrivate C sender (claiming other msg) = Impl_HandlePrivate C sender msg"
  by (cases "ext_procmsg msg") (simp_all add: Impl_HandlePrivate_def claiming_def cong: option.case_cong if_cong)

lemma handle_private_out:
  assumes "Impl_HandlePrivate C sender msg im = (r, im')"
  shows "\<exists>pubs replies. mc_out (client im') = mc_out (client im) @ map Published pubs @ map (Sent sender) replies \<and>
    length replies \<le> 1 \<and> (replies \<noteq> [] \<longrightarrow> (\<exists>account. trusted_jid (au_xidServers (im_auth im)) account sender))"
proof -
  have none: ?thesis if "im_net im' = im_net im" using that by (intro exI [of _ "[]"]) simp
  obtain ra a where auth: "Authenticate sender (im_auth im) = (ra, a)" by (rule prod.exhaust)
  let ?im1 = "im\<lparr>im_auth := a\<rparr>"
  show ?thesis
  proof (cases "\<exists>account pmExt. ra = Ret (Some account) \<and> ext_procmsg msg = Some pmExt \<and> stanza_valid pmExt")
    case False
    with assms auth have "im' = ?im1"
      by (auto simp: Impl_HandlePrivate_def bnd_def onAuth_def split: outcome.splits option.splits if_splits)
    then show ?thesis by (intro none) simp
  next
    case True
    then obtain account pmExt where t: "ra = Ret (Some account)" "ext_procmsg msg = Some pmExt" "stanza_valid pmExt" by blast
    let ?m = "(stanza_data pmExt)\<lparr>pm_counterparty := Some account\<rparr>"
    have look: "LookupJid a account = Some sender" "trusted_jid (au_xidServers (im_auth im)) account sender"
      using Authenticate_Some(1,2) auth t(1) by blast+
    obtain rp s n where p: "ProcessMessage (daemon_tm C) ?m (im_state im, im_net im) = (rp, (s, n))"
      by (metis prod.exhaust)
    let ?im2 = "?im1\<lparr>im_state := s, im_net := n\<rparr>"
    from trade_code_publishes [OF p [unfolded prod.collapse]] p obtain pubs where
        pubs: "fst n = (client im)\<lparr>mc_out := mc_out (client im) @ map Published pubs\<rparr>"
      by (auto simp: only_published_def)
    have run: "im' = ?im2 \<or> (\<exists>m. rp = Ret (Some m) \<and> SendProcessingMessage m ?im2 = (r, im'))"
      using assms auth t p
      by (auto simp: Impl_HandlePrivate_def bnd_def onAuth_def onState_def split: outcome.splits option.splits)
    show ?thesis
    proof (cases "im' = ?im2")
      case True
      then show ?thesis using pubs by (intro exI [of _ pubs] exI [of _ "[]"]) simp
    next
      case False
      with run obtain m where m: "rp = Ret (Some m)" "SendProcessingMessage m ?im2 = (r, im')" by blast
      from ProcessMessage_reply [OF p [unfolded m(1)]] have "pm_counterparty m = Some account" by simp
      with SendProcessingMessage_eq [OF m(2)] False look pubs
      show ?thesis by (intro exI [of _ pubs] exI [of _ "[m\<lparr>pm_counterparty := None\<rparr>]"]) auto
    qed
  qed
qed

section \<open>Orders from the room\<close>

text \<open>The order passes the validation, in some state of the world.\<close>

definition passes :: "'w AssetSpec \<Rightarrow> string \<Rightarrow> Order \<Rightarrow> bool" where
  "passes sp account ord \<longleftrightarrow> (\<exists>u u'. Impl_ValidateOrder sp account ord u = (Ret True, u'))"

lemma passes_static: "passes sp account ord \<Longrightarrow> static_valid ord"
  by (auto simp: passes_def Impl_ValidateOrder_def split: if_splits)

lemma collect_valid_Ret:
  assumes "fold_prog (collect_valid sp account) es acc w = (Ret os, w')"
  shows "\<exists>vs. os = acc @ vs \<and> subseq vs es \<and> (\<forall>v \<in> set vs. passes sp account (snd v))"
  using assms
proof (induction es arbitrary: acc w)
  case (Cons e es)
  from Cons.prems obtain acc' w1 where step: "collect_valid sp account e acc w = (Ret acc', w1)"
    and cont: "fold_prog (collect_valid sp account) es acc' w1 = (Ret os, w')"
    by (auto simp: prog_inv)
  from step obtain b where v: "Impl_ValidateOrder sp account (snd e) w = (Ret b, w1)"
    and acc': "acc' = (if b then acc @ [e] else acc)"
    by (auto simp: collect_valid_def prog_inv)
  note rest = cont [unfolded acc']
  from Cons.IH [OF rest] obtain vs where vs: "os = (if b then acc @ [e] else acc) @ vs" "subseq vs es"
      "\<forall>v \<in> set vs. passes sp account (snd v)" by blast
  show ?case
  proof (cases b)
    case True
    with v have "passes sp account (snd e)" by (auto simp: passes_def)
    with True vs show ?thesis by (intro exI [of _ "e # vs"]) simp
  next
    case False
    with vs show ?thesis by (intro exI [of _ vs]) (simp add: list_emb_Cons)
  qed
qed simp

text \<open>The orders a room message carries.\<close>

definition carried :: "Stanza \<Rightarrow> (uint64 \<times> Order) list" where
  "carried msg = (case ext_orders msg of None \<Rightarrow> [] | Some e \<Rightarrow> ooa_orders (stanza_data e))"

lemma on_room_message_Ret:
  assumes "on_room_message C now r msg priv im = (Ret (), im')"
  shows "im_state im' = im_state im \<and> client im' = client im \<and>
    (im_allOrders im' = im_allOrders im \<and> (im_auth im' = im_auth im \<or> (\<exists>jid ra. Authenticate jid (im_auth im) = (ra, im_auth im'))) \<or>
     (\<exists>jid account vs. ResolveNickname (client im) (jid_resource (msg_from msg)) = Some jid \<and>
        Authenticate jid (im_auth im) = (Ret (Some account), im_auth im') \<and>
        subseq vs (carried msg) \<and> (\<forall>v \<in> set vs. passes (dc_spec C) account (snd v)) \<and>
        OrderBook.UpdateOrders now \<lparr>ooa_account = Some account, ooa_orders = vs\<rparr> (im_allOrders im) = (Ret (), im_allOrders im')))"
proof -
  from assms obtain oj where m: "handleMUCMessage r msg priv (client im) = (Ret oj, client im)"
    and rest: "(case oj of None \<Rightarrow> ret () | Some jid \<Rightarrow> Impl_HandleMessage C now jid msg) im = (Ret (), im')"
    and oj: "oj = None \<or> oj = ResolveNickname (client im) (jid_resource (msg_from msg))"
    by (auto simp: on_room_message_def prog_inv onNet_eq onL_eq handleMUCMessage_def split: if_splits)
  show ?thesis
  proof (cases oj)
    case None
    with rest show ?thesis by simp
  next
    case (Some jid)
    with rest have h: "Impl_HandleMessage C now jid msg im = (Ret (), im')" by simp
    then obtain acc a where auth: "Authenticate jid (im_auth im) = (Ret acc, a)"
      by (auto simp: Impl_HandleMessage_def prog_inv onAuth_eq)
    show ?thesis
    proof (cases "\<exists>account e. acc = Some account \<and> ext_orders msg = Some e \<and> stanza_valid e")
      case False
      with h auth have "im' = im\<lparr>im_auth := a\<rparr>"
        by (auto simp: Impl_HandleMessage_def prog_inv onAuth_eq split: option.splits if_splits)
      with auth show ?thesis by auto
    next
      case True
      then obtain account e where t: "acc = Some account" "ext_orders msg = Some e" "stanza_valid e" by blast
      with h auth obtain os w' b where
          f: "fold_prog (collect_valid (dc_spec C) account) (ooa_orders (stanza_data e)) [] (snd (im_net im)) = (Ret os, w')"
        and u: "OrderBook.UpdateOrders now \<lparr>ooa_account = Some account, ooa_orders = os\<rparr> (im_allOrders im) = (Ret (), b)"
        and im': "im' = im\<lparr>im_auth := a, im_net := (client im, w'), im_allOrders := b\<rparr>"
        by (auto simp: Impl_HandleMessage_def prog_inv onAuth_eq onNet_eq onBook_eq onW_eq)
      from collect_valid_Ret [OF f] have "subseq os (carried msg)" "\<forall>v \<in> set os. passes (dc_spec C) account (snd v)"
        using t(2) by (auto simp: carried_def)
      moreover have "ResolveNickname (client im) (jid_resource (msg_from msg)) = Some jid" using oj Some by auto
      moreover have "im_state im' = im_state im" "client im' = client im" "im_allOrders im' = b" "im_auth im' = a"
        by (simp_all add: im')
      ultimately show ?thesis using auth t(1) u by blast
    qed
  qed
qed

end
