(* ===== verification/DaemonRuns.thy ===== *)
theory DaemonRuns
  imports DaemonProps
begin

text \<open>
  Runs of the daemon: room messages, presences, private messages, RPC commands, the periodic jobs
  and the threads of the XMPP client, in any order. Each step is a step of the trade manager,
  of the order book or of the client, so their invariants hold for the whole; the daemon adds
  that private messages only go to JIDs that were authenticated, and that the orders in the
  book are always such that they can be printed.
\<close>

section \<open>Steps\<close>

datatype daemon_event =
    RoomMessage Stanza
  | RoomPresence Presence
  | PrivateMessage Stanza
  | BookTimeout
  | RpcAdd Order
  | RpcCancel uint64
  | RpcTake Order Amount
  | OrdersRefresh
  | TradesUpdate
  | ClientEvent

text \<open>The events of the client that do not come through the daemon.\<close>

definition client_event :: "muc_event \<Rightarrow> bool" where
  "client_event e \<longleftrightarrow> (case e of Sends _ \<Rightarrow> False | Present _ \<Rightarrow> False | _ \<Rightarrow> True)"

text \<open>
  The second component of the state is the reading of the steady clock. The keys of the orders
  of a parsed message are distinct.
\<close>

inductive daemon_step :: "'w DaemonConf \<Rightarrow> daemon_event \<Rightarrow> 'w Impl \<times> int \<Rightarrow> 'w Impl \<times> int \<Rightarrow> bool"
  for C :: "'w DaemonConf" where
  d_room: "t \<le> now \<Longrightarrow> distinct (map fst (carried msg)) \<Longrightarrow> on_room_message C now r msg priv im = (Ret (), im') \<Longrightarrow>
     daemon_step C (RoomMessage msg) (im, t) (im', now)"
| d_presence: "t \<le> now \<Longrightarrow> on_presence vlog now r p im = (Ret (), im') \<Longrightarrow> daemon_step C (RoomPresence p) (im, t) (im', now)"
| d_private: "on_message C msg im = (Ret (), im') \<Longrightarrow> daemon_step C (PrivateMessage msg) (im, t) (im', t)"
| d_timeout: "t \<le> now \<Longrightarrow>
     daemon_step C BookTimeout (im, t) (im\<lparr>im_allOrders := RunTimeout now (im_allOrders im)\<rparr>, now)"
| d_add: "AddOrder C ord im = (Ret b, im') \<Longrightarrow> next_id (im_state im) \<noteq> - 1 \<Longrightarrow> daemon_step C (RpcAdd ord) (im, t) (im', t)"
| d_cancel: "CancelOrder C oid im = (Ret (), im') \<Longrightarrow> daemon_step C (RpcCancel oid) (im, t) (im', t)"
| d_take: "Daemon_TakeOrder C ord units im = (Ret b, im') \<Longrightarrow> daemon_step C (RpcTake ord units) (im, t) (im', t)"
| d_refresh: "onState (RunRefresh (MyOrdersImpl C)) im = (Ret (), im') \<Longrightarrow> daemon_step C OrdersRefresh (im, t) (im', t)"
| d_update: "onState (UpdateAndArchiveTrades (daemon_tm C)) im = (Ret (), im') \<Longrightarrow>
     ids_left (length (st_trades (im_state im))) (im_state im) \<Longrightarrow> daemon_step C TradesUpdate (im, t) (im', t)"
| d_client: "muc_step vlog e (client im) c' \<Longrightarrow> client_event e \<Longrightarrow>
     daemon_step C ClientEvent (im, t) (im\<lparr>im_net := (c', snd (im_net im))\<rparr>, t)"

section \<open>What a step does to each part\<close>

lemma daemon_tm_orders: "tm_myOrders (daemon_tm C) = MyOrdersImpl C"
  by (simp add: daemon_tm_def)

lemma on_presence_Ret:
  assumes "on_presence vlog now r p im = (Ret (), im')"
  shows "im_state im' = im_state im \<and> mc_out (client im') = mc_out (client im) \<and>
    (im_allOrders im' = im_allOrders im \<and> (im_auth im' = im_auth im \<or> (\<exists>jid ra. Authenticate jid (im_auth im) = (ra, im_auth im'))) \<or>
     (\<exists>jid account. Authenticate jid (im_auth im) = (Ret (Some account), im_auth im') \<and>
        OrderBook.UpdateOrders now \<lparr>ooa_account = Some account, ooa_orders = []\<rparr> (im_allOrders im) = (Ret (), im_allOrders im')))"
proof -
  from assms obtain gone c where m: "handleMUCParticipantPresence vlog r p (client im) = (Ret gone, c)"
    and rest: "(case gone of None \<Rightarrow> ret () | Some jid \<Rightarrow> Impl_HandleDisconnect now jid) (im\<lparr>im_net := (c, snd (im_net im))\<rparr>) = (Ret (), im')"
    by (auto simp: on_presence_def prog_inv onNet_eq onL_eq)
  have out: "mc_out c = mc_out (client im)"
    using m by (auto simp: handleMUCParticipantPresence_def checked_def bnd_def DisconnectAsync_def finish_joining_def
        client_run_simps Let_def split: if_splits option.splits)
  show ?thesis
  proof (cases gone)
    case None
    with rest out show ?thesis by auto
  next
    case (Some jid)
    with rest out show ?thesis
      by (auto simp: Impl_HandleDisconnect_def prog_inv onAuth_eq onBook_eq split: option.splits)
  qed
qed

lemma private_parts:
  assumes "Impl_HandlePrivate C sender msg im = (Ret (), im')"
  shows "im_allOrders im' = im_allOrders im" "\<exists>ra. Authenticate sender (im_auth im) = (ra, im_auth im')"
    "im_state im' = im_state im \<or> (\<exists>m r w w'. ProcessMessage (daemon_tm C) m (im_state im, w) = (Ret r, (im_state im', w')))"
proof -
  obtain ra a where auth: "Authenticate sender (im_auth im) = (ra, a)" by (rule prod.exhaust)
  have rest: "im' = im\<lparr>im_auth := a\<rparr> \<or> (\<exists>m r s n. ProcessMessage (daemon_tm C) m (im_state im, im_net im) = (Ret r, (s, n)) \<and>
      (case r of None \<Rightarrow> ret () | Some x \<Rightarrow> SendProcessingMessage x) (im\<lparr>im_auth := a, im_state := s, im_net := n\<rparr>) = (Ret (), im'))"
  proof (cases "\<exists>account pmExt. ra = Ret (Some account) \<and> ext_procmsg msg = Some pmExt \<and> stanza_valid pmExt")
    case False
    with assms auth have "im' = im\<lparr>im_auth := a\<rparr>"
      by (auto simp: Impl_HandlePrivate_def bnd_def onAuth_def split: outcome.splits option.splits if_splits)
    then show ?thesis ..
  next
    case True
    then obtain account pmExt where t: "ra = Ret (Some account)" "ext_procmsg msg = Some pmExt" "stanza_valid pmExt" by blast
    let ?m = "(stanza_data pmExt)\<lparr>pm_counterparty := Some account\<rparr>"
    obtain rp s n where p: "ProcessMessage (daemon_tm C) ?m (im_state im, im_net im) = (rp, (s, n))"
      by (metis prod.exhaust)
    from assms auth t p obtain r where r: "rp = Ret r"
        "(case r of None \<Rightarrow> ret () | Some x \<Rightarrow> SendProcessingMessage x) (im\<lparr>im_auth := a, im_state := s, im_net := n\<rparr>) = (Ret (), im')"
      by (cases rp) (simp_all add: Impl_HandlePrivate_def bnd_def onAuth_def onState_def)
    from p [unfolded r(1)] r(2) show ?thesis by blast
  qed
  have eq: "im_auth im' = a \<and> im_allOrders im' = im_allOrders im \<and> im_state im' = s"
    if "(case r of None \<Rightarrow> ret () | Some x \<Rightarrow> SendProcessingMessage x) (im\<lparr>im_auth := a, im_state := s, im_net := n\<rparr>) = (Ret (), im')" for r s n
    using that by (auto split: option.splits dest!: SendProcessingMessage_eq)
  show "im_allOrders im' = im_allOrders im" using rest eq by auto
  show "\<exists>ra. Authenticate sender (im_auth im) = (ra, im_auth im')" using rest eq auth by auto
  show "im_state im' = im_state im \<or> (\<exists>m r w w'. ProcessMessage (daemon_tm C) m (im_state im, w) = (Ret r, (im_state im', w')))"
    using rest eq by fastforce
qed

lemma take_parts:
  assumes "Daemon_TakeOrder C ord units im = (Ret b, im')"
  shows "im_allOrders im' = im_allOrders im" "im_auth im' = im_auth im"
    "\<exists>r w w'. TakeOrder (daemon_tm C) ord units (im_state im, w) = (Ret r, (im_state im', w'))"
    "\<exists>pubs sent. mc_out (client im') = mc_out (client im) @ map Published pubs @ sent \<and>
       (\<forall>x \<in> set sent. \<exists>account jid m. x = Sent jid m \<and> LookupJid (im_auth im) account = Some jid)"
proof -
  obtain rt s n where run: "TakeOrder (daemon_tm C) ord units (im_state im, im_net im) = (rt, (s, n))"
    by (metis prod.exhaust)
  from assms run obtain r where r: "rt = Ret r"
      "im' = im\<lparr>im_state := s, im_net := n\<rparr> \<or> (\<exists>x. SendProcessingMessage x (im\<lparr>im_state := s, im_net := n\<rparr>) = (Ret (), im'))"
    by (cases rt) (auto simp: Daemon_TakeOrder_def bnd_def onState_def split: option.splits outcome.splits prod.splits)
  note t = run [unfolded r(1)] and rest = r(2)
  from take_publishes [OF t [unfolded prod.collapse]] t obtain pubs where
      pubs: "fst n = (client im)\<lparr>mc_out := mc_out (client im) @ map Published pubs\<rparr>" by (auto simp: only_published_def)
  from rest have eq: "im' = im\<lparr>im_state := s, im_net := n\<rparr> \<or> (\<exists>jid account m. LookupJid (im_auth im) account = Some jid \<and>
      im' = im\<lparr>im_state := s, im_net := ((fst n)\<lparr>mc_out := mc_out (fst n) @ [Sent jid m]\<rparr>, snd n)\<rparr>)"
  proof
    assume "\<exists>x. SendProcessingMessage x (im\<lparr>im_state := s, im_net := n\<rparr>) = (Ret (), im')"
    then obtain x where "SendProcessingMessage x (im\<lparr>im_state := s, im_net := n\<rparr>) = (Ret (), im')" ..
    from SendProcessingMessage_eq [OF this] show ?thesis by simp blast
  qed simp
  then show "im_allOrders im' = im_allOrders im" "im_auth im' = im_auth im" by auto
  show "\<exists>r w w'. TakeOrder (daemon_tm C) ord units (im_state im, w) = (Ret r, (im_state im', w'))"
  proof -
    from eq have "im_state im' = s" by auto
    with t show ?thesis by blast
  qed
  from eq show "\<exists>pubs sent. mc_out (client im') = mc_out (client im) @ map Published pubs @ sent \<and>
       (\<forall>x \<in> set sent. \<exists>account jid m. x = Sent jid m \<and> LookupJid (im_auth im) account = Some jid)"
  proof
    assume "im' = im\<lparr>im_state := s, im_net := n\<rparr>"
    then show ?thesis using pubs by (intro exI [of _ pubs] exI [of _ "[]"]) simp
  next
    assume "\<exists>jid account m. LookupJid (im_auth im) account = Some jid \<and>
      im' = im\<lparr>im_state := s, im_net := ((fst n)\<lparr>mc_out := mc_out (fst n) @ [Sent jid m]\<rparr>, snd n)\<rparr>"
    then obtain jid account m where "LookupJid (im_auth im) account = Some jid"
      "im' = im\<lparr>im_state := s, im_net := ((fst n)\<lparr>mc_out := mc_out (fst n) @ [Sent jid m]\<rparr>, snd n)\<rparr>" by blast
    then show ?thesis using pubs by (intro exI [of _ pubs] exI [of _ "[Sent jid m]"]) auto
  qed
qed

text \<open>The operations that run on the global state alone.\<close>

lemma state_op_parts:
  assumes "onState m im = (Ret u, im')" "keeps (\<lambda>s. only_published (client im) (snd s)) m"
  shows "im_allOrders im' = im_allOrders im" "im_auth im' = im_auth im"
    "m (im_state im, im_net im) = (Ret u, (im_state im', im_net im'))"
    "\<exists>pubs. mc_out (client im') = mc_out (client im) @ map Published pubs"
proof -
  from assms(1) obtain s n where m: "m (im_state im, im_net im) = (Ret u, (s, n))" "im' = im\<lparr>im_state := s, im_net := n\<rparr>"
    by (auto simp: onState_eq)
  then show "im_allOrders im' = im_allOrders im" "im_auth im' = im_auth im"
    "m (im_state im, im_net im) = (Ret u, (im_state im', im_net im'))" by auto
  from keepsD [OF assms(2) _ m(1)] only_published_refl [of "im_net im"] have "only_published (client im) n" by simp
  then show "\<exists>pubs. mc_out (client im') = mc_out (client im) @ map Published pubs"
    by (auto simp: only_published_def m(2))
qed

lemmas state_ops = publishing.own_orders_frame [unfolded daemon_tm_orders] publishing.refresh [unfolded daemon_tm_orders]
  publishing.update_all

section \<open>The invariant\<close>

text \<open>All orders in the book passed the tests of the validation that need no asset specification.\<close>

definition sane_book :: "OrderBook \<Rightarrow> bool" where
  "sane_book b \<longleftrightarrow> (\<forall>(acc, ao) \<in> set (ob_orders b). \<forall>e \<in> set (ooa_orders (ao_orders ao)). static_valid (snd e))"

text \<open>Every private message went to a JID that is trusted for some account.\<close>

definition sent_to_trusted :: "string set \<Rightarrow> outgoing list \<Rightarrow> bool" where
  "sent_to_trusted servers out \<longleftrightarrow> (\<forall>jid m. Sent jid m \<in> set out \<longrightarrow> (\<exists>account. trusted_jid servers account jid))"

definition auth_ok :: "string set \<Rightarrow> Authenticator \<Rightarrow> bool" where
  "auth_ok servers a \<longleftrightarrow> au_xidServers a = servers \<and> auth_inv a"

definition book_ok :: "int \<Rightarrow> OrderBook \<Rightarrow> bool" where
  "book_ok t b \<longleftrightarrow> book_inv t b \<and> sane_book b"

definition daemon_inv :: "string set \<Rightarrow> 'w Impl \<times> int \<Rightarrow> bool" where
  "daemon_inv servers = (\<lambda>(im, t). manager_inv (im_state im) \<and> auth_ok servers (im_auth im) \<and>
     book_ok t (im_allOrders im) \<and> sent_to_trusted servers (mc_out (client im)))"

lemma auth_ok_Authenticate: "auth_ok servers a \<Longrightarrow> Authenticate jid a = (r, a') \<Longrightarrow> auth_ok servers a'"
  using Authenticate_inv [of a jid r a']
  by (auto simp: auth_ok_def Authenticate_eq split: if_splits option.splits)

lemma Authenticate_servers: "Authenticate jid a = (r, a') \<Longrightarrow> au_xidServers a' = au_xidServers a"
  by (auto simp: Authenticate_eq split: if_splits option.splits)

lemma auth_ok_lookup: "auth_ok servers a \<Longrightarrow> LookupJid a account = Some jid \<Longrightarrow> trusted_jid servers account jid"
  by (auto simp: auth_ok_def auth_inv_def LookupJid_def)

lemma sane_book_mono: "sane_book b \<Longrightarrow> set (ob_orders b') \<subseteq> set (ob_orders b) \<Longrightarrow> sane_book b'"
  unfolding sane_book_def by blast

lemma book_ok_update:
  assumes "book_ok t b" "t \<le> now" "distinct (map fst os)" "\<forall>e \<in> set os. static_valid (snd e)"
    "OrderBook.UpdateOrders now \<lparr>ooa_account = Some account, ooa_orders = os\<rparr> b = (Ret (), b')"
  shows "book_ok now b'"
proof -
  have "book_step (Updated \<lparr>ooa_account = Some account, ooa_orders = os\<rparr> now) (b, t) (b', now)"
    using assms(2,3,5) by (intro book_update) simp_all
  with assms(1) book_step_inv [of "ob_timeout b" "(b, t)" _ "(b', now)"] have "book_inv now b'"
    by (simp add: timed_inv_def book_ok_def)
  moreover have "sane_book b'"
    using assms(5)
  proof (cases rule: UpdateOrders_Ret)
    case (1 acc)
    have "sane_book b" using assms(1) by (simp add: book_ok_def)
    with 1(3) assms(4) set_update_alist [of acc _ "ob_orders b"] show ?thesis
      by (fastforce simp: sane_book_def AList.delete_eq)
  qed
  ultimately show ?thesis by (simp add: book_ok_def)
qed

lemma book_ok_later: "book_ok t b \<Longrightarrow> t \<le> now \<Longrightarrow> book_ok now b"
  by (auto simp: book_ok_def intro: book_inv_later)

lemma book_ok_timeout: "book_ok t b \<Longrightarrow> t \<le> now \<Longrightarrow> book_ok now (RunTimeout now b)"
  by (auto simp: book_ok_def RunTimeout_eq intro: book_inv_timeout elim: sane_book_mono)

lemma sent_to_trusted_append:
  "sent_to_trusted servers (xs @ ys) \<longleftrightarrow> sent_to_trusted servers xs \<and> sent_to_trusted servers ys"
  by (auto simp: sent_to_trusted_def)

lemma sent_to_trusted_published: "sent_to_trusted servers (map Published pubs)"
  by (auto simp: sent_to_trusted_def)

lemma client_events_out:
  assumes "muc_step vlog e c c'" "client_event e"
  shows "mc_out c' = mc_out c"
  using assms
  by (cases rule: muc_step.cases)
    (auto simp: client_event_def ConnectStart_def DisconnectAsync_def Disconnect_def handleMUCError_def finish_joining_def run_worker_def
      checked_def client_run_simps bnd_def split: if_splits)

lemma own_op_inv:
  assumes "manager_inv s" "own_step (MyOrdersImpl C) e s s'" "\<And>oid. e \<noteq> EvUnlock oid"
  shows "manager_inv s'"
  using assms by (blast intro: manager_inv_own_step)

lemma state_op_inv:
  assumes "daemon_inv servers (im, t)" "onState m im = (Ret u, im')" "keeps (\<lambda>s. only_published (client im) (snd s)) m"
    "m (im_state im, im_net im) = (Ret u, (im_state im', im_net im')) \<Longrightarrow> manager_inv (im_state im')"
  shows "daemon_inv servers (im', t)"
  using assms(1,4) state_op_parts [OF assms(2,3)]
  by (auto simp: daemon_inv_def sent_to_trusted_append sent_to_trusted_published)

lemma subseq_distinct: "subseq xs ys \<Longrightarrow> distinct ys \<Longrightarrow> distinct xs"
  by (metis distinct_nthsI subseq_conv_nths)

lemma on_room_message_inv:
  assumes "daemon_inv servers (im, t)" "t \<le> now" "distinct (map fst (carried msg))"
    "on_room_message C now r msg priv im = (Ret (), im')"
  shows "daemon_inv servers (im', now)"
proof -
  note parts = on_room_message_Ret [OF assms(4)]
  from assms(1) have inv: "auth_ok servers (im_auth im)" "book_ok t (im_allOrders im)" by (simp_all add: daemon_inv_def)
  from parts inv(1) auth_ok_Authenticate have "auth_ok servers (im_auth im')" by metis
  moreover have "book_ok now (im_allOrders im')"
  proof (cases "im_allOrders im' = im_allOrders im")
    case True
    with inv(2) assms(2) show ?thesis by (simp add: book_ok_later)
  next
    case False
    with parts have "\<exists>jid account vs. ResolveNickname (client im) (jid_resource (msg_from msg)) = Some jid \<and>
        Authenticate jid (im_auth im) = (Ret (Some account), im_auth im') \<and>
        subseq vs (carried msg) \<and> (\<forall>v \<in> set vs. passes (dc_spec C) account (snd v)) \<and>
        OrderBook.UpdateOrders now \<lparr>ooa_account = Some account, ooa_orders = vs\<rparr> (im_allOrders im) = (Ret (), im_allOrders im')"
      by blast
    then obtain account vs where vs: "subseq vs (carried msg)" "\<forall>v \<in> set vs. passes (dc_spec C) account (snd v)"
        "OrderBook.UpdateOrders now \<lparr>ooa_account = Some account, ooa_orders = vs\<rparr> (im_allOrders im) = (Ret (), im_allOrders im')"
      by blast
    have "distinct (map fst vs)" using subseq_map [OF vs(1), of fst] assms(3) by (rule subseq_distinct)
    with vs(2,3) book_ok_update [OF inv(2) assms(2)] passes_static show ?thesis by blast
  qed
  ultimately show ?thesis using parts assms(1) by (simp add: daemon_inv_def)
qed

lemma on_presence_inv:
  assumes "daemon_inv servers (im, t)" "t \<le> now" "on_presence vlog now r p im = (Ret (), im')"
  shows "daemon_inv servers (im', now)"
proof -
  note parts = on_presence_Ret [OF assms(3)]
  from assms(1) have inv: "auth_ok servers (im_auth im)" "book_ok t (im_allOrders im)" by (simp_all add: daemon_inv_def)
  from parts inv(1) auth_ok_Authenticate have "auth_ok servers (im_auth im')" by metis
  moreover from parts book_ok_later [OF inv(2) assms(2)] book_ok_update [OF inv(2) assms(2), of "[]"]
  have "book_ok now (im_allOrders im')" by auto
  ultimately show ?thesis using parts assms(1) by (simp add: daemon_inv_def)
qed

lemma on_message_inv:
  assumes "daemon_inv servers (im, t)" "on_message C msg im = (Ret (), im')"
  shows "daemon_inv servers (im', t)"
proof -
  from assms(2) have run: "Impl_HandlePrivate C (msg_from msg) msg im = (Ret (), im')" by (simp add: on_message_def)
  note parts = private_parts [OF run]
  from assms(1) have inv: "auth_ok servers (im_auth im)" "manager_inv (im_state im)" by (simp_all add: daemon_inv_def)
  from parts(2) inv(1) auth_ok_Authenticate have "auth_ok servers (im_auth im')" by blast
  moreover from parts(3) inv(2) ProcessMessage_inv have "manager_inv (im_state im')" by metis
  moreover have "sent_to_trusted servers (mc_out (client im'))"
    using handle_private_out [OF run] assms(1) inv(1)
    by (fastforce simp: daemon_inv_def sent_to_trusted_def auth_ok_def)
  ultimately show ?thesis using parts(1) assms(1) by (simp add: daemon_inv_def)
qed

lemma take_order_inv:
  assumes "daemon_inv servers (im, t)" "Daemon_TakeOrder C ord units im = (Ret b, im')"
  shows "daemon_inv servers (im', t)"
proof -
  note parts = take_parts [OF assms(2)]
  from assms(1) have inv: "auth_ok servers (im_auth im)" "manager_inv (im_state im)" by (simp_all add: daemon_inv_def)
  from parts(3) inv(2) TakeOrder_inv have "manager_inv (im_state im')" by metis
  moreover have "sent_to_trusted servers (mc_out (client im'))"
    using parts(4) assms(1) auth_ok_lookup [OF inv(1)]
    by (fastforce simp: daemon_inv_def sent_to_trusted_def)
  ultimately show ?thesis using parts(1,2) assms(1) by (simp add: daemon_inv_def)
qed

lemma daemon_step_inv:
  assumes "daemon_inv servers s" "daemon_step C e s s'"
  shows "daemon_inv servers s'"
  using assms(2,1)
proof (induction rule: daemon_step.induct)
  case (d_add ord im b im' t)
  have "manager_inv (im_state im')"
    if "Add (MyOrdersImpl C) ord (im_state im, im_net im) = (Ret b, (im_state im', im_net im'))"
    using that d_add.hyps(2) d_add.prems
    by (cases b) (auto simp: daemon_inv_def intro: own_op_inv own_step.add own_step.reject)
  with d_add show ?case by (auto simp: AddOrder_def intro: state_op_inv state_ops)
next
  case (d_cancel oid im im' t)
  have "manager_inv (im_state im')"
    if "RemoveById (MyOrdersImpl C) oid (im_state im, im_net im) = (Ret (), (im_state im', im_net im'))"
    using own_step.remove [OF that] d_cancel.prems by (auto simp: daemon_inv_def intro: own_op_inv)
  with d_cancel show ?case by (auto simp: CancelOrder_def intro: state_op_inv state_ops)
next
  case (d_refresh im im' t)
  have "manager_inv (im_state im')"
    if "RunRefresh (MyOrdersImpl C) (im_state im, im_net im) = (Ret (), (im_state im', im_net im'))"
    using own_step.refresh [OF that] d_refresh.prems by (auto simp: daemon_inv_def intro: own_op_inv)
  with d_refresh show ?case by (auto intro: state_op_inv state_ops)
next
  case (d_update im im' t)
  have "manager_inv (im_state im')"
    if "UpdateAndArchiveTrades (daemon_tm C) (im_state im, im_net im) = (Ret (), (im_state im', im_net im'))"
    using UpdateAndArchiveTrades_inv [OF _ _ that] d_update.hyps(2) d_update.prems by (simp add: daemon_inv_def)
  with d_update show ?case by (auto intro: state_op_inv state_ops)
next
  case (d_timeout t now im)
  then show ?case by (auto simp: daemon_inv_def book_ok_timeout)
next
  case (d_client vlog e im c' t)
  then show ?case using client_events_out [OF d_client.hyps] by (simp add: daemon_inv_def)
qed (auto intro: on_room_message_inv on_presence_inv on_message_inv take_order_inv)

lemma new_impl_inv:
  assumes "new_impl servers orderTimeout g1 g2 account jid mucRoom w = Ret im"
  shows "daemon_inv (ParseCommaSeparated servers) (im, t)"
proof -
  let ?a = "new_authenticator servers"
  from assms obtain a where a: "Authenticate jid ?a = (Ret (Some account), a)" and
      im: "im = \<lparr>im_state = init_state account, im_auth = a, im_allOrders = new_book orderTimeout,
        im_net = (new_client g1 g2 mucRoom, w), im_reconnecter = False\<rparr>"
    by (auto simp: new_impl_def split: prod.splits outcome.splits option.splits if_splits)
  have "auth_ok (ParseCommaSeparated servers) ?a" by (simp add: auth_ok_def auth_inv_def new_authenticator_def)
  with a have "auth_ok (ParseCommaSeparated servers) a" by (blast intro: auth_ok_Authenticate)
  moreover have "book_ok t (new_book orderTimeout)"
    using new_book_inv [of orderTimeout t] by (simp add: book_ok_def timed_inv_def sane_book_def new_book_def)
  ultimately show ?thesis
    by (simp add: daemon_inv_def im manager_inv_init sent_to_trusted_def new_client_def)
qed

lemma reachable_daemon:
  assumes "new_impl servers orderTimeout g1 g2 account jid mucRoom w = Ret im0" "runs (daemon_step C) (im0, t0) es (im, t)"
  shows "daemon_inv (ParseCommaSeparated servers) (im, t)"
  using assms(2) new_impl_inv [OF assms(1)] daemon_step_inv by (rule runs_invariant) blast+

section \<open>Printing the book\<close>

text \<open>
  The validation compares unsigned numbers, the printing a signed minimum with an unsigned
  maximum; an order that passes the first also passes the second.
\<close>

lemma static_valid_printable:
  assumes "static_valid ord"
  shows "units_printable ord"
proof -
  have pos: "1 \<le> uint (dflt 0 (order_max_units ord))"
    using assms by (simp add: static_valid_def int_one_le_iff_zero_less less_le uint_0_iff)
  have "sint x \<le> uint x" for x :: uint64
    using sint_eq_uint64 [of x] sint_big [of x] by (cases "uint x < 2 ^ 63") simp_all
  then have "sint (dflt 0 (order_min_units ord)) \<le> uint (dflt 0 (order_min_units ord))" .
  also have "\<dots> \<le> uint (dflt 0 (order_max_units ord))"
    using assms by (cases "order_min_units ord") (auto simp: static_valid_def word_le_def)
  finally show ?thesis using pos by (simp add: units_printable_def)
qed

lemma listed_printable:
  assumes "sane_book b" "ord \<in> set (listed b)"
  shows "units_printable ord"
proof -
  from assms obtain acc oid o' where "static_valid o'" "ord = o'\<lparr>order_account := Some acc, order_id := Some oid\<rparr>"
    by (fastforce simp: listed_def sane_book_def)
  then show ?thesis using static_valid_printable [of o'] by (simp add: units_printable_def)
qed

lemma asset_book_printable:
  assumes "sane_book b" "ord \<in> set (ofa_bids (asset_book asset (listed b))) \<union> set (ofa_asks (asset_book asset (listed b)))"
  shows "units_printable ord"
proof -
  from assms(2) obtain o' where "o' \<in> set (listed b)" "ord = strip o'"
    by (auto simp: asset_book_def book_side_def)
  with listed_printable [OF assms(1)] show ?thesis by (auto simp: strip_def units_printable_def)
qed

lemma print_asset:
  assumes "book_ok t (im_allOrders im)"
  shows "\<exists>j. rpc_getordersforasset asset im = (Ret j, im)"
  using assms OrderbookForAssetToJson_total [of "asset_book asset (listed (im_allOrders im))" im]
    asset_book_printable [of "im_allOrders im"]
  by (auto simp: book_ok_def rpc_getordersforasset_def GetOrdersForAsset_def GetForAsset_eq bnd_run_Ret)

lemma print_all:
  assumes "book_ok t (im_allOrders im)"
  shows "\<exists>j. rpc_getordersbyasset im = (Ret j, im)"
proof -
  let ?b = "im_allOrders im"
  from assms have inv: "book_inv t ?b" "sane_book ?b" by (simp_all add: book_ok_def)
  obtain res where res: "GetByAsset ?b im = (Ret res, im)" "distinct (map fst res)"
      "\<And>asset. map_of res asset = (if filter (\<lambda>ord. order_asset ord = Some asset) (listed ?b) = [] then None
       else Some (asset_book asset (listed ?b)))"
    using GetByAsset_eq [OF inv(1)] by (metis ret_run)
  have "f = asset_book asset (listed ?b)" if "(asset, f) \<in> set res" for asset f
    using map_of_is_SomeI [OF res(2) that] res(3) [of asset] by (simp split: if_splits)
  then have "\<exists>j. OrderbookByAssetToJson res im = (Ret j, im)"
    using asset_book_printable [OF inv(2)] by (intro OrderbookByAssetToJson_total) blast
  with res(1) show ?thesis by (auto simp: rpc_getordersbyasset_def GetOrdersByAsset_def bnd_run_Ret)
qed

end
