(* ===== verification/RpcTypes.thy ===== *)
theory RpcTypes
  imports Daemon CheckerProps
begin

text \<open>
  The types of what the RPC interface of the daemon returns. \<^verbatim>\<open>src/src/rpcserver.cpp\<close> builds its
  results with \<^verbatim>\<open>src/src/json.cpp\<close>; a client only sees JSON. Here a small language of types says
  which members a result has, and the methods that read the daemon's state are shown to
  return values of their types.
\<close>

section \<open>Types of JSON values\<close>

datatype jty = TyBool | TyInt | TyInt64 | TyText | TyEnum "string list" | TyArr jty | TyMap jty | TyObj jrow
  and jrow = Row | Req string jty jrow | Opt string jty jrow

primrec row_names :: "jrow \<Rightarrow> string list" where
  "row_names Row = []"
| "row_names (Req k t row) = k # row_names row"
| "row_names (Opt k t row) = k # row_names row"

definition jkeys :: "json \<Rightarrow> string list" where
  "jkeys j = (case j of JObj kvs \<Rightarrow> map fst kvs | _ \<Rightarrow> [])"

text \<open>An object has each name once, in order, as a \<^verbatim>\<open>std::map\<close> does.\<close>

definition jobject :: "json \<Rightarrow> bool" where
  "jobject j \<longleftrightarrow> isObject j \<and> sorted_wrt (<) (jkeys j)"

primrec has_jty :: "jty \<Rightarrow> json \<Rightarrow> bool" and has_row :: "jrow \<Rightarrow> json \<Rightarrow> bool" where
  "has_jty TyBool j = isBool j"
| "has_jty TyInt j = (case j of JInt i \<Rightarrow> True | _ \<Rightarrow> False)"
| "has_jty TyInt64 j = isInt64 j"
| "has_jty TyText j = isString j"
| "has_jty (TyEnum xs) j = (isString j \<and> jtext j \<in> set xs)"
| "has_jty (TyArr t) j = (isArray j \<and> list_all (has_jty t) (jelems j))"
| "has_jty (TyMap t) j = (jobject j \<and> list_all (\<lambda>k. has_jty t (jget j k)) (jkeys j))"
| "has_jty (TyObj row) j = (jobject j \<and> set (jkeys j) \<subseteq> set (row_names row) \<and> has_row row j)"
| "has_row Row j = True"
| "has_row (Req k t row) j = (isMember j k \<and> has_jty t (jget j k) \<and> has_row row j)"
| "has_row (Opt k t row) j = ((isMember j k \<longrightarrow> has_jty t (jget j k)) \<and> has_row row j)"

lemma jkeys_isMember: "k \<in> set (jkeys j) \<longleftrightarrow> isMember j k"
  by (auto simp: jkeys_def isMember_def map_of_eq_None_iff rev_image_eqI split: json.splits)

lemma keys_kv_insert [simp]: "set (map fst (kv_insert k v kvs)) = insert k (set (map fst kvs))"
  by (induction k v kvs rule: kv_insert.induct) auto

lemma sorted_kv_insert: "sorted_wrt (<) (map fst kvs) \<Longrightarrow> sorted_wrt (<) (map fst (kv_insert k v kvs))"
proof (induction k v kvs rule: kv_insert.induct)
  case (2 k v k' v' r)
  have "set (map fst (kv_insert k v r)) = insert k (set (map fst r))" by (rule keys_kv_insert)
  with 2 show ?case by (auto simp del: set_map simp: image_iff)
qed simp

lemma jobject_jempty [simp]: "jobject jempty" "jkeys jempty = []"
  by (simp_all add: jobject_def jkeys_def jempty_def)

lemma jobject_jset [simp]: "jobject j \<Longrightarrow> jobject (jset k v j)"
  by (auto simp: jobject_def isObject_iff jkeys_def jset_def sorted_kv_insert)

lemma jobject_jremove [simp]: "jobject j \<Longrightarrow> jobject (jremove k j)"
  by (auto simp: jobject_def isObject_iff jkeys_def jremove_def sorted_wrt_map sorted_wrt_filter)

lemma jobject_isObject: "jobject j \<Longrightarrow> isObject j"
  by (simp add: jobject_def)

lemma jkeys_jset [simp]: "jobject j \<Longrightarrow> set (jkeys (jset k v j)) = insert k (set (jkeys j))"
  by (auto simp: jobject_def jkeys_isMember)

lemma jkeys_jremove [simp]: "jobject j \<Longrightarrow> set (jkeys (jremove k j)) = set (jkeys j) - {k}"
  by (auto simp: jobject_def jkeys_isMember)

lemma jobject_set_opt [simp]: "jobject j \<Longrightarrow> jobject (set_opt k f x j)"
  by (simp add: set_opt_def split: option.splits)

lemma jkeys_set_opt [simp]: "jobject j \<Longrightarrow> set (jkeys (set_opt k f x j)) \<subseteq> B \<longleftrightarrow> (has x \<longrightarrow> k \<in> B) \<and> set (jkeys j) \<subseteq> B"
  by (auto simp: set_opt_def split: option.splits)

lemma jget_set_opt_other: "isObject j \<Longrightarrow> k' \<noteq> k \<Longrightarrow> jget (set_opt k f x j) k' = jget j k'"
  by (simp split: option.split)

lemma jget_set_opt_same: "isObject j \<Longrightarrow> has x \<Longrightarrow> jget (set_opt k f x j) k = f (the x)"
  by (auto simp: has_iff)

text \<open>The members of a map.\<close>

lemma map_insert: "has_jty (TyMap t) j \<Longrightarrow> has_jty t v \<Longrightarrow> has_jty (TyMap t) (jset k v j)"
  by (auto simp: list_all_iff jobject_isObject)

lemma has_IntToJson [simp]: "isInt64 (IntToJson v)"
proof -
  have "- (2 ^ 63) \<le> sint v" "sint v < 2 ^ 63" using sint_ge [of v] sint_lt [of v] by simp_all
  then show ?thesis by (simp add: IntToJson_def)
qed

section \<open>The results of the RPC interface\<close>

definition units_row :: "jrow \<Rightarrow> jrow" where
  "units_row row = Req ''min_units'' TyInt64 (Req ''max_units'' TyInt64 (Req ''price_sat'' TyInt64
     (Opt ''locked'' TyBool row)))"

definition side_ty :: jty where
  "side_ty = TyEnum [''ask'', ''bid'']"

text \<open>An order as \<^verbatim>\<open>ProtoToJson\<close> prints it, as an entry of the own orders, and as one of the book.\<close>

definition order_ty :: jty where
  "order_ty = TyObj (Opt ''account'' TyText (Opt ''id'' TyInt64 (Opt ''asset'' TyText (Opt ''type'' side_ty (units_row Row)))))"

definition own_order_ty :: jty where
  "own_order_ty = TyObj (Req ''id'' TyInt64 (Opt ''asset'' TyText (Opt ''type'' side_ty (units_row Row))))"

definition book_order_ty :: jty where
  "book_order_ty = TyObj (Req ''account'' TyText (Req ''id'' TyInt64 (units_row Row)))"

definition own_orders_ty :: jty where
  "own_orders_ty = TyObj (Req ''account'' TyText (Req ''orders'' (TyArr own_order_ty) Row))"

definition asset_book_ty :: jty where
  "asset_book_ty = TyObj (Req ''asset'' TyText (Req ''bids'' (TyArr book_order_ty) (Req ''asks'' (TyArr book_order_ty) Row)))"

definition trade_ty :: jty where
  "trade_ty = TyObj (Req ''state'' (TyEnum [''initiated'', ''pending'', ''success'', ''failed'', ''abandoned''])
     (Req ''start_time'' TyInt (Req ''counterparty'' TyText (Req ''type'' side_ty (Req ''asset'' TyText
     (Req ''units'' TyInt64 (Req ''price_sat'' TyInt64 (Req ''role'' (TyEnum [''maker'', ''taker'']) Row))))))))"

definition status_ty :: jty where
  "status_ty = TyObj (Req ''connected'' TyBool (Req ''gameid'' TyText (Req ''account'' TyText Row)))"

lemmas ty_defs = units_row_def side_ty_def order_ty_def own_order_ty_def book_order_ty_def own_orders_ty_def
  asset_book_ty_def trade_ty_def status_ty_def

lemma side_printed [simp]: "isString (OrderTypeToJson t)" "jtext (OrderTypeToJson t) = ''ask'' \<or> jtext (OrderTypeToJson t) = ''bid''"
  by (simp_all add: OrderTypeToJson_def split: order_type.splits)

section \<open>Printing is well typed\<close>

text \<open>What every element keeps, a loop over a list keeps.\<close>

lemma fold_prog_keeps:
  assumes "fold_prog f xs b s = (Ret b', s')" "P b"
    "\<And>x a s a' s'. x \<in> set xs \<Longrightarrow> P a \<Longrightarrow> f x a s = (Ret a', s') \<Longrightarrow> P a' \<and> s' = s"
  shows "P b' \<and> s' = s"
  using assms
proof (induction xs arbitrary: b s)
  case (Cons x xs)
  then obtain a s1 where step: "f x b s = (Ret a, s1)" and rest: "fold_prog f xs a s1 = (Ret b', s')"
    by (auto simp: bnd_Ret_iff)
  from Cons.prems(3) [OF _ Cons.prems(2) step] have "P a" "s1 = s" by simp_all
  with Cons.IH [OF rest] Cons.prems(3) show ?case by (meson list.set_intros(2))
qed simp

lemma OrderToJson_typed:
  assumes "OrderToJson pb s = (Ret j, s')"
  shows "has_jty order_ty j" "isMember j ''account'' = has (order_account pb)" "isMember j ''id'' = has (order_id pb)" "s' = s"
proof -
  define res where "res = set_opt ''type'' OrderTypeToJson (order_type pb) (jset ''price_sat'' (IntToJson (dflt 0 (order_price_sat pb)))
    (jset ''max_units'' (IntToJson (dflt 0 (order_max_units pb))) (jset ''min_units'' (IntToJson (dflt 1 (order_min_units pb)))
    (set_opt ''asset'' JStr (order_asset pb) (set_opt ''id'' IntToJson (order_id pb) (set_opt ''account'' JStr (order_account pb) jempty))))))"
  have obj: "jobject res" by (simp add: res_def)
  have j: "j = res \<or> j = jset ''locked'' (JBool True) res" and "s' = s"
    using assms by (auto simp: OrderToJson_def Let_def checked_Ret_iff res_def [symmetric] split: if_splits)
  have res: "has_jty order_ty res" "isMember res ''account'' = has (order_account pb)" "isMember res ''id'' = has (order_id pb)"
    by (simp_all add: res_def ty_defs jobject_isObject jget_set_opt_same jget_set_opt_other del: jget_set_opt)
  then have "has_jty order_ty (jset ''locked'' (JBool True) res)" using obj by (simp add: ty_defs jobject_isObject)
  with res j show "has_jty order_ty j" by blast
  show "isMember j ''account'' = has (order_account pb)" "isMember j ''id'' = has (order_id pb)" "s' = s"
    using j res(2,3) \<open>s' = s\<close> jobject_isObject [OF obj] by auto
qed

lemma keys_removed: "jobject j \<Longrightarrow> set (jkeys (jremove k j)) \<subseteq> B \<longleftrightarrow> set (jkeys j) \<subseteq> insert k B"
  by auto

lemma order_row:
  assumes "has_jty order_ty j"
  shows "has_jty own_order_ty (jset ''id'' (IntToJson oid) (jremove ''account'' j))"
    "isMember j ''account'' \<Longrightarrow> isMember j ''id'' \<Longrightarrow> has_jty book_order_ty (jremove ''type'' (jremove ''asset'' j))"
proof -
  have obj: "jobject j" "isObject j" and keys: "set (jkeys j) \<subseteq>
      {''account'', ''id'', ''asset'', ''type'', ''min_units'', ''max_units'', ''price_sat'', ''locked''}"
    using assms by (simp_all add: ty_defs jobject_isObject)
  show "has_jty own_order_ty (jset ''id'' (IntToJson oid) (jremove ''account'' j))"
    using assms obj subset_trans [OF keys] by (simp add: ty_defs keys_removed del: jkeys_jremove)
  show "has_jty book_order_ty (jremove ''type'' (jremove ''asset'' j))" if "isMember j ''account''" "isMember j ''id''"
    using assms that obj subset_trans [OF keys] by (simp add: ty_defs keys_removed del: jkeys_jremove)
qed

lemma OrdersOfAccountToJson_typed:
  assumes "OrdersOfAccountToJson pb s = (Ret j, s')"
  shows "has_jty own_orders_ty j \<and> s' = s"
proof -
  from assms obtain es where es: "fold_prog own_order_json (ooa_orders pb) [] s = (Ret es, s')"
    and j: "j = jset ''account'' (JStr (dflt [] (ooa_account pb))) (jset ''orders'' (JArr (map snd es)) jempty)"
    by (auto simp: OrdersOfAccountToJson_def bnd_Ret_iff)
  have "list_all (\<lambda>e. has_jty own_order_ty (snd e)) es \<and> s' = s"
    using es
  proof (rule fold_prog_keeps)
    fix x a s a' s'
    assume a: "list_all (\<lambda>e. has_jty own_order_ty (snd e)) a" and "own_order_json x a s = (Ret a', s')"
    then obtain cur where cur: "OrderToJson (snd x) s = (Ret cur, s')"
      and a': "a' = insort_key fst (fst x, jset ''id'' (IntToJson (fst x)) (jremove ''account'' cur)) a"
      by (auto simp: own_order_json_def bnd_Ret_iff)
    from order_row(1) [OF OrderToJson_typed(1) [OF cur]] OrderToJson_typed(4) [OF cur] a
    show "list_all (\<lambda>e. has_jty own_order_ty (snd e)) a' \<and> s' = s"
      by (simp add: a' list_all_iff set_insort_key)
  qed simp
  then show ?thesis by (auto simp: j own_orders_ty_def list_all_iff)
qed

text \<open>The orders of the book carry their account and ID, so their entries have both members.\<close>

definition owned :: "Order list \<Rightarrow> bool" where
  "owned = list_all (\<lambda>ord. has (order_account ord) \<and> has (order_id ord))"

definition owned_book :: "OrderbookByAsset \<Rightarrow> bool" where
  "owned_book res \<longleftrightarrow> (\<forall>(asset, f) \<in> set res. owned (ofa_asks f) \<and> owned (ofa_bids f))"

lemma OrderbookSideToJson_typed:
  assumes "OrderbookSideToJson orders s = (Ret j, s')" "owned orders"
  shows "has_jty (TyArr book_order_ty) j \<and> s' = s"
proof -
  from assms(1) obtain es where es: "fold_prog side_order_json orders [] s = (Ret es, s')" and j: "j = JArr es"
    by (auto simp: OrderbookSideToJson_def bnd_Ret_iff)
  have "list_all (has_jty book_order_ty) es \<and> s' = s"
    using es
  proof (rule fold_prog_keeps)
    fix x a s a' s'
    assume x: "x \<in> set orders" "list_all (has_jty book_order_ty) a" "side_order_json x a s = (Ret a', s')"
    then obtain cur where cur: "OrderToJson x s = (Ret cur, s')" and a': "a' = a @ [jremove ''type'' (jremove ''asset'' cur)]"
      by (auto simp: side_order_json_def bnd_Ret_iff)
    have "has (order_account x)" "has (order_id x)" using assms(2) x(1) by (auto simp: owned_def list_all_iff)
    with OrderToJson_typed [OF cur] order_row(2) [of cur] x(2) show "list_all (has_jty book_order_ty) a' \<and> s' = s"
      by (simp add: a')
  qed simp
  then show ?thesis by (simp add: j)
qed

lemma OrderbookForAssetToJson_typed:
  assumes "OrderbookForAssetToJson f s = (Ret j, s')" "owned (ofa_asks f)" "owned (ofa_bids f)"
  shows "has_jty asset_book_ty j \<and> has_jty asset_book_ty (jset ''asset'' (JStr a) j) \<and> s' = s"
proof -
  from assms(1) obtain bids asks s1 where b: "OrderbookSideToJson (ofa_bids f) s = (Ret bids, s1)"
    and a: "OrderbookSideToJson (ofa_asks f) s1 = (Ret asks, s')"
    and j: "j = jset ''asset'' (JStr (dflt [] (ofa_asset f))) (jset ''bids'' bids (jset ''asks'' asks jempty))"
    by (auto simp: OrderbookForAssetToJson_def bnd_Ret_iff)
  from OrderbookSideToJson_typed [OF b assms(3)] OrderbookSideToJson_typed [OF a assms(2)]
  show ?thesis by (simp add: j asset_book_ty_def jobject_isObject)
qed

lemma OrderbookByAssetToJson_typed:
  assumes "OrderbookByAssetToJson pb s = (Ret j, s')" "owned_book pb"
  shows "has_jty (TyMap asset_book_ty) j \<and> s' = s"
  using assms(1) unfolding OrderbookByAssetToJson_def
proof (rule fold_prog_keeps)
  fix x a s a' s'
  assume x: "x \<in> set pb" "has_jty (TyMap asset_book_ty) a"
    and step: "(case x of (asset, f) \<Rightarrow> \<lambda>res. bnd (OrderbookForAssetToJson f)
        (\<lambda>cur. ret (jset asset (jset ''asset'' (JStr asset) cur) res))) a s = (Ret a', s')"
  obtain asset f where xf: "x = (asset, f)" by (cases x)
  with step obtain cur where cur: "OrderbookForAssetToJson f s = (Ret cur, s')"
    and a': "a' = jset asset (jset ''asset'' (JStr asset) cur) a"
    by (auto simp: bnd_Ret_iff)
  have "owned (ofa_asks f)" "owned (ofa_bids f)" using assms(2) x(1) xf by (auto simp: owned_book_def)
  with OrderbookForAssetToJson_typed [OF cur] have "has_jty asset_book_ty (jset ''asset'' (JStr asset) cur)" "s' = s" by blast+
  with x(2) show "has_jty (TyMap asset_book_ty) a' \<and> s' = s" unfolding a' by (blast intro: map_insert)
qed simp

lemma TradeToJson_typed: "has_jty trade_ty (TradeToJson pb)"
proof -
  obtain st role where "TradeToJson pb = jset ''role'' (JStr role) (jset ''state'' (JStr st)
      (jset ''price_sat'' (IntToJson (dflt 0 (trade_price_sat pb))) (jset ''units'' (IntToJson (dflt 0 (trade_units pb)))
      (jset ''asset'' (JStr (dflt [] (trade_asset pb))) (jset ''type'' (OrderTypeToJson (dflt ASK (trade_type pb)))
      (jset ''counterparty'' (JStr (dflt [] (trade_counterparty pb)))
      (jset ''start_time'' (JInt (dflt 0 (trade_start_time pb))) jempty)))))))"
    and "st \<in> {''initiated'', ''pending'', ''success'', ''failed'', ''abandoned''}" "role \<in> {''maker'', ''taker''}"
    by (rule that [OF TradeToJson_def [unfolded Let_def]]) (simp_all split: trade_status.split trade_role.split)
  then show ?thesis by (simp add: ty_defs jobject_isObject)
qed

section \<open>The book that is printed\<close>

lemma AddOrderForAsset_owned:
  assumes "AddOrderForAsset res ord s = (Ret res', s')" "owned_book res" "has (order_account ord)" "has (order_id ord)"
  shows "owned_book res' \<and> s' = s"
proof -
  from assms(1) obtain asset where "order_asset ord = Some asset"
    by (auto simp: AddOrderForAsset_def split: option.splits)
  define f where "f = (case map_of res asset of Some f \<Rightarrow> f | None \<Rightarrow> empty_ofa\<lparr>ofa_asset := Some asset\<rparr>)"
  have "owned (ofa_asks f)" "owned (ofa_bids f)"
    using assms(2) by (auto simp: f_def owned_book_def owned_def empty_ofa_def dest!: map_of_SomeD split: option.splits)
  moreover from assms(1) \<open>order_asset ord = Some asset\<close> obtain g where "res' = AList.update asset g res" "s' = s"
      "ofa_asks g = ofa_asks f @ [ord\<lparr>order_asset := None, order_type := None\<rparr>] \<and> ofa_bids g = ofa_bids f \<or>
       ofa_asks g = ofa_asks f \<and> ofa_bids g = ofa_bids f @ [ord\<lparr>order_asset := None, order_type := None\<rparr>]"
    by (auto simp: AddOrderForAsset_def Let_def f_def [symmetric] split: order_type.splits)
  ultimately show ?thesis
    using assms(2-4) set_update_alist [of asset g res] by (auto simp: owned_book_def owned_def)
qed

lemma InternalGetByAsset_owned:
  assumes "InternalGetByAsset asset b s = (Ret res, s')"
  shows "owned_book res \<and> s' = s"
proof -
  from assms obtain all s1 where all: "fold_prog (\<lambda>(acc, ao). fold_prog (add_entry asset acc) (ooa_orders (ao_orders ao)))
      (ob_orders b) [] s = (Ret all, s1)" and sort: "SortByPrices all s1 = (Ret res, s')"
    by (auto simp: InternalGetByAsset_def bnd_Ret_iff)
  have entry: "owned_book a' \<and> s' = s" if "owned_book a" "add_entry asset acc e a s = (Ret a', s')" for acc e a s a' s'
    using that by (cases e) (auto simp: add_entry_def checked_Ret_iff dest!: AddOrderForAsset_owned split: if_splits)
  have "owned_book all \<and> s1 = s"
    using all
  proof (rule fold_prog_keeps)
    fix x a s a' s'
    assume "owned_book a" "(case x of (acc, ao) \<Rightarrow> fold_prog (add_entry asset acc) (ooa_orders (ao_orders ao))) a s = (Ret a', s')"
    then show "owned_book a' \<and> s' = s"
      by (cases x) (auto elim!: fold_prog_keeps [where P = owned_book] dest: entry)
  qed (simp add: owned_book_def)
  with sort show ?thesis
    by (fastforce simp: SortByPrices_def checked_Ret_iff owned_book_def owned_def list_all_iff std_sort_key)
qed

lemma GetForAsset_owned:
  assumes "GetForAsset asset b s = (Ret f, s')"
  shows "owned (ofa_asks f) \<and> owned (ofa_bids f) \<and> s' = s"
proof -
  from assms obtain all s1 where all: "InternalGetByAsset (Some asset) b s = (Ret all, s1)"
    and f: "f = empty_ofa\<lparr>ofa_asset := Some asset\<rparr> \<or> (asset, f) \<in> set all" and s1: "s' = s1"
    by (auto simp: GetForAsset_def bnd_Ret_iff checked_Ret_iff split: if_splits option.splits dest: map_of_SomeD)
  from InternalGetByAsset_owned [OF all] f s1 show ?thesis
    by (auto simp: owned_book_def owned_def empty_ofa_def)
qed

section \<open>Properties\<close>

text \<open>The methods that read the state of the daemon.\<close>

datatype query = Q_getstatus | Q_getordersforasset Asset | Q_getordersbyasset | Q_getownorders | Q_gettrades

definition rpc_query :: "'w DaemonConf \<Rightarrow> query \<Rightarrow> ('w Impl, json) prog" where
  "rpc_query C q =
     (case q of Q_getstatus \<Rightarrow> rpc_getstatus C | Q_getordersforasset asset \<Rightarrow> rpc_getordersforasset asset
      | Q_getordersbyasset \<Rightarrow> rpc_getordersbyasset | Q_getownorders \<Rightarrow> rpc_getownorders | Q_gettrades \<Rightarrow> rpc_gettrades)"

definition query_ty :: "query \<Rightarrow> jty" where
  "query_ty q =
     (case q of Q_getstatus \<Rightarrow> status_ty | Q_getordersforasset asset \<Rightarrow> asset_book_ty
      | Q_getordersbyasset \<Rightarrow> TyMap asset_book_ty | Q_getownorders \<Rightarrow> own_orders_ty | Q_gettrades \<Rightarrow> TyArr trade_ty)"

lemma getstatus_typed: "rpc_getstatus C im = (Ret j, im') \<Longrightarrow> has_jty status_ty j \<and> im' = im"
  by (auto simp: rpc_getstatus_def GetAccount_def status_ty_def jobject_isObject)

lemma gettrades_typed: "rpc_gettrades im = (Ret j, im') \<Longrightarrow> has_jty (TyArr trade_ty) j \<and> im' = im"
  by (auto simp: rpc_gettrades_def Daemon_GetTrades_def list_all_iff TradeToJson_typed)

lemma getordersforasset_typed: "rpc_getordersforasset asset im = (Ret j, im') \<Longrightarrow> has_jty asset_book_ty j \<and> im' = im"
  by (auto simp: rpc_getordersforasset_def GetOrdersForAsset_def bnd_Ret_iff
      dest!: GetForAsset_owned OrderbookForAssetToJson_typed)

lemma getordersbyasset_typed: "rpc_getordersbyasset im = (Ret j, im') \<Longrightarrow> has_jty (TyMap asset_book_ty) j \<and> im' = im"
proof -
  assume "rpc_getordersbyasset im = (Ret j, im')"
  then obtain pb im1 where "InternalGetByAsset None (im_allOrders im) im = (Ret pb, im1)" "OrderbookByAssetToJson pb im1 = (Ret j, im')"
    by (auto simp: rpc_getordersbyasset_def GetOrdersByAsset_def GetByAsset_def bnd_Ret_iff)
  then show ?thesis using InternalGetByAsset_owned OrderbookByAssetToJson_typed by metis
qed

lemma getownorders_typed: "rpc_getownorders im = (Ret j, im') \<Longrightarrow> has_jty own_orders_ty j \<and> im' = im"
  by (auto simp: rpc_getownorders_def GetOwnOrders_def dest!: OrdersOfAccountToJson_typed)

text \<open>
  C27: What the RPC interface returns is well typed, in every state. The methods that read the
  state of the daemon do not change it, and their results have exactly the members of their
  types: an order of the book comes with its account and ID and without asset and type, an
  own order with its ID and without account, and every number of an order fits a signed
  64-bit integer.
\<close>

theorem rpc_results_typed:
  assumes "rpc_query C q im = (Ret j, im')"
  shows "has_jty (query_ty q) j \<and> im' = im"
  using assms
  by (cases q) (simp_all only: rpc_query_def query_ty_def query.case getstatus_typed getordersforasset_typed
      getordersbyasset_typed getownorders_typed gettrades_typed)

text \<open>A daemon whose book has one order, and what it prints.\<close>

definition listed_order :: Order where
  "listed_order = \<lparr>order_account = None, order_id = None, order_asset = Some ''gold'', order_min_units = None,
     order_max_units = Some 5, order_type = Some BID, order_price_sat = Some 10, order_locked = None\<rparr>"

definition listing_daemon :: "mock Impl" where
  "listing_daemon = \<lparr>im_state = init_state ''seller'', im_auth = new_authenticator [],
     im_allOrders = (new_book 10)\<lparr>ob_orders := [(''buyer'', \<lparr>ao_orders = \<lparr>ooa_account = Some ''buyer'', ooa_orders = [(7, listed_order)]\<rparr>, ao_lastUpdate = 3\<rparr>)]\<rparr>,
     im_net = (new_client False False muc_room, new_mock), im_reconnecter = False\<rparr>"

definition listed_json :: json where
  "listed_json = JObj [(''gold'', JObj [(''asks'', JArr []), (''asset'', JStr ''gold''),
     (''bids'', JArr [JObj [(''account'', JStr ''buyer''), (''id'', JInt 7), (''max_units'', JInt 5), (''min_units'', JInt 1),
       (''price_sat'', JInt 10)]])])]"

definition listing_conf :: "mock DaemonConf" where
  "listing_conf = \<lparr>dc_spec = TestAssets, dc_env = sample_env, dc_flags = default_flags\<rparr>"

theorem rpc_results_typed_witness:
  "rpc_query listing_conf Q_getordersbyasset listing_daemon = (Ret listed_json, listing_daemon) \<and>
   has_jty (TyMap asset_book_ty) listed_json"
proof -
  have "fst (rpc_getordersbyasset listing_daemon) = Ret listed_json" by code_simp
  moreover have "im = listing_daemon" if "rpc_getordersbyasset listing_daemon = (Ret listed_json, im)" for im
    using that getordersbyasset_typed by blast
  ultimately have "rpc_query listing_conf Q_getordersbyasset listing_daemon = (Ret listed_json, listing_daemon)"
    by (simp add: rpc_query_def prod_eq_iff)
  with rpc_results_typed [OF this] show ?thesis by (simp add: query_ty_def)
qed

end
