(* ===== verification/Gsp.thy ===== *)
theory Gsp
  imports Env
begin

text \<open>
  The game state processor for \<^verbatim>\<open>g/dem\<close>, which tells the daemon whether the transaction of a
  trade is pending or confirmed: \<^verbatim>\<open>src/gsp/game.cpp\<close>, \<^verbatim>\<open>pending.cpp\<close> and \<^verbatim>\<open>rpcserver.cpp\<close>.

  The table \<^verbatim>\<open>trades\<close> of its database is an association list from the transaction's bare
  ID to the height of its block. What the SQLite wrapper of libxayagame does with a failed
  statement, and what a \<^verbatim>\<open>xaya::Game\<close> answers, is not part of this repository: the first is
  an outcome given as an argument, the second a record of functions over the world \<open>'w\<close>.
\<close>

section \<open>The game\<close>

datatype chain = MAIN | TEST | REGTEST

definition GetInitialStateBlock :: "chain \<Rightarrow> uint32 \<times> string" where
  "GetInitialStateBlock c =
     (case c of
        MAIN \<Rightarrow> (2350000, ''c66f30db579e0aad429648f4cb7dd67648d007ae4313f265a406b88f043b3d93'')
      | TEST \<Rightarrow> (109000, ''ebc9c179a6a9700777851d2b5452fa1c4b14aaa194a646e2a37cec8ca410e62a'')
      | REGTEST \<Rightarrow> (0, ''6f750b36d22f1dc3d0a6e483af45301022646dfc3b3ba2187865f5a7d6d83ab1''))"

type_synonym trades_table = "(string \<times> int) list"

text \<open>\<^verbatim>\<open>SetupSchema\<close> creates the table and \<^verbatim>\<open>InitialiseState\<close> leaves it empty.\<close>

definition InitialiseState :: trades_table where
  "InitialiseState = []"

definition ParseMove :: "(rat \<Rightarrow> string) \<Rightarrow> json \<Rightarrow> ('s, string) prog" where
  "ParseMove real_str mv =
     bnd (jidx mv ''btxid'') (\<lambda>btxidVal. liftO (asString real_str btxidVal))"

text \<open>
  The elements a range-based \<^verbatim>\<open>for\<close> over a JSON value visits: those of an array or the values
  of an object, and nothing for any other value.
\<close>

definition jiter :: "json \<Rightarrow> json list" where
  "jiter j = (case j of JArr xs \<Rightarrow> xs | JObj kvs \<Rightarrow> map snd kvs | _ \<Rightarrow> [])"

text \<open>
  The insertion of a row: the primary key makes a second row for a transaction an SQLite
  error, which the wrapper reports as \<open>sql_error\<close>.
\<close>

definition insert_trade :: "unit outcome \<Rightarrow> string \<Rightarrow> uint32 \<Rightarrow> (trades_table, unit) prog" where
  "insert_trade sql_error btxid height =
     bnd (gets (\<lambda>db. map_of db btxid)) (\<lambda>row.
     case row of
       None \<Rightarrow> modifies (\<lambda>db. db @ [(btxid, uint height)])
     | Some _ \<Rightarrow> liftO sql_error)"

definition UpdateState :: "(rat \<Rightarrow> string) \<Rightarrow> unit outcome \<Rightarrow> json \<Rightarrow> (trades_table, unit) prog" where
  "UpdateState real_str sql_error blockData =
     bnd (jidx blockData ''block'') (\<lambda>block.
     bnd (jidx block ''height'') (\<lambda>heightVal.
     bnd (liftO (convUInt heightVal)) (\<lambda>height.
     bnd (jidx blockData ''moves'') (\<lambda>moves.
     for_each (\<lambda>entry. bnd (ParseMove real_str entry) (\<lambda>btxid. insert_trade sql_error btxid height)) (jiter moves)))))"

text \<open>\<^verbatim>\<open>static_cast<Json::Int>\<close> of a number of the database.\<close>

definition json_int :: "int \<Rightarrow> json" where
  "json_int h = JInt (sint (word_of_int h :: int32))"

definition GetStateAsJson :: "trades_table \<Rightarrow> json" where
  "GetStateAsJson db = fold (\<lambda>(btxid, height). jset btxid (json_int height)) (sort_key fst db) jempty"

section \<open>Pending moves\<close>

definition Clear :: json where
  "Clear = jempty"

definition AddPendingMove :: "(rat \<Rightarrow> string) \<Rightarrow> json \<Rightarrow> (json, unit) prog" where
  "AddPendingMove real_str mv =
     bnd (ParseMove real_str mv) (\<lambda>btxid. modifies (jset btxid jempty))"

definition ToJson :: "json \<Rightarrow> json" where
  "ToJson pending = pending"

section \<open>The state of a trade\<close>

datatype GspTradeState = UNKNOWN | PENDING_TX | CONFIRMED

record TradeData =
  td_state :: GspTradeState
  td_confirmationHeight :: uint32
  td_gspState :: json

text \<open>
  The part of libxayagame that the RPC server uses: stopping, the state and the pending state as
  JSON, and the result of a callback on the database together with general data on the state.
\<close>

record 'w Game =
  RequestStop :: "('w, unit) prog"
  GetNullJsonState :: "('w, json) prog"
  GetCurrentJsonState :: "('w, json) prog"
  GetPendingJsonState :: "('w, json) prog"
  GetCustomStateData :: "string \<Rightarrow> (trades_table \<Rightarrow> json outcome) \<Rightarrow> ('w, json) prog"

text \<open>The callback: the height of the trade's row, or null. There is at most one row.\<close>

definition lookup_height :: "string \<Rightarrow> trades_table \<Rightarrow> json outcome" where
  "lookup_height btxid db =
     (case filter (\<lambda>row. fst row = btxid) db of
        [] \<Rightarrow> Ret JNull
      | [row] \<Rightarrow> Ret (json_int (snd row))
      | _ \<Rightarrow> Fatal)"

definition CheckTrade :: "'w Game \<Rightarrow> string \<Rightarrow> ('w, TradeData) prog" where
  "CheckTrade g btxid =
     bnd (GetPendingJsonState g) (\<lambda>pendingState.
     bnd (jidx pendingState ''pending'') (\<lambda>pending.
     bnd (GetCustomStateData g ''data'' (lookup_height btxid)) (\<lambda>confirmed.
     checked (isObject pending) (
     checked (isObject confirmed) (
     checked (isMember confirmed ''data'') (
     let dat = jget confirmed ''data''; gspState = jremove ''data'' confirmed in
     checked (isNull dat \<or> isUInt dat) (
     if isInt dat then
       ret \<lparr>td_state = CONFIRMED, td_confirmationHeight = asUInt dat, td_gspState = gspState\<rparr>
     else if isMember pending btxid then
       ret \<lparr>td_state = PENDING_TX, td_confirmationHeight = 0, td_gspState = gspState\<rparr>
     else
       ret \<lparr>td_state = UNKNOWN, td_confirmationHeight = 0, td_gspState = gspState\<rparr>)))))))"

text \<open>
  The RPC server: a record of its methods. All but one are passed on to libxayagame. (An unset
  \<^verbatim>\<open>confirmationHeight\<close> is only ever read for a confirmed trade.)
\<close>

definition gsp_checktrade :: "'w Game \<Rightarrow> string \<Rightarrow> ('w, json) prog" where
  "gsp_checktrade g btxid =
     bnd (CheckTrade g btxid) (\<lambda>d.
     let state = (case td_state d of
             UNKNOWN \<Rightarrow> jset ''state'' (JStr ''unknown'') jempty
           | PENDING_TX \<Rightarrow> jset ''state'' (JStr ''pending'') jempty
           | CONFIRMED \<Rightarrow> jset ''height'' (JInt (sint (td_confirmationHeight d))) (jset ''state'' (JStr ''confirmed'') jempty)) in
     ret (jset ''data'' state (td_gspState d)))"

record 'w GspRpcServer =
  gsp_stop :: "('w, unit) prog"
  gsp_getnullstate :: "('w, json) prog"
  gsp_getcurrentstate :: "('w, json) prog"
  gsp_getpendingstate :: "('w, json) prog"
  gsp_rpc_checktrade :: "string \<Rightarrow> ('w, json) prog"

definition new_gsp_server :: "'w Game \<Rightarrow> 'w GspRpcServer" where
  "new_gsp_server g = \<lparr>gsp_stop = RequestStop g, gsp_getnullstate = GetNullJsonState g,
     gsp_getcurrentstate = GetCurrentJsonState g, gsp_getpendingstate = GetPendingJsonState g,
     gsp_rpc_checktrade = gsp_checktrade g\<rparr>"

section \<open>The table after a block\<close>

lemma insert_trade_new: "map_of db btxid = None \<Longrightarrow> insert_trade e btxid h db = (Ret (), db @ [(btxid, uint h)])"
  by (simp add: insert_trade_def)

definition move_ids :: "(rat \<Rightarrow> string) \<Rightarrow> json list \<Rightarrow> string list \<Rightarrow> bool" where
  "move_ids real_str mvs ids \<longleftrightarrow>
     list_all2 (\<lambda>mv btxid. isObject mv \<and> asString real_str (jget mv ''btxid'') = Ret btxid) mvs ids"

text \<open>
  What the code relies on in the data of a block: a height, and one move for each
  transaction, none of which is in the database already.
\<close>

definition block_ok :: "(rat \<Rightarrow> string) \<Rightarrow> json \<Rightarrow> uint32 \<Rightarrow> string list \<Rightarrow> trades_table \<Rightarrow> bool" where
  "block_ok real_str blockData height ids db \<longleftrightarrow>
     isObject blockData \<and> isObject (jget blockData ''block'') \<and>
     isUInt (jget (jget blockData ''block'') ''height'') \<and>
     asUInt (jget (jget blockData ''block'') ''height'') = height \<and>
     move_ids real_str (jiter (jget blockData ''moves'')) ids \<and>
     distinct (map fst db @ ids)"

lemma for_each_insert:
  assumes "move_ids real_str mvs ids" "distinct (map fst db @ ids)"
  shows "for_each (\<lambda>entry. bnd (ParseMove real_str entry) (\<lambda>btxid. insert_trade e btxid height)) mvs db
    = (Ret (), db @ map (\<lambda>btxid. (btxid, uint height)) ids)"
  using assms unfolding move_ids_def
proof (induction arbitrary: db rule: list_all2_induct)
  case (Cons mv mvs btxid ids)
  then have "map_of db btxid = None" by (auto simp: map_of_eq_None_iff)
  with Cons show ?case by (simp add: ParseMove_def bnd_run_Ret insert_trade_new)
qed simp

lemma UpdateState_eq:
  assumes "block_ok real_str blockData height ids db"
  shows "UpdateState real_str e blockData db = (Ret (), db @ map (\<lambda>btxid. (btxid, uint height)) ids)"
  using assms by (simp add: UpdateState_def block_ok_def convUInt_isUInt for_each_insert)

text \<open>Blocks are attached one after the other, at increasing heights.\<close>

inductive attach :: "(rat \<Rightarrow> string) \<Rightarrow> json \<Rightarrow> trades_table \<times> nat \<Rightarrow> trades_table \<times> nat \<Rightarrow> bool"
  for real_str :: "rat \<Rightarrow> string" where
  attach: "block_ok real_str blockData height ids db \<Longrightarrow> tip < unat height \<Longrightarrow>
    UpdateState real_str e blockData db = (Ret (), db') \<Longrightarrow> attach real_str blockData (db, tip) (db', unat height)"

definition table_inv :: "trades_table \<times> nat \<Rightarrow> bool" where
  "table_inv s \<longleftrightarrow> distinct (map fst (fst s)) \<and> (\<forall>row \<in> set (fst s). 0 \<le> snd row \<and> snd row \<le> int (snd s))"

lemma attach_inv: "table_inv s \<Longrightarrow> attach real_str blk s t \<Longrightarrow> table_inv t"
proof (erule attach.cases)
  fix blockData height ids db tip e db'
  assume inv: "table_inv s" and s: "s = (db, tip)" "t = (db', unat height)" and ok: "block_ok real_str blockData height ids db"
    and less: "tip < unat height" and upd: "UpdateState real_str e blockData db = (Ret (), db')"
  from upd UpdateState_eq [OF ok, of e] have db': "db' = db @ map (\<lambda>btxid. (btxid, uint height)) ids" by simp
  have "distinct (map fst db')" using ok by (simp add: db' block_ok_def comp_def)
  moreover have "0 \<le> snd row \<and> snd row \<le> int (unat height)" if "row \<in> set db'" for row
  proof -
    have "row \<in> set db \<or> snd row = uint height" using that by (auto simp: db')
    moreover have "0 \<le> snd row \<and> snd row \<le> int tip" if "row \<in> set db" using that inv by (simp add: table_inv_def s)
    moreover from less have "int tip < int (unat height)" by (simp only: of_nat_less_iff)
    then have "int tip < uint height" by simp
    ultimately show ?thesis by auto
  qed
  ultimately show "table_inv t" by (simp add: table_inv_def s)
qed

lemma lookup_height_eq:
  "distinct (map fst db) \<Longrightarrow> lookup_height btxid db =
     Ret (case map_of db btxid of None \<Rightarrow> JNull | Some h \<Rightarrow> json_int h)"
proof (induction db)
  case (Cons row db)
  show ?case
  proof (cases "fst row = btxid")
    case True
    with Cons.prems have "btxid \<notin> fst ` set db" by simp
    then have "\<forall>r \<in> set db. fst r \<noteq> btxid" by (metis image_eqI)
    then have "filter (\<lambda>row. fst row = btxid) db = []" by (simp add: filter_empty_conv)
    with True show ?thesis by (cases row) (simp add: lookup_height_def)
  next
    case False
    with Cons show ?thesis by (cases row) (simp add: lookup_height_def)
  qed
qed (simp add: lookup_height_def)

section \<open>Properties\<close>

text \<open>
  A block records exactly its own moves: after the update the transactions of the block
  are confirmed at its height, whatever the wrapper does on SQL errors, and nothing changes
  for any other transaction.
\<close>

theorem update_records_moves:
  assumes "block_ok real_str blockData height ids db"
  shows "\<exists>db'. UpdateState real_str sql_error blockData db = (Ret (), db') \<and> distinct (map fst db') \<and>
    (\<forall>btxid. map_of db' btxid = (if btxid \<in> set ids then Some (uint height) else map_of db btxid))"
proof -
  let ?db' = "db @ map (\<lambda>btxid. (btxid, uint height)) ids"
  have "distinct (map fst ?db')" using assms by (simp add: block_ok_def comp_def)
  moreover have "map_of ?db' btxid = (if btxid \<in> set ids then Some (uint height) else map_of db btxid)" for btxid
  proof (cases "btxid \<in> set ids")
    case True
    with assms have "map_of db btxid = None" by (auto simp: block_ok_def map_of_eq_None_iff)
    with True show ?thesis by (simp add: map_add_def map_of_map_keys map_of_map_restrict restrict_map_def)
  next
    case False
    then have "map_of (map (\<lambda>btxid. (btxid, uint height)) ids) btxid = None" by (auto simp: map_of_eq_None_iff)
    with False show ?thesis by (cases "map_of db btxid") (simp_all add: map_add_def)
  qed
  ultimately show ?thesis using UpdateState_eq [OF assms] by blast
qed

definition sample_block :: json where
  "sample_block = jset ''block'' (jset ''height'' (JInt 11) jempty)
     (jset ''moves'' (JArr [jset ''btxid'' (JStr ''btx'') jempty]) jempty)"

theorem update_records_moves_witness:
  "\<exists>db'. UpdateState (\<lambda>r. []) Fatal sample_block [(''old'', 10)] = (Ret (), db') \<and> distinct (map fst db') \<and>
    (\<forall>btxid. map_of db' btxid = (if btxid \<in> set [''btx''] then Some 11 else map_of [(''old'', 10)] btxid))"
proof -
  have "block_ok (\<lambda>r. []) sample_block 11 [''btx''] [(''old'', 10)]" by code_simp
  moreover have "uint (11 :: uint32) = 11" by simp
  ultimately show ?thesis using update_records_moves [of "\<lambda>r. []" sample_block 11 "[''btx'']" "[(''old'', 10)]" Fatal] by metis
qed

end
