(* ===== verification/Nonfungible.thy ===== *)
theory Nonfungible
  imports Env
begin

text \<open>
  The asset specification for the non-fungible game and the start-up checks of its daemon:
  \<^verbatim>\<open>src/nonfungible/main.cpp\<close>. The RPC interface of the game's own state processor is a record
  of functions.
\<close>

section \<open>Definitions\<close>

record 'w NfRpcClient =
  getassetdetails :: "json \<Rightarrow> ('w, json) prog"
  getbalance :: "json \<Rightarrow> string \<Rightarrow> ('w, json) prog"

text \<open>The asset is split at its first line break.\<close>

definition GetNfAsset :: "Asset \<Rightarrow> json" where
  "GetNfAsset str =
     (if CHR 0x0A \<notin> set str then JNull
      else jset ''a'' (JStr (tl (dropWhile (\<lambda>c. c \<noteq> CHR 0x0A) str)))
        (jset ''m'' (JStr (takeWhile (\<lambda>c. c \<noteq> CHR 0x0A) str)) jempty))"

definition nf_IsAsset :: "'w NfRpcClient \<Rightarrow> Asset \<Rightarrow> ('w, bool) prog" where
  "nf_IsAsset gsp asset =
     (let jsonAsset = GetNfAsset asset in
      if isNull jsonAsset then ret False else
      bnd (getassetdetails gsp jsonAsset) (\<lambda>response.
      checked (isMember response ''data'') (
      ret (\<not> isNull (jget response ''data'')))))"

definition nf_CanSell ::
    "(string \<Rightarrow> uint256 option) \<Rightarrow> 'w NfRpcClient \<Rightarrow> string \<Rightarrow> Asset \<Rightarrow> Amount \<Rightarrow> ('w, uint256 option) prog" where
  "nf_CanSell FromHex gsp name asset n =
     (let jsonAsset = GetNfAsset asset in
      checked (isObject jsonAsset) (
      bnd (getbalance gsp jsonAsset name) (\<lambda>response.
      checked (isObject response) (
      let balance = jget response ''data'' in
      checked (isInt64 balance) (
      let hashVal = jget response ''blockhash'' in
      checked (isString hashVal) (
      case FromHex (jtext hashVal) of
        None \<Rightarrow> fatal
      | Some hash \<Rightarrow> ret (if sint n \<le> sint (asInt64 balance) then Some hash else None)))))))"

definition nf_CanBuy :: "string \<Rightarrow> Asset \<Rightarrow> Amount \<Rightarrow> ('w, bool) prog" where
  "nf_CanBuy name asset n = ret True"

definition nf_GetTransferMove :: "string \<Rightarrow> string \<Rightarrow> Asset \<Rightarrow> Amount \<Rightarrow> json outcome" where
  "nf_GetTransferMove sender receiver asset n =
     (let jsonAsset = GetNfAsset asset in
      if \<not> isObject jsonAsset then Fatal else
      let transfer = jset ''r'' (JStr receiver) (jset ''n'' (JInt (sint n)) (jset ''a'' jsonAsset jempty)) in
      Ret (jset ''t'' transfer jempty))"

definition NfAssetSpec :: "(string \<Rightarrow> uint256 option) \<Rightarrow> 'w NfRpcClient \<Rightarrow> 'w AssetSpec" where
  "NfAssetSpec FromHex gsp = \<lparr>GetGameId = ''nf'', IsAsset = nf_IsAsset gsp, CanSell = nf_CanSell FromHex gsp,
     CanBuy = nf_CanBuy, GetTransferMove = nf_GetTransferMove\<rparr>"

text \<open>The flags of the program, and the usage error its \<^verbatim>\<open>main\<close> stops with before anything is started.\<close>

record nf_flags =
  gsp_rpc_url :: string
  xaya_rpc_url :: string
  dem_rpc_url :: string
  rpc_port :: int32
  flag_account :: string
  flag_jid :: string
  flag_password :: string
  flag_cafile :: string
  flag_room :: string

definition nf_usage_error :: "nf_flags \<Rightarrow> string option" where
  "nf_usage_error F =
     (if gsp_rpc_url F = [] then Some ''--gsp_rpc_url must be set''
      else if xaya_rpc_url F = [] then Some ''--xaya_rpc_url must be set''
      else if dem_rpc_url F = [] then Some ''--dem_rpc_url must be set''
      else if rpc_port F = 0 then Some ''--rpc_port must be set''
      else if flag_account F = [] then Some ''--account must be set''
      else if flag_jid F = [] then Some ''--jid must be set''
      else None)"

section \<open>Assets and moves\<close>

lemma GetNfAsset_object: "isObject (GetNfAsset str) \<longleftrightarrow> CHR 0x0A \<in> set str"
  by (simp add: GetNfAsset_def)

lemma split_asset:
  assumes "c \<in> set str"
  shows "takeWhile (\<lambda>x. x \<noteq> c) str @ c # tl (dropWhile (\<lambda>x. x \<noteq> c) str) = str"
  using assms by (induction str) auto

lemma GetNfAsset_inject:
  assumes "CHR 0x0A \<in> set a" "CHR 0x0A \<in> set b" "GetNfAsset a = GetNfAsset b"
  shows "a = b"
proof -
  have "jget (GetNfAsset a) ''m'' = jget (GetNfAsset b) ''m''" "jget (GetNfAsset a) ''a'' = jget (GetNfAsset b) ''a''"
    using assms(3) by simp_all
  then have "takeWhile (\<lambda>c. c \<noteq> CHR 0x0A) a = takeWhile (\<lambda>c. c \<noteq> CHR 0x0A) b"
      "tl (dropWhile (\<lambda>c. c \<noteq> CHR 0x0A) a) = tl (dropWhile (\<lambda>c. c \<noteq> CHR 0x0A) b)"
    using assms(1,2) by (simp_all add: GetNfAsset_def)
  with split_asset [OF assms(1)] split_asset [OF assms(2)] show ?thesis by metis
qed

lemma nf_move_reads:
  assumes "nf_GetTransferMove sender receiver asset n = Ret mv"
  shows "jget (jget mv ''t'') ''a'' = GetNfAsset asset" "jget (jget mv ''t'') ''n'' = JInt (sint n)"
    "jget (jget mv ''t'') ''r'' = JStr receiver" "CHR 0x0A \<in> set asset"
  using assms by (auto simp: nf_GetTransferMove_def Let_def GetNfAsset_object split: if_splits)

section \<open>Properties\<close>

text \<open>
  A transfer move of the non-fungible game says exactly what is transferred: two moves are
  equal only if they have the same receiver, the same asset and the same number of units.
  So the move in a checked transaction cannot stand for another trade.
\<close>

theorem nf_moves_distinct:
  assumes "nf_GetTransferMove sender receiver asset n = Ret mv" "nf_GetTransferMove sender' receiver' asset' n' = Ret mv"
  shows "receiver = receiver' \<and> asset = asset' \<and> n = n'"
proof -
  note m = nf_move_reads [OF assms(1)] and m' = nf_move_reads [OF assms(2)]
  have "asset = asset'" using GetNfAsset_inject [OF m(4) m'(4)] m(1) m'(1) by simp
  moreover have "sint n = sint n'" "receiver = receiver'" using m(2,3) m'(2,3) by simp_all
  ultimately show ?thesis by (simp add: signed_word_eqI)
qed

theorem nf_moves_distinct_witness:
  "\<exists>mv. nf_GetTransferMove ''seller'' ''buyer'' (''minter'' @ CHR 0x0A # ''sword'') 3 = Ret mv \<and>
     nf_GetTransferMove ''seller'' ''buyer'' (''minter'' @ CHR 0x0A # ''sword'') 2 \<noteq> Ret mv"
proof -
  have "\<exists>mv. nf_GetTransferMove ''seller'' ''buyer'' (''minter'' @ CHR 0x0A # ''sword'') 3 = Ret mv"
    by (simp add: nf_GetTransferMove_def GetNfAsset_def Let_def)
  then obtain mv where mv: "nf_GetTransferMove ''seller'' ''buyer'' (''minter'' @ CHR 0x0A # ''sword'') 3 = Ret mv" ..
  moreover have "nf_GetTransferMove ''seller'' ''buyer'' (''minter'' @ CHR 0x0A # ''sword'') 2 \<noteq> Ret mv"
    using nf_moves_distinct [OF mv, of "''seller''" "''buyer''" "''minter'' @ CHR 0x0A # ''sword''" 2] by auto
  ultimately show ?thesis by blast
qed

end
