(* ===== verification/Programs.thy ===== *)
theory Programs
  imports DaemonRuns RpcTypes Gsp Nonfungible
begin

text \<open>
  The programs of the repository. \<^verbatim>\<open>src/nonfungible/main.cpp\<close> checks its command line, builds a
  daemon, connects it, serves until it is told to stop and destroys it; \<^verbatim>\<open>src/gsp/main.cpp\<close>
  configures libxayagame with the game of \<^verbatim>\<open>g/dem\<close>.

  While the daemon serves, callbacks, periodic jobs and commands come in any order. Unlike
  the runs of \<^verbatim>\<open>DaemonRuns\<close>, the operations here may also throw: the exception ends the operation,
  and the daemon goes on in the state that it left behind.
\<close>

section \<open>The life of a daemon\<close>

datatype rpc_call = Call_query query | Call_addorder json | Call_cancelorder int32 | Call_takeorder json int32

definition rpc_answer :: "'w DaemonConf \<Rightarrow> rpc_call \<Rightarrow> ('w Impl, json) prog" where
  "rpc_answer C cmd =
     (case cmd of
        Call_query q \<Rightarrow> rpc_query C q
      | Call_addorder order \<Rightarrow> bnd (rpc_addorder C order) (\<lambda>b. ret (JBool b))
      | Call_cancelorder oid \<Rightarrow> rpc_cancelorder C oid
      | Call_takeorder order units \<Rightarrow> bnd (rpc_takeorder C order units) (\<lambda>b. ret (JBool b)))"

datatype daemon_op =
    Op_room_message int nat Stanza bool
  | Op_presence bool int nat Presence
  | Op_message Stanza
  | Op_room_error nat
  | Op_room_created nat
  | Op_rpc rpc_call
  | Op_refresh
  | Op_update_trades
  | Op_timeout int
  | Op_reconnect bool nat
  | Op_disconnecter
  | Op_dropped

definition perform :: "'w DaemonConf \<Rightarrow> daemon_op \<Rightarrow> ('w Impl, unit) prog" where
  "perform C op =
     (case op of
        Op_room_message now r msg priv \<Rightarrow> on_room_message C now r msg priv
      | Op_presence vlog now r p \<Rightarrow> on_presence vlog now r p
      | Op_message msg \<Rightarrow> on_message C msg
      | Op_room_error r \<Rightarrow> onNet (onL (handleMUCError r))
      | Op_room_created r \<Rightarrow> onNet (onL (bnd (handleMUCRoomCreation r) (\<lambda>_. ret ())))
      | Op_rpc cmd \<Rightarrow> bnd (rpc_answer C cmd) (\<lambda>_. ret ())
      | Op_refresh \<Rightarrow> onState (RunRefresh (MyOrdersImpl C))
      | Op_update_trades \<Rightarrow> onState (UpdateAndArchiveTrades (daemon_tm C))
      | Op_timeout now \<Rightarrow> modifies (\<lambda>im. im\<lparr>im_allOrders := RunTimeout now (im_allOrders im)\<rparr>)
      | Op_reconnect xmppOk room \<Rightarrow> reconnect_round xmppOk room
      | Op_disconnecter \<Rightarrow> onNet (onL (modifies run_worker))
      | Op_dropped \<Rightarrow> onNet (onL (modifies (\<lambda>c. c\<lparr>mc_connected := False\<rparr>))))"

definition perform_all :: "'w DaemonConf \<Rightarrow> daemon_op list \<Rightarrow> ('w Impl, unit) prog" where
  "perform_all C = for_each (\<lambda>op. catch (perform C op) (\<lambda>e. ret ()))"

text \<open>
  The end of a daemon. \<^verbatim>\<open>Daemon\<close> and \<^verbatim>\<open>Daemon::Impl\<close> have no destructors of their own: the members are
  destroyed in the reverse order of their declaration, the job that reconnects first, and
  the destructor of the base class disconnects last.
\<close>

definition destroy_client :: "(MucClient, unit) prog" where
  "destroy_client = bnd Disconnect (\<lambda>_. bnd (gets mc_room) (\<lambda>room. checked (room = None) (ret ())))"

definition destroy_daemon :: "('w Impl, unit) prog" where
  "destroy_daemon = bnd (modifies (\<lambda>im. im\<lparr>im_reconnecter := False\<rparr>)) (\<lambda>_. onNet (onL destroy_client))"

section \<open>The daemon for the non-fungible game\<close>

definition EXIT_SUCCESS :: int where
  "EXIT_SUCCESS = 0"

definition EXIT_FAILURE :: int where
  "EXIT_FAILURE = 1"

text \<open>
  The environment of one run of the program: the flag with the trusted servers and the one with
  the timeout of orders, the values of uninitialised members, how the XMPP library reads a
  JID, whether the first connection succeeds, what happens while the program waits for the
  room and what while it serves.
\<close>

record run_env =
  re_servers :: string
  re_timeout :: int
  re_garbage1 :: bool
  re_garbage2 :: bool
  re_JID :: "string \<Rightarrow> JID"
  re_xmppOk :: bool
  re_room :: nat
  re_joining :: "daemon_op list"
  re_serving :: "daemon_op list"

text \<open>From \<^verbatim>\<open>SetRootCA\<close> to the return of \<^verbatim>\<open>server.Run ()\<close>.\<close>

definition nf_serve :: "nf_flags \<Rightarrow> run_env \<Rightarrow> 'w DaemonConf \<Rightarrow> ('w Impl, unit) prog" where
  "nf_serve F R C =
     bnd (if flag_cafile F \<noteq> [] then Daemon_SetRootCA else ret ()) (\<lambda>_.
     bnd (Daemon_Connect (re_xmppOk R) (re_room R) (perform_all C (re_joining R))) (\<lambda>_.
     perform_all C (re_serving R)))"

text \<open>
  The whole program, from the state \<open>w\<close> of the world. The daemon goes out of scope before the
  exit code is returned, also when an exception was caught; an exception of a destructor
  would end the process.
\<close>

definition leave :: "int \<Rightarrow> 'w Impl \<Rightarrow> int outcome" where
  "leave code im = (case fst (destroy_daemon im) of Ret _ \<Rightarrow> Ret code | _ \<Rightarrow> Fatal)"

definition nf_conf :: "'w NfRpcClient \<Rightarrow> 'w env \<Rightarrow> flags \<Rightarrow> 'w DaemonConf" where
  "nf_conf gsp E fl = \<lparr>dc_spec = NfAssetSpec (uint256_FromHex E) gsp, dc_env = E, dc_flags = fl\<rparr>"

definition nf_main :: "nf_flags \<Rightarrow> run_env \<Rightarrow> 'w NfRpcClient \<Rightarrow> 'w env \<Rightarrow> flags \<Rightarrow> 'w \<Rightarrow> int outcome" where
  "nf_main F R gsp E fl w =
     (case nf_usage_error F of
        Some msg \<Rightarrow> Ret EXIT_FAILURE
      | None \<Rightarrow>
          (case new_impl (re_servers R) (re_timeout R) (re_garbage1 R) (re_garbage2 R) (flag_account F)
                  (re_JID R (flag_jid F)) (re_JID R (flag_room F)) w of
             Ret im \<Rightarrow>
               (case nf_serve F R (nf_conf gsp E fl) im of
                  (Ret _, im') \<Rightarrow> leave EXIT_SUCCESS im'
                | (Throw _, im') \<Rightarrow> leave EXIT_FAILURE im'
                | (Fatal, im') \<Rightarrow> Fatal)
           | _ \<Rightarrow> Fatal))"

section \<open>The game state processor\<close>

record gsp_flags =
  gf_xaya_rpc_url :: string
  gf_game_rpc_port :: int32
  gf_enable_pruning :: int32
  gf_datadir :: string

text \<open>
  What libxayagame is given: the configuration and the logic of the game. The interfaces of
  the library are records of the functions that it calls.
\<close>

datatype RpcServerType = NONE | HTTP

record DemGame =
  game_initial_block :: "chain \<Rightarrow> uint32 \<times> string"
  game_initial_state :: trades_table
  game_update :: "json \<Rightarrow> (trades_table, unit) prog"
  game_state_json :: "trades_table \<Rightarrow> json"

record PendingMoves =
  pending_clear :: json
  pending_add :: "json \<Rightarrow> (json, unit) prog"
  pending_json :: "json \<Rightarrow> json"

record 'w GameDaemonConfiguration =
  XayaRpcUrl :: string
  GameRpcServer :: RpcServerType
  GameRpcPort :: int
  EnablePruning :: int
  DataDirectory :: string
  MinXayaVersion :: uint32
  BuildRpcServer :: "('w Game \<Rightarrow> 'w GspRpcServer) option"
  Pending :: "PendingMoves option"

definition logic :: "(rat \<Rightarrow> string) \<Rightarrow> unit outcome \<Rightarrow> DemGame" where
  "logic real_str sql_error = \<lparr>game_initial_block = GetInitialStateBlock, game_initial_state = InitialiseState,
     game_update = UpdateState real_str sql_error, game_state_json = GetStateAsJson\<rparr>"

definition dem_pending :: "(rat \<Rightarrow> string) \<Rightarrow> PendingMoves" where
  "dem_pending real_str = \<lparr>pending_clear = Clear, pending_add = AddPendingMove real_str, pending_json = ToJson\<rparr>"

text \<open>\<open>config0\<close> is the configuration as its default constructor leaves it.\<close>

definition gsp_config ::
    "gsp_flags \<Rightarrow> (rat \<Rightarrow> string) \<Rightarrow> 'w GameDaemonConfiguration \<Rightarrow> 'w GameDaemonConfiguration" where
  "gsp_config F real_str config0 =
     (let config1 = config0\<lparr>XayaRpcUrl := gf_xaya_rpc_url F\<rparr>;
          config2 = (if gf_game_rpc_port F \<noteq> 0
            then config1\<lparr>GameRpcServer := HTTP, GameRpcPort := sint (gf_game_rpc_port F)\<rparr> else config1) in
      config2\<lparr>EnablePruning := sint (gf_enable_pruning F), DataDirectory := gf_datadir F, MinXayaVersion := 1050000,
        BuildRpcServer := Some new_gsp_server, Pending := Some (dem_pending real_str)\<rparr>)"

definition gsp_main ::
    "('w GameDaemonConfiguration \<Rightarrow> string \<Rightarrow> DemGame \<Rightarrow> ('w, int) prog) \<Rightarrow> (rat \<Rightarrow> string) \<Rightarrow> unit outcome \<Rightarrow>
     'w GameDaemonConfiguration \<Rightarrow> gsp_flags \<Rightarrow> ('w, int) prog" where
  "gsp_main SQLiteMain real_str sql_error config0 F =
     (if gf_xaya_rpc_url F = [] then ret EXIT_FAILURE
      else if gf_datadir F = [] then ret EXIT_FAILURE
      else SQLiteMain (gsp_config F real_str config0) ''dem'' (logic real_str sql_error))"

section \<open>What every operation keeps\<close>

text \<open>
  Even with exceptions: the known JIDs are authenticated, private messages went to such JIDs, and
  the client's worker thread is in order.
\<close>

definition life_inv :: "string set \<Rightarrow> 'w Impl \<Rightarrow> bool" where
  "life_inv servers im \<longleftrightarrow> auth_ok servers (im_auth im) \<and> sent_to_trusted servers (mc_out (client im)) \<and> muc_inv (client im)"

declare keeps_fold_prog [keeps_intro] keeps_prod [keeps_intro]

lemma keeps_auth [keeps_intro]: "keeps (life_inv servers) (onAuth (Authenticate jid))"
  by (rule keepsI) (auto simp: life_inv_def onAuth_eq intro: auth_ok_Authenticate)

lemma keeps_book [keeps_intro]: "keeps (life_inv servers) (onBook m)"
  by (rule keepsI) (auto simp: life_inv_def onBook_eq)

lemma keeps_world [keeps_intro]: "keeps (life_inv servers) (onNet (onW m))"
  by (rule keepsI) (auto simp: life_inv_def onNet_eq onW_eq)

lemma keeps_state:
  assumes "\<And>c. keeps (\<lambda>s. only_published c (snd s)) m"
  shows "keeps (life_inv servers) (onState m)"
proof (rule keepsI)
  fix im r im' assume inv: "life_inv servers im" and run: "onState m im = (r, im')"
  then obtain s n where m: "m (im_state im, im_net im) = (r, (s, n))" "im' = im\<lparr>im_state := s, im_net := n\<rparr>"
    by (auto simp: onState_eq)
  from keepsD [OF assms _ m(1), of "client im"] only_published_refl [of "im_net im"] have "only_published (client im) n" by simp
  then obtain pubs where "fst n = (client im)\<lparr>mc_out := mc_out (client im) @ map Published pubs\<rparr>"
    by (auto simp: only_published_def)
  moreover have "sent_to_trusted servers (out @ map Published pubs)" if "sent_to_trusted servers out" for out
    using that by (auto simp: sent_to_trusted_def)
  ultimately show "life_inv servers im'"
    using inv m(2) by (simp add: life_inv_def muc_inv_def)
qed

lemma keeps_client:
  assumes "\<And>c r c'. muc_inv c \<Longrightarrow> m c = (r, c') \<Longrightarrow> muc_inv c' \<and> mc_out c' = mc_out c"
  shows "keeps (life_inv servers) (onNet (onL m))"
  by (rule keepsI) (auto simp: life_inv_def onNet_eq onL_eq dest: assms)

lemma keeps_send [keeps_intro]: "keeps (life_inv servers) (SendProcessingMessage m)"
proof (rule keepsI)
  fix im r im' assume inv: "life_inv servers im" and run: "SendProcessingMessage m im = (r, im')"
  from SendProcessingMessage_eq [OF run] inv auth_ok_lookup [of servers "im_auth im"] show "life_inv servers im'"
    by (fastforce simp: life_inv_def sent_to_trusted_def muc_inv_def)
qed

lemma client_ops_inv:
  "muc_inv c \<Longrightarrow> handleMUCParticipantPresence vlog r p c = (q, c') \<Longrightarrow> muc_inv c' \<and> mc_out c' = mc_out c"
  "muc_inv c \<Longrightarrow> handleMUCError r c = (q1, c') \<Longrightarrow> muc_inv c' \<and> mc_out c' = mc_out c"
  by (auto simp: muc_inv_def DisconnectAsync_def handleMUCError_def handleMUCParticipantPresence_def finish_joining_def
      run_worker_def join_disconnecter_def checked_def bnd_def Let_def split: if_splits option.splits)

text \<open>Connecting brings the client in order, whatever was in its uninitialised members.\<close>

lemma ConnectStart_inv:
  assumes "mc_worker c \<longrightarrow> mc_joinable c" "ConnectStart xmppOk room c = (r, c')"
  shows "muc_inv c' \<and> mc_out c' = mc_out c"
  using assms
  by (auto simp: muc_inv_def ConnectStart_def run_worker_def join_disconnecter_def checked_def bnd_def split: if_splits)

lemma keeps_presence [keeps_intro]: "keeps (life_inv servers) (onNet (onL (handleMUCParticipantPresence vlog r p)))"
  using client_ops_inv(1) by (rule keeps_client)

lemma keeps_error [keeps_intro]: "keeps (life_inv servers) (onNet (onL (handleMUCError r)))"
  using client_ops_inv(2) by (rule keeps_client)

lemma keeps_room_message [keeps_intro]: "keeps (life_inv servers) (onNet (onL (handleMUCMessage r msg priv)))"
  by (rule keeps_client) (auto simp: handleMUCMessage_def checked_def split: if_splits)

lemma keeps_created [keeps_intro]: "keeps (life_inv servers) (onNet (onL (bnd (handleMUCRoomCreation r) (\<lambda>_. ret ()))))"
  by (rule keeps_client) (auto simp: handleMUCRoomCreation_def checked_def bnd_def split: if_splits)

lemma keeps_disconnecter [keeps_intro]:
  "keeps (life_inv servers) (onNet (onL (modifies run_worker)))"
  "keeps (life_inv servers) (onNet (onL (modifies (\<lambda>c. c\<lparr>mc_connected := False\<rparr>))))"
  by (rule keeps_client, auto simp: muc_inv_def run_worker_def)+

lemma keeps_connect [keeps_intro]: "keeps (life_inv servers) (onNet (onL (ConnectStart xmppOk room)))"
  by (rule keeps_client, rule ConnectStart_inv) (auto simp: muc_inv_def)

lemma keeps_timeout [keeps_intro]: "keeps (life_inv servers) (modifies (\<lambda>im. im\<lparr>im_allOrders := f im\<rparr>))"
  by (rule keeps_modifies) (simp add: life_inv_def)

text \<open>The trade code and the own orders.\<close>

lemma keeps_trade_code [keeps_intro]:
  "keeps (life_inv servers) (onState (ProcessMessage (daemon_tm C) msg))"
  "keeps (life_inv servers) (onState (TakeOrder (daemon_tm C) ord units))"
  "keeps (life_inv servers) (onState (UpdateAndArchiveTrades (daemon_tm C)))"
  "keeps (life_inv servers) (onState (RunRefresh (MyOrdersImpl C)))"
  "keeps (life_inv servers) (onState (Add (MyOrdersImpl C) ord))"
  "keeps (life_inv servers) (onState (RemoveById (MyOrdersImpl C) oid))"
  by (rule keeps_state, rule publishing.process_message publishing.take_order state_ops)+

lemma keeps_prod_arg [keeps_intro]: "(\<And>a b. keeps I (f a b x)) \<Longrightarrow> keeps I ((case p of (a, b) \<Rightarrow> f a b) x)"
  by (cases p) simp

text \<open>Queries and printing change nothing.\<close>

lemma keeps_printing [keeps_intro]:
  "keeps I (OrderToJson pb)" "keeps I (OrdersOfAccountToJson own)" "keeps I (OrderbookForAssetToJson f)"
  "keeps I (OrderbookByAssetToJson book)"
proof -
  show ord: "keeps I (OrderToJson pb)" for pb
    by (auto simp: OrderToJson_def Let_def intro!: keeps_intro)
  show "keeps I (OrdersOfAccountToJson own)"
    by (auto simp: OrdersOfAccountToJson_def own_order_json_def intro!: keeps_intro ord)
  show ofa: "keeps I (OrderbookForAssetToJson f)" for f
    by (auto simp: OrderbookForAssetToJson_def OrderbookSideToJson_def side_order_json_def intro!: keeps_intro ord)
  show "keeps I (OrderbookByAssetToJson book)"
    by (auto simp: OrderbookByAssetToJson_def intro!: keeps_intro ofa)
qed

lemma keeps_book_queries [keeps_intro]: "keeps I (InternalGetByAsset asset b)" "keeps I (GetForAsset a b)"
proof -
  have add: "keeps I (AddOrderForAsset res ord)" for res ord
    by (auto simp: AddOrderForAsset_def Let_def intro!: keeps_intro split: order_type.split)
  show int: "keeps I (InternalGetByAsset asset b)" for asset
    by (auto simp: InternalGetByAsset_def SortByPrices_def add_entry_def intro!: keeps_intro add)
  show "keeps I (GetForAsset a b)"
    by (auto simp: GetForAsset_def intro!: keeps_intro int)
qed

lemma keeps_query [keeps_intro]: "keeps (life_inv servers) (rpc_query C q)"
  by (cases q) (auto simp: rpc_query_def rpc_getstatus_def GetAccount_def rpc_getordersforasset_def GetOrdersForAsset_def
      rpc_getordersbyasset_def GetOrdersByAsset_def GetByAsset_def rpc_getownorders_def GetOwnOrders_def rpc_gettrades_def
      Daemon_GetTrades_def intro!: keeps_intro)

lemma keeps_rpc [keeps_intro]: "keeps (life_inv servers) (rpc_answer C cmd)"
  by (cases cmd) (auto simp: rpc_answer_def rpc_addorder_def rpc_cancelorder_def rpc_takeorder_def AddOrder_def
      CancelOrder_def Daemon_TakeOrder_def intro!: keeps_intro)

lemma keeps_perform: "keeps (life_inv servers) (perform C op)"
  by (cases op) (auto simp: perform_def on_room_message_def Impl_HandleMessage_def on_presence_def Impl_HandleDisconnect_def
      on_message_def Impl_HandlePrivate_def reconnect_round_def intro!: keeps_intro)

lemma keeps_perform_all: "keeps (life_inv servers) (perform_all C ops)"
  unfolding perform_all_def by (intro keeps_intro keeps_perform)

section \<open>From the start to the exit code\<close>

text \<open>No exception leaves the body of the program: those of the operations end the operation.\<close>

definition nothrow :: "('s, 'a) prog \<Rightarrow> bool" where
  "nothrow m \<longleftrightarrow> (\<forall>s e. fst (m s) \<noteq> Throw e)"

named_theorems nothrow_intro

lemma nothrow_simps [nothrow_intro]:
  "nothrow (ret a)" "nothrow (gets f)" "nothrow (modifies g)" "nothrow fatal" "nothrow (catch m (\<lambda>e. ret a))"
  by (auto simp: nothrow_def catch_def split: prod.splits outcome.splits)

lemma nothrow_bnd [nothrow_intro]: "nothrow m \<Longrightarrow> (\<And>a. nothrow (f a)) \<Longrightarrow> nothrow (bnd m f)"
  by (auto simp: nothrow_def bnd_def split: prod.splits outcome.splits) (metis fst_conv)

lemma nothrow_branch [nothrow_intro]:
  "nothrow m \<Longrightarrow> nothrow (checked b m)" "nothrow m \<Longrightarrow> nothrow n \<Longrightarrow> nothrow (if b then m else n)"
  by (auto simp: nothrow_def checked_def)

lemma nothrow_parts [nothrow_intro]: "nothrow m \<Longrightarrow> nothrow (onNet m)" "nothrow n \<Longrightarrow> nothrow (onL n)"
proof -
  have "fst (onNet m im) = fst (m (im_net im))" "fst (onL n s) = fst (n (fst s))" for im s
    by (simp_all add: onNet_def onL_def split: prod.splits)
  then show "nothrow m \<Longrightarrow> nothrow (onNet m)" "nothrow n \<Longrightarrow> nothrow (onL n)"
    unfolding nothrow_def by metis+
qed

lemma nothrow_for_each [nothrow_intro]: "(\<And>x. nothrow (f x)) \<Longrightarrow> nothrow (for_each f xs)"
  by (induction xs) (auto intro: nothrow_intro)

lemma nothrow_serve: "nothrow (nf_serve F R C)"
  unfolding nf_serve_def Daemon_SetRootCA_def Daemon_Connect_def ConnectStart_def ConnectEnd_def perform_all_def
  by (intro nothrow_intro)

lemma destroy_succeeds:
  assumes "life_inv servers im"
  shows "\<exists>im'. destroy_daemon im = (Ret (), im')"
proof -
  from assms obtain c' where c': "Disconnect (client im) = (Ret (), c')" "mc_room c' = None"
    using Disconnect_succeeds by (auto simp: life_inv_def)
  have "destroy_client (client im) = (Ret (), c')"
    unfolding destroy_client_def using c' by (simp add: bnd_run_Ret)
  then show ?thesis by (auto simp: destroy_daemon_def onNet_eq onL_eq)
qed

text \<open>The state of the daemon after connecting, and when the server has been stopped.\<close>

lemma connect_inv:
  assumes "Daemon_Connect ok room m im = (Ret (), im')" "keeps (life_inv servers) m"
    and pre: "auth_ok servers (im_auth im)" "sent_to_trusted servers (mc_out (client im))"
      "mc_worker (client im) \<longrightarrow> mc_joinable (client im)"
  shows "life_inv servers im'"
proof -
  define rest where "rest j = (if j then bnd m (\<lambda>_. onNet (onL ConnectEnd)) else ret False)" for j
  from assms(1) obtain j c b im3 where start: "ConnectStart ok room (client im) = (Ret j, c)"
    and join: "rest j (im\<lparr>im_net := (c, snd (im_net im))\<rparr>) = (Ret b, im3)" and im': "im' = im3\<lparr>im_reconnecter := True\<rparr>"
    by (auto simp: Daemon_Connect_def rest_def [symmetric] bnd_Ret_iff checked_Ret_iff onNet_eq onL_eq)
  have "life_inv servers (im\<lparr>im_net := (c, snd (im_net im))\<rparr>)"
    using ConnectStart_inv [OF pre(3) start] pre by (simp add: life_inv_def)
  moreover have "keeps (life_inv servers) (onNet (onL ConnectEnd))"
    by (rule keeps_client) (simp add: ConnectEnd_def)
  then have "keeps (life_inv servers) (rest j)"
    unfolding rest_def by (intro keeps_intro assms(2))
  ultimately have "life_inv servers im3" using join by (blast dest: keepsD)
  then show ?thesis by (simp add: im' life_inv_def)
qed

lemma served_inv:
  assumes "new_impl servers tmo g1 g2 account jid mucRoom w = Ret im0" "nf_serve F R C im0 = (Ret (), im)"
  shows "life_inv (ParseCommaSeparated servers) im"
proof -
  have new: "auth_ok (ParseCommaSeparated servers) (im_auth im0)" "client im0 = new_client g1 g2 mucRoom"
    using new_impl_inv [OF assms(1), of 0] assms(1)
    by (auto simp: daemon_inv_def new_impl_def split: prod.splits outcome.splits option.splits if_splits)
  from assms(2) obtain im1 where
      con: "Daemon_Connect (re_xmppOk R) (re_room R) (perform_all C (re_joining R)) im0 = (Ret (), im1)"
    and serve: "perform_all C (re_serving R) im1 = (Ret (), im)"
    by (auto simp: nf_serve_def Daemon_SetRootCA_def bnd_Ret_iff checked_Ret_iff split: if_splits)
  have "life_inv (ParseCommaSeparated servers) im1"
    using connect_inv [OF con keeps_perform_all] new by (simp add: new_client_def sent_to_trusted_def)
  then show ?thesis using keepsD [OF keeps_perform_all _ serve] by blast
qed


text \<open>
  A run of the seller's program: it joins the room and sees Alice there, answers a query, gets a
  command it cannot read, runs its jobs, is thrown out of the room and cannot reconnect.
\<close>

definition sample_flags :: nf_flags where
  "sample_flags = \<lparr>gsp_rpc_url = ''nf'', xaya_rpc_url = ''xaya'', dem_rpc_url = ''dem'', rpc_port = 29050, flag_account = ''seller'',
     flag_jid = ''seller@chat.xaya.io'', flag_password = [], flag_cafile = ''ca.pem'', flag_room = ''room@muc.chat.xaya.io''\<rparr>"

definition own_presence :: Presence where
  "own_presence = \<lparr>pr_nick = ''n0'', pr_jid = None, pr_newNick = [], pr_self = True, pr_nickChanged = False, pr_unavailable = False\<rparr>"

definition sample_JID :: "string \<Rightarrow> JID" where
  "sample_JID s = (if s = ''seller@chat.xaya.io'' then \<lparr>jid_username = ''seller'', jid_server = ''chat.xaya.io'', jid_resource = []\<rparr>
     else muc_room)"

definition sample_run :: run_env where
  "sample_run = \<lparr>re_servers = ''chat.xaya.io'', re_timeout = 10, re_garbage1 = True, re_garbage2 = False, re_JID = sample_JID,
     re_xmppOk = True, re_room = 1, re_joining = [Op_presence False 3 1 own_presence, Op_presence False 4 1 alice_joins],
     re_serving = [Op_rpc (Call_query Q_getstatus), Op_rpc (Call_addorder JNull), Op_refresh, Op_timeout 20, Op_room_error 1,
       Op_disconnecter, Op_reconnect False 2, Op_dropped]\<rparr>"

definition sample_nf :: "mock NfRpcClient" where
  "sample_nf = \<lparr>getassetdetails = (\<lambda>asset. ret (jset ''data'' JNull jempty)), getbalance = (\<lambda>asset name. ret JNull)\<rparr>"


end
