(* ===== verification/Threads.thy ===== *)
theory Threads
  imports TradeManager
begin

text \<open>
  The threads of the program and how they wait for each other: \<^verbatim>\<open>src/src/intervaljob.cpp\<close>, the
  main loop of \<^verbatim>\<open>src/src/rpcserver.cpp\<close> and the RPC clients per thread of
  \<^verbatim>\<open>src/src/private/rpcclient.tpp\<close>.

  A thread is its program counter. What it does while it has a mutex and calls nothing else
  is one step; a step that needs a mutex has the guard that it is free. A wait on a condition
  variable gives the mutex up, ends by a notification, a time-out or spuriously, and has to
  take the mutex again.
\<close>

section \<open>Winding down\<close>

text \<open>
  A thread that was asked to end: from then on every own step uses up one of the steps left,
  and steps of others leave their number.
\<close>

locale winding_down =
  fixes step :: "'e \<Rightarrow> 's \<Rightarrow> 's \<Rightarrow> bool" and inv :: "'s \<Rightarrow> bool" and asked :: "'s \<Rightarrow> bool"
    and own :: "'e \<Rightarrow> bool" and left :: "'s \<Rightarrow> nat"
  assumes keeps_inv: "inv s \<Longrightarrow> step e s t \<Longrightarrow> inv t"
    and uses_step: "inv s \<Longrightarrow> asked s \<Longrightarrow> step e s t \<Longrightarrow> asked t \<and> left t + (if own e then 1 else 0) = left s"
begin

lemma runs_inv: "runs step s es t \<Longrightarrow> inv s \<Longrightarrow> inv t"
  by (erule runs_invariant) (auto intro: keeps_inv)

lemma asked_runs: "runs step s es t \<Longrightarrow> inv s \<Longrightarrow> asked s \<Longrightarrow> asked t \<and> length (filter own es) + left t = left s"
proof (induction rule: runs.induct)
  case (runs_cons e s t es u)
  with keeps_inv uses_step [OF runs_cons.prems runs_cons.hyps(1)] show ?case by (auto split: if_splits)
qed simp

end

section \<open>Interval jobs\<close>

text \<open>
  The worker starts by taking the mutex (\<open>W_lock\<close>), tests \<^verbatim>\<open>stop\<close> at the head of its loop
  (\<open>W_test\<close>), runs the job (\<open>W_job\<close>), waits (\<open>W_wait\<close>) and takes the mutex again after it was
  woken up (\<open>W_wake\<close>). It has the mutex in \<open>W_test\<close> and \<open>W_job\<close>.
\<close>

datatype worker_pc = W_lock | W_test | W_job | W_wait | W_wake | W_done

text \<open>The owner of the object: it is in use, its destructor waits for the worker, it is gone.\<close>

datatype owner_pc = O_live | O_join | O_gone

record 's IntervalJob =
  ij_stop :: bool
  ij_locked :: bool
  ij_worker :: worker_pc
  ij_owner :: owner_pc
  ij_shared :: 's

text \<open>
  The constructor calls \<^verbatim>\<open>StartWorker\<close>, which has the mutex while it clears the flag and
  creates the thread.
\<close>

definition StartWorker :: "'s \<Rightarrow> 's IntervalJob" where
  "StartWorker s = \<lparr>ij_stop = False, ij_locked = False, ij_worker = W_lock, ij_owner = O_live, ij_shared = s\<rparr>"

text \<open>The steps of the worker's function.\<close>

definition worker_locks :: "'s IntervalJob \<Rightarrow> 's IntervalJob option" where
  "worker_locks c =
     (if (ij_worker c = W_lock \<or> ij_worker c = W_wake) \<and> \<not> ij_locked c
      then Some (c\<lparr>ij_worker := W_test, ij_locked := True\<rparr>) else None)"

definition worker_tests :: "'s IntervalJob \<Rightarrow> 's IntervalJob option" where
  "worker_tests c =
     (if ij_worker c = W_test then
        Some (if ij_stop c then c\<lparr>ij_worker := W_done, ij_locked := False\<rparr> else c\<lparr>ij_worker := W_job\<rparr>)
      else None)"

text \<open>The job and the start of the wait. A job that does not return ends the process.\<close>

definition worker_runs :: "('s, unit) prog \<Rightarrow> 's IntervalJob \<Rightarrow> 's IntervalJob option" where
  "worker_runs job c =
     (if ij_worker c = W_job then
        (case job_round job (ij_shared c) of
           (Ret _, s') \<Rightarrow> Some (c\<lparr>ij_worker := W_wait, ij_locked := False, ij_shared := s'\<rparr>)
         | _ \<Rightarrow> None)
      else None)"

definition worker_wakes :: "'s IntervalJob \<Rightarrow> 's IntervalJob option" where
  "worker_wakes c = (if ij_worker c = W_wait then Some (c\<lparr>ij_worker := W_wake\<rparr>) else None)"

text \<open>The destructor: the section that sets the flag and notifies, then the join.\<close>

definition request_stop :: "'s IntervalJob \<Rightarrow> 's IntervalJob option" where
  "request_stop c =
     (if ij_owner c = O_live \<and> \<not> ij_locked c then
        Some (c\<lparr>ij_stop := True, ij_worker := (if ij_worker c = W_wait then W_wake else ij_worker c), ij_owner := O_join\<rparr>)
      else None)"

definition join_worker :: "'s IntervalJob \<Rightarrow> 's IntervalJob option" where
  "join_worker c = (if ij_owner c = O_join \<and> ij_worker c = W_done then Some (c\<lparr>ij_owner := O_gone\<rparr>) else None)"

text \<open>\<open>Elsewhere\<close> is what other threads do to the data that the job works on.\<close>

datatype 's job_event = Locks | Tests | JobRuns | Wakes | Stops | Joins | Elsewhere 's

fun job_exec :: "('s, unit) prog \<Rightarrow> 's job_event \<Rightarrow> 's IntervalJob \<Rightarrow> 's IntervalJob option" where
  "job_exec job Locks c = worker_locks c"
| "job_exec job Tests c = worker_tests c"
| "job_exec job JobRuns c = worker_runs job c"
| "job_exec job Wakes c = worker_wakes c"
| "job_exec job Stops c = request_stop c"
| "job_exec job Joins c = join_worker c"
| "job_exec job (Elsewhere s') c = Some (c\<lparr>ij_shared := s'\<rparr>)"

definition job_step :: "('s, unit) prog \<Rightarrow> 's job_event \<Rightarrow> 's IntervalJob \<Rightarrow> 's IntervalJob \<Rightarrow> bool" where
  "job_step job e c c' \<longleftrightarrow> job_exec job e c = Some c'"

fun own_event :: "'s job_event \<Rightarrow> bool" where
  "own_event (Elsewhere _) = False"
| "own_event _ = True"

definition job_inv :: "'s IntervalJob \<Rightarrow> bool" where
  "job_inv c \<longleftrightarrow> (ij_locked c \<longleftrightarrow> ij_worker c \<in> {W_test, W_job}) \<and>
     (if ij_stop c then ij_owner c \<noteq> O_live \<and> ij_worker c \<notin> {W_job, W_wait} \<and>
        (ij_owner c = O_gone \<longrightarrow> ij_worker c = W_done)
      else ij_owner c = O_live \<and> ij_worker c \<noteq> W_done)"

text \<open>How many own steps are left once the flag is set.\<close>

definition steps_left :: "'s IntervalJob \<Rightarrow> nat" where
  "steps_left c =
     (case ij_worker c of W_done \<Rightarrow> 0 | W_test \<Rightarrow> 1 | _ \<Rightarrow> 2) + (if ij_owner c = O_gone then 0 else 1)"

lemmas worker_defs = worker_locks_def worker_tests_def worker_runs_def worker_wakes_def request_stop_def join_worker_def

lemma job_inv_start: "job_inv (StartWorker s)"
  by (simp add: job_inv_def StartWorker_def)

lemma job_step_inv:
  assumes "job_inv c" "job_step job e c c'"
  shows "job_inv c'"
  using assms by (cases e) (auto simp: job_step_def job_inv_def worker_defs split: if_splits prod.splits outcome.splits)

lemma stopped_step:
  assumes "job_inv c" "ij_stop c" "job_step job e c c'"
  shows "ij_stop c' \<and> e \<noteq> JobRuns \<and> steps_left c' + (if own_event e then 1 else 0) = steps_left c"
  using assms by (cases e)
    (auto simp: job_step_def job_inv_def worker_defs steps_left_def split: if_splits prod.splits outcome.splits)

interpretation job_stop: winding_down "job_step job" job_inv ij_stop own_event steps_left
  by unfold_locales (auto dest: job_step_inv stopped_step)

lemma stopped_no_job:
  assumes "runs (job_step job) c es c'" "job_inv c" "ij_stop c"
  shows "JobRuns \<notin> set es"
  using assms
proof (induction rule: runs.induct)
  case (runs_cons e s t es u)
  with stopped_step [OF runs_cons.prems runs_cons.hyps(1)] job_step_inv [OF runs_cons.prems(1) runs_cons.hyps(1)]
  show ?case by auto
qed simp

lemma stopped_progress:
  assumes "job_inv c" "ij_stop c" "ij_owner c \<noteq> O_gone"
  shows "\<exists>e c'. own_event e \<and> job_step job e c c'"
proof (cases "ij_worker c")
  case W_lock
  with assms show ?thesis by (intro exI [of _ Locks]) (auto simp: job_step_def job_inv_def worker_locks_def)
next
  case W_wake
  with assms show ?thesis by (intro exI [of _ Locks]) (auto simp: job_step_def job_inv_def worker_locks_def)
next
  case W_test
  with assms show ?thesis by (intro exI [of _ Tests]) (auto simp: job_step_def worker_tests_def)
next
  case W_done
  with assms show ?thesis by (intro exI [of _ Joins]) (cases "ij_owner c"; auto simp: job_step_def job_inv_def join_worker_def)
qed (use assms in \<open>auto simp: job_inv_def\<close>)


definition counting_job :: "(nat, unit) prog" where
  "counting_job = modifies Suc"

definition stopped_job :: "nat IntervalJob" where
  "stopped_job = \<lparr>ij_stop = True, ij_locked = False, ij_worker = W_wake, ij_owner = O_join, ij_shared = 1\<rparr>"


section \<open>The main loop of the RPC server\<close>

text \<open>
  The thread in \<^verbatim>\<open>Run\<close>: before it has the mutex (\<open>R_start\<close>), at the head of the loop (\<open>R_test\<close>), in
  the wait (\<open>R_wait\<close>), woken up (\<open>R_wake\<close>), in \<^verbatim>\<open>StopListening\<close> (\<open>R_stopping\<close>), returned. It has
  the mutex at the head of the loop and in \<^verbatim>\<open>StopListening\<close>.
\<close>

datatype run_pc = R_start | R_test | R_wait | R_wake | R_stopping | R_returned

text \<open>\<open>rs_calls\<close> counts the calls of the \<^verbatim>\<open>stop\<close> command that have not got the mutex yet.\<close>

record RpcServer =
  rs_shouldStop :: bool
  rs_locked :: bool
  rs_listening :: bool
  rs_run :: run_pc
  rs_calls :: nat

definition new_server :: RpcServer where
  "new_server = \<lparr>rs_shouldStop = False, rs_locked = False, rs_listening = False, rs_run = R_start, rs_calls = 0\<rparr>"

definition Run_starts :: "RpcServer \<Rightarrow> RpcServer option" where
  "Run_starts c =
     (if rs_run c = R_start \<and> \<not> rs_locked c
      then Some (c\<lparr>rs_shouldStop := False, rs_locked := True, rs_listening := True, rs_run := R_test\<rparr>) else None)"

definition Run_tests :: "RpcServer \<Rightarrow> RpcServer option" where
  "Run_tests c =
     (if rs_run c = R_test then
        Some (if rs_shouldStop c then c\<lparr>rs_run := R_stopping\<rparr> else c\<lparr>rs_run := R_wait, rs_locked := False\<rparr>)
      else None)"

definition Run_wakes :: "RpcServer \<Rightarrow> RpcServer option" where
  "Run_wakes c = (if rs_run c = R_wait then Some (c\<lparr>rs_run := R_wake\<rparr>) else None)"

definition Run_relocks :: "RpcServer \<Rightarrow> RpcServer option" where
  "Run_relocks c =
     (if rs_run c = R_wake \<and> \<not> rs_locked c then Some (c\<lparr>rs_run := R_test, rs_locked := True\<rparr>) else None)"

text \<open>
  \<^verbatim>\<open>StopListening\<close> belongs to the RPC library. Whether it can return while \<open>n\<close> commands are still
  being handled is the argument \<open>may_stop n\<close>.
\<close>

definition Run_stopped :: "(nat \<Rightarrow> bool) \<Rightarrow> RpcServer \<Rightarrow> RpcServer option" where
  "Run_stopped may_stop c =
     (if rs_run c = R_stopping \<and> may_stop (rs_calls c)
      then Some (c\<lparr>rs_run := R_returned, rs_locked := False, rs_listening := False\<rparr>) else None)"

definition call_arrives :: "RpcServer \<Rightarrow> RpcServer option" where
  "call_arrives c = (if rs_listening c then Some (c\<lparr>rs_calls := rs_calls c + 1\<rparr>) else None)"

definition rpc_stop :: "RpcServer \<Rightarrow> RpcServer option" where
  "rpc_stop c =
     (if 0 < rs_calls c \<and> \<not> rs_locked c then
        Some (c\<lparr>rs_calls := rs_calls c - 1, rs_shouldStop := True, rs_run := (if rs_run c = R_wait then R_wake else rs_run c)\<rparr>)
      else None)"

datatype server_event = Starts_listening | Tests_flag | Wakes_up | Relocks | Stopped | Arrives | Handles_stop

fun server_exec :: "(nat \<Rightarrow> bool) \<Rightarrow> server_event \<Rightarrow> RpcServer \<Rightarrow> RpcServer option" where
  "server_exec may_stop Starts_listening c = Run_starts c"
| "server_exec may_stop Tests_flag c = Run_tests c"
| "server_exec may_stop Wakes_up c = Run_wakes c"
| "server_exec may_stop Relocks c = Run_relocks c"
| "server_exec may_stop Stopped c = Run_stopped may_stop c"
| "server_exec may_stop Arrives c = call_arrives c"
| "server_exec may_stop Handles_stop c = rpc_stop c"

definition server_step :: "(nat \<Rightarrow> bool) \<Rightarrow> server_event \<Rightarrow> RpcServer \<Rightarrow> RpcServer \<Rightarrow> bool" where
  "server_step may_stop e c c' \<longleftrightarrow> server_exec may_stop e c = Some c'"

definition server_inv :: "RpcServer \<Rightarrow> bool" where
  "server_inv c \<longleftrightarrow> (rs_locked c \<longleftrightarrow> rs_run c \<in> {R_test, R_stopping}) \<and> (rs_listening c \<longleftrightarrow> rs_run c \<notin> {R_start, R_returned}) \<and>
     (rs_run c = R_start \<longrightarrow> rs_calls c = 0 \<and> \<not> rs_shouldStop c) \<and>
     (rs_shouldStop c \<longrightarrow> rs_run c \<noteq> R_wait) \<and> (rs_run c \<in> {R_stopping, R_returned} \<longrightarrow> rs_shouldStop c)"

lemmas server_defs = Run_starts_def Run_tests_def Run_wakes_def Run_relocks_def Run_stopped_def call_arrives_def rpc_stop_def

lemma server_inv_new: "server_inv new_server"
  by (simp add: server_inv_def new_server_def)

lemma server_step_inv:
  assumes "server_inv c" "server_step may_stop e c c'"
  shows "server_inv c'"
  using assms by (cases e) (auto simp: server_step_def server_inv_def server_defs split: if_splits)

text \<open>The steps that \<^verbatim>\<open>Run\<close> still makes once the flag is set.\<close>

definition run_steps_left :: "RpcServer \<Rightarrow> nat" where
  "run_steps_left c = (case rs_run c of R_returned \<Rightarrow> 0 | R_stopping \<Rightarrow> 1 | R_test \<Rightarrow> 2 | _ \<Rightarrow> 3)"

fun of_Run :: "server_event \<Rightarrow> bool" where
  "of_Run Arrives = False"
| "of_Run Handles_stop = False"
| "of_Run _ = True"

lemma flagged_step:
  assumes "server_inv c" "rs_shouldStop c" "server_step may_stop e c c'"
  shows "rs_shouldStop c' \<and> run_steps_left c' + (if of_Run e then 1 else 0) = run_steps_left c"
  using assms by (cases e) (auto simp: server_step_def server_inv_def server_defs run_steps_left_def split: if_splits run_pc.splits)

interpretation run_stop: winding_down "server_step may_stop" server_inv rs_shouldStop of_Run run_steps_left
  by unfold_locales (auto dest: server_step_inv flagged_step)

lemma flagged_progress:
  assumes "server_inv c" "rs_shouldStop c" "rs_run c \<noteq> R_returned" "rs_run c = R_stopping \<Longrightarrow> may_stop (rs_calls c)"
  shows "\<exists>e c'. of_Run e \<and> server_step may_stop e c c'"
proof (cases "rs_run c")
  case R_test
  then show ?thesis by (intro exI [of _ Tests_flag]) (simp add: server_step_def Run_tests_def)
next
  case R_wake
  with assms(1) show ?thesis by (intro exI [of _ Relocks]) (simp add: server_step_def Run_relocks_def server_inv_def)
next
  case R_stopping
  with assms(4) show ?thesis by (intro exI [of _ Stopped]) (simp add: server_step_def Run_stopped_def)
qed (use assms in \<open>auto simp: server_inv_def\<close>)

text \<open>
  C29: No \<^verbatim>\<open>stop\<close> command is lost. Once one has been handled, at most three more steps of \<^verbatim>\<open>Run\<close>
  follow, whatever other calls arrive; and until \<^verbatim>\<open>Run\<close> has returned one of them is
  possible, unless it is in the library's \<^verbatim>\<open>StopListening\<close> and that does not return because
  of calls in progress.
\<close>

theorem stop_is_not_lost:
  assumes "runs (server_step may_stop) new_server es c" "server_step may_stop Handles_stop c d" "runs (server_step may_stop) d fs d'"
  shows "length (filter of_Run fs) \<le> 3 \<and>
    (rs_run d' = R_returned \<or> (\<exists>e d''. of_Run e \<and> server_step may_stop e d' d'') \<or>
     rs_run d' = R_stopping \<and> \<not> may_stop (rs_calls d'))"
proof -
  have inv: "server_inv d" using server_step_inv [OF run_stop.runs_inv [OF assms(1) server_inv_new] assms(2)] .
  have flag: "rs_shouldStop d" using assms(2) by (auto simp: server_step_def rpc_stop_def split: if_splits)
  have "server_inv d'" using run_stop.runs_inv [OF assms(3) inv] .
  moreover have "run_steps_left d \<le> 3" by (auto simp: run_steps_left_def split: run_pc.splits)
  ultimately show ?thesis using run_stop.asked_runs [OF assms(3) inv flag] flagged_progress [of d' may_stop] by auto
qed

lemma one_stop_runs:
  "runs (server_step may_stop) new_server [Starts_listening, Tests_flag, Arrives, Arrives]
     \<lparr>rs_shouldStop = False, rs_locked = False, rs_listening = True, rs_run = R_wait, rs_calls = 2\<rparr>"
  by (simp add: runs_cons_iff server_step_def server_defs new_server_def)

theorem stop_is_not_lost_witness:
  "\<exists>e d. of_Run e \<and> server_step (\<lambda>n. n = 0) e
     \<lparr>rs_shouldStop = True, rs_locked = False, rs_listening = True, rs_run = R_wake, rs_calls = 1\<rparr> d"
  using stop_is_not_lost [OF one_stop_runs _ runs_nil, of "\<lambda>n. n = 0"
      "\<lparr>rs_shouldStop = True, rs_locked = False, rs_listening = True, rs_run = R_wake, rs_calls = 1\<rparr>"]
  by (simp add: server_step_def rpc_stop_def)

lemma stopping_stays:
  assumes "runs (server_step may_stop) c es c'" "\<And>n. \<not> may_stop (Suc n)" "server_inv c" "rs_run c = R_stopping" "0 < rs_calls c"
  shows "rs_run c' = R_stopping \<and> 0 < rs_calls c'"
  using assms(1,3-)
proof (induction rule: runs.induct)
  case (runs_cons e s t es u)
  from runs_cons.prems runs_cons.hyps(1) assms(2) have "server_inv t" "rs_run t = R_stopping" "0 < rs_calls t"
    by (auto intro: server_step_inv) (cases e; auto simp: server_step_def server_defs server_inv_def gr0_conv_Suc split: if_splits)+
  then show ?case by (rule runs_cons.IH)
qed simp

text \<open>
  C39: A second \<^verbatim>\<open>stop\<close> command can hang the program. \<^verbatim>\<open>Run\<close> calls \<^verbatim>\<open>StopListening\<close> with the mutex that
  the handler of \<^verbatim>\<open>stop\<close> takes. If \<^verbatim>\<open>StopListening\<close> waits for the handlers in progress, then
  after two \<^verbatim>\<open>stop\<close> commands that arrive together \<^verbatim>\<open>Run\<close> never returns.
\<close>

theorem second_stop_hangs:
  assumes "\<And>n. \<not> may_stop (Suc n)"
  shows "\<exists>c. runs (server_step may_stop) new_server
      [Starts_listening, Tests_flag, Arrives, Arrives, Handles_stop, Relocks, Tests_flag] c \<and>
    (\<forall>fs c'. runs (server_step may_stop) c fs c' \<longrightarrow> rs_run c' \<noteq> R_returned)"
proof (intro exI conjI allI impI)
  let ?c = "\<lparr>rs_shouldStop = True, rs_locked = True, rs_listening = True, rs_run = R_stopping, rs_calls = 1\<rparr>"
  show "runs (server_step may_stop) new_server
      [Starts_listening, Tests_flag, Arrives, Arrives, Handles_stop, Relocks, Tests_flag] ?c"
    by (simp add: runs_cons_iff server_step_def server_defs new_server_def)
  fix fs c' assume "runs (server_step may_stop) ?c fs c'"
  from stopping_stays [OF this assms] show "rs_run c' \<noteq> R_returned" by (simp add: server_inv_def)
qed

theorem second_stop_hangs_witness:
  "\<exists>c. runs (server_step (\<lambda>n. n = 0)) new_server
      [Starts_listening, Tests_flag, Arrives, Arrives, Handles_stop, Relocks, Tests_flag] c \<and>
    (\<forall>fs c'. runs (server_step (\<lambda>n. n = 0)) c fs c' \<longrightarrow> rs_run c' \<noteq> R_returned)"
  by (rule second_stop_hangs) simp

section \<open>RPC clients\<close>

text \<open>
  The class \<^verbatim>\<open>RpcClient\<close> has one client per thread, and one HTTP connection for each. A reference
  to an entry of a \<^verbatim>\<open>std::map\<close> is the key of the entry; \<open>'t\<close> are the IDs of threads.
\<close>

datatype client_version = JSONRPC_CLIENT_V1 | JSONRPC_CLIENT_V2

record 't StubClient =
  sc_http :: 't
  sc_version :: client_version

record 't RpcClient =
  rc_endpoint :: string
  rc_clientVersion :: client_version
  rc_httpClients :: "('t \<times> string) list"
  rc_rpcClients :: "('t \<times> 't StubClient) list"

definition new_rpc_client :: "string \<Rightarrow> bool \<Rightarrow> 't RpcClient" where
  "new_rpc_client ep legacy = \<lparr>rc_endpoint = ep,
     rc_clientVersion = (if legacy then JSONRPC_CLIENT_V1 else JSONRPC_CLIENT_V2), rc_httpClients = [], rc_rpcClients = []\<rparr>"

text \<open>\<^verbatim>\<open>emplace\<close> leaves an entry that the map already has.\<close>

definition emplace :: "'k \<Rightarrow> 'v \<Rightarrow> ('k \<times> 'v) list \<Rightarrow> ('k \<times> 'v) list" where
  "emplace k v m = (if has (map_of m k) then m else m @ [(k, v)])"

definition deref :: "'t \<Rightarrow> 't RpcClient \<Rightarrow> 't \<times> 't RpcClient" where
  "deref tid c =
     (case map_of (rc_rpcClients c) tid of
        Some _ \<Rightarrow> (tid, c)
      | None \<Rightarrow>
          let http = emplace tid (rc_endpoint c) (rc_httpClients c);
              rpc = emplace tid \<lparr>sc_http = tid, sc_version = rc_clientVersion c\<rparr> (rc_rpcClients c)
          in (tid, c\<lparr>rc_httpClients := http, rc_rpcClients := rpc\<rparr>))"

definition derefs :: "'t list \<Rightarrow> 't RpcClient \<Rightarrow> 't RpcClient" where
  "derefs tids c = fold (\<lambda>tid. snd \<circ> deref tid) tids c"

definition client_inv :: "'t RpcClient \<Rightarrow> bool" where
  "client_inv c \<longleftrightarrow> map fst (rc_httpClients c) = map fst (rc_rpcClients c) \<and> distinct (map fst (rc_rpcClients c)) \<and>
     (\<forall>(tid, cl) \<in> set (rc_rpcClients c). cl = \<lparr>sc_http = tid, sc_version = rc_clientVersion c\<rparr>) \<and>
     (\<forall>(tid, ep) \<in> set (rc_httpClients c). ep = rc_endpoint c)"

lemma deref_cases:
  obtains (old) cl where "map_of (rc_rpcClients c) tid = Some cl" "deref tid c = (tid, c)"
  | (fresh) "map_of (rc_rpcClients c) tid = None"
      "deref tid c = (tid, c\<lparr>rc_httpClients := emplace tid (rc_endpoint c) (rc_httpClients c),
         rc_rpcClients := rc_rpcClients c @ [(tid, \<lparr>sc_http = tid, sc_version = rc_clientVersion c\<rparr>)]\<rparr>)"
  by (cases "map_of (rc_rpcClients c) tid") (auto simp: deref_def emplace_def)

lemma deref_inv:
  assumes "client_inv c"
  shows "client_inv (snd (deref tid c))"
proof (cases tid c rule: deref_cases)
  case fresh
  from fresh(1) have "tid \<notin> fst ` set (rc_rpcClients c)" by (simp add: map_of_eq_None_iff)
  moreover from this have "map_of (rc_httpClients c) tid = None"
    using assms by (metis client_inv_def map_of_eq_None_iff list.set_map)
  ultimately show ?thesis using assms by (auto simp: client_inv_def fresh(2) emplace_def)
qed (use assms in simp)

lemma derefs_inv: "client_inv c \<Longrightarrow> client_inv (derefs tids c)"
  by (induction tids arbitrary: c) (auto simp: derefs_def intro: deref_inv)

lemma client_inv_new: "client_inv (new_rpc_client ep legacy)"
  by (simp add: client_inv_def new_rpc_client_def)

text \<open>
  Each thread has its own client and its own connection. After any calls by any threads the
  client that a thread gets uses the HTTP connection of that same thread, and a further call
  by any thread changes no client that exists.
\<close>

lemma deref_own_client:
  assumes "client_inv c"
  shows "map_of (rc_rpcClients (snd (deref tid c))) (fst (deref tid c)) = Some \<lparr>sc_http = tid, sc_version = rc_clientVersion c\<rparr>"
proof (cases tid c rule: deref_cases)
  case (old cl)
  with assms show ?thesis by (auto simp: client_inv_def dest!: map_of_SomeD)
next
  case fresh
  then show ?thesis by (simp add: map_add_def)
qed

lemma deref_keeps_clients:
  "map_of (rc_rpcClients c) t = Some cl \<Longrightarrow> map_of (rc_rpcClients (snd (deref tid c))) t = Some cl"
  by (cases tid c rule: deref_cases) auto

end
