(* ===== verification/Settlement.thy ===== *)
theory Settlement
  imports CheckerProps TradeManager
begin

text \<open>
  Two honest daemons settle a trade. The other theories say what can never go wrong; this one
  says that the protocol of \<^verbatim>\<open>src/src/trades.cpp\<close> also gets to its end: when a daemon takes an
  order of another one and the messages are delivered, then both trades become pending, and
  the transaction with the signatures of both has been broadcast.

  What this needs of the wallets and of the network is the locale \<open>wallets\<close>. It describes the
  JSON-RPC calls of Xaya Core for one transaction whose inputs are signed in two portions.
\<close>

section \<open>Programs that get to an answer\<close>

text \<open>
  From every state of \<open>I\<close> the program returns with a value of \<open>Q\<close> in a state of \<open>J\<close>. Outcomes are
  unique, so this is total correctness.
\<close>

definition leads :: "('s \<Rightarrow> bool) \<Rightarrow> ('s, 'a) prog \<Rightarrow> ('a \<Rightarrow> bool) \<Rightarrow> ('s \<Rightarrow> bool) \<Rightarrow> bool" where
  "leads I m Q J \<longleftrightarrow> (\<forall>s. I s \<longrightarrow> (\<exists>a t. m s = (Ret a, t) \<and> Q a \<and> J t))"

lemma leads_ret [simp]: "Q a \<Longrightarrow> leads I (ret a) Q I"
  by (simp add: leads_def)

lemma leads_Pair [simp]: "Q a \<Longrightarrow> leads I (Pair (Ret a)) Q I"
  by (simp add: leads_def)

lemma leads_bnd: "leads I m Q J \<Longrightarrow> (\<And>a. Q a \<Longrightarrow> leads J (f a) R K) \<Longrightarrow> leads I (bnd m f) R K"
  by (fastforce simp: leads_def bnd_def)

lemma leads_catch: "leads I m Q J \<Longrightarrow> leads I (catch m h) Q J"
  by (fastforce simp: leads_def catch_def)

lemma leads_checked: "b \<Longrightarrow> leads I m Q J \<Longrightarrow> leads I (checked b m) Q J"
  by simp

lemma leads_weaken: "leads I m Q J \<Longrightarrow> (\<And>a. Q a \<Longrightarrow> R a) \<Longrightarrow> leads I m R J"
  by (fastforce simp: leads_def)

lemma leads_run: "leads I m Q J \<Longrightarrow> I s \<Longrightarrow> \<exists>a t. m s = (Ret a, t) \<and> Q a \<and> J t"
  by (simp add: leads_def)

text \<open>A state that is a known value beside the world.\<close>

definition beside :: "'p \<Rightarrow> ('w \<Rightarrow> bool) \<Rightarrow> 'p \<times> 'w \<Rightarrow> bool" where
  "beside p I = (\<lambda>(q, w). q = p \<and> I w)"

lemma beside_iff [simp]: "beside p I (q, w) \<longleftrightarrow> q = p \<and> I w"
  by (simp add: beside_def)

lemma leads_beside_onW: "leads I m Q J \<Longrightarrow> leads (beside p I) (onW m) Q (beside p J)"
  by (fastforce simp: leads_def beside_def onW_def)

lemma leads_beside_gets: "leads (beside p I) (f p) Q J \<Longrightarrow> leads (beside p I) (bnd (gets fst) f) Q J"
  by (auto simp: leads_def beside_def)

lemma leads_beside_modifies:
  "leads (beside (g p) I) (f ()) Q J \<Longrightarrow> leads (beside p I) (bnd (modifies (\<lambda>(p, w). (g p, w))) f) Q J"
  by (auto simp: leads_def beside_def)

text \<open>For a step whose answer is fixed.\<close>

lemma leads_bnd_eq: "leads I m (\<lambda>x. x = a) J \<Longrightarrow> leads J (f a) R K \<Longrightarrow> leads I (bnd m f) R K"
  by (erule leads_bnd) simp

section \<open>One transaction and two wallets\<close>

text \<open>
  The agreement of buyer and seller: the terms, the name output of the seller, the addresses
  it hands out, and the transaction. The \<open>d_inputs\<close> inputs of the transaction are numbered; \<open>d_nameInput\<close>
  spends the name, the others are the buyer's. \<open>d_psbt S\<close> is the PSBT of the transaction in
  which the inputs in \<open>S\<close> are signed, and \<open>d_decoded S\<close> what \<^verbatim>\<open>decodepsbt\<close> says of it.
\<close>

record deal =
  d_tc :: TradeChecker
  d_nameOut :: OutPoint
  d_move :: json
  d_nameAddr :: string
  d_chiAddr :: string
  d_block :: uint256
  d_chiPart :: string
  d_rawName :: string
  d_namePart :: string
  d_tx :: json
  d_inputs :: nat
  d_nameInput :: nat
  d_unsigned :: "nat \<Rightarrow> json"
  d_signed :: "nat \<Rightarrow> json"
  d_psbt :: "nat set \<Rightarrow> string"
  d_decoded :: "nat set \<Rightarrow> json"
  d_hex :: string

definition d_total :: "deal \<Rightarrow> Amount" where
  "d_total d = tc_price (d_tc d) * tc_units (d_tc d)"

definition d_due :: "deal \<Rightarrow> int" where
  "d_due d = sint (tc_price (d_tc d)) * sint (tc_units (d_tc d))"

definition buyer_inputs :: "deal \<Rightarrow> nat set" where
  "buyer_inputs d = {..<d_inputs d} - {d_nameInput d}"

abbreviation all_inputs :: "deal \<Rightarrow> nat set" where
  "all_inputs d \<equiv> {..<d_inputs d}"

definition seller_sd :: "deal \<Rightarrow> SellerData" where
  "seller_sd d = \<lparr>sd_name_address = Some (d_nameAddr d), sd_chi_address = Some (d_chiAddr d), sd_name_output = Some (d_nameOut d)\<rparr>"

definition is_name_json :: "OutPoint \<Rightarrow> json \<Rightarrow> bool" where
  "is_name_json out j \<longleftrightarrow> isObject j \<and> isString (jget j ''txid'') \<and> isUInt (jget j ''vout'') \<and>
     out = \<lparr>op_hash = Some (jtext (jget j ''txid'')), op_n = Some (asUInt (jget j ''vout''))\<rparr>"

definition psbt_reply :: "string \<Rightarrow> json \<Rightarrow> bool" where
  "psbt_reply psbt j \<longleftrightarrow> isObject j \<and> jget j ''psbt'' = JStr psbt"

definition sign_reply :: "string \<Rightarrow> bool \<Rightarrow> json \<Rightarrow> bool" where
  "sign_reply psbt full j \<longleftrightarrow> psbt_reply psbt j \<and> jget j ''complete'' = JBool full"

text \<open>
  The inputs and outputs of the transaction: the name input is the only one that spends the
  name output, the payment is there unless nothing is due, and so is the name update with
  the move that transfers the assets.
\<close>

definition wf_input :: "json \<Rightarrow> bool" where
  "wf_input inp \<longleftrightarrow> isObject inp \<and> isString (jget inp ''txid'') \<and> isUInt (jget inp ''vout'')"

definition tx_inputs_ok :: "deal \<Rightarrow> bool" where
  "tx_inputs_ok d \<longleftrightarrow> isObject (d_tx d) \<and> isArray (jget (d_tx d) ''vin'') \<and>
     has (op_hash (d_nameOut d)) \<and> has (op_n (d_nameOut d)) \<and>
     (let vin = jelems (jget (d_tx d) ''vin'') in
      length vin = d_inputs d \<and> list_all wf_input vin \<and> d_nameInput d < d_inputs d \<and>
      (\<forall>i < d_inputs d. spends (d_nameOut d) (vin ! i) \<longleftrightarrow> i = d_nameInput d))"

definition tx_outputs_ok :: "'w env \<Rightarrow> string \<Rightarrow> deal \<Rightarrow> bool" where
  "tx_outputs_ok E val d \<longleftrightarrow> isArray (jget (d_tx d) ''vout'') \<and>
     (let outs = jelems (jget (d_tx d) ''vout'') in
      list_all (wf_output E) outs \<and>
      (d_due d = 0 \<or> list_ex (is_chi_payment E (d_chiAddr d) (d_due d)) outs) \<and>
      list_ex (is_name_update E (GetXayaName (tc_seller (d_tc d))) val (d_nameAddr d)) outs)"

text \<open>The trade managers of the buyer's daemon and of the seller's.\<close>

definition buyer_tm :: "'w env \<Rightarrow> 'w AssetSpec \<Rightarrow> flags \<Rightarrow> 'w TradeManager \<Rightarrow> bool" where
  "buyer_tm E sp F TM \<longleftrightarrow> tm_env TM = E \<and> tm_spec TM = sp \<and> tm_flags TM = F"

definition seller_tm :: "'w env \<Rightarrow> 'w AssetSpec \<Rightarrow> 'w TradeManager \<Rightarrow> bool" where
  "seller_tm E sp TM \<longleftrightarrow> tm_env TM = E \<and> tm_spec TM = sp"

text \<open>
  The contract. \<open>ready\<close> are the worlds before the seller acts, \<open>locked\<close> those in which its wallet has
  locked the name output, \<open>good\<close> the worlds after it has handed out its addresses, and \<open>sent\<close> those in which the transaction has been broadcast. \<open>Eb\<close> and \<open>Es\<close> are what the buyer's and the seller's daemon talk to.
\<close>

locale wallets =
  fixes Eb Es :: "'w env" and sp :: "'w AssetSpec" and F :: flags and d :: deal
    and ready locked good sent :: "'w \<Rightarrow> bool"
  assumes terms: "0 < sint (tc_units (d_tc d))" "0 \<le> sint (tc_price (d_tc d))" "fits_int64 (d_due d)"
    and move: "GetTransferMove sp (tc_seller (d_tc d)) (tc_buyer (d_tc d)) (tc_asset (d_tc d)) (tc_units (d_tc d)) = Ret (d_move d)"
      "writeString Eb = writeString Es"
    and addresses: "d_nameAddr d \<noteq> d_chiAddr d"
    and seller_name: "leads ready (name_show Es (GetXayaName (tc_seller (d_tc d)))) (is_name_json (d_nameOut d)) ready"
    and seller_lock: "leads ready (lockunspent Es False (JArr [outpoint_json (d_nameOut d)])) (\<lambda>b. b) locked"
    and seller_addresses: "leads locked (bnd (getnewaddress Es) (\<lambda>a. bnd (getnewaddress Es) (\<lambda>b. ret (a, b))))
      (\<lambda>x. x = (d_nameAddr d, d_chiAddr d)) good"
    and asset: "leads good (IsAsset sp (tc_asset (d_tc d))) (\<lambda>b. b) good"
    and can_buy: "leads good (CanBuy sp (tc_buyer (d_tc d)) (tc_asset (d_tc d)) (tc_units (d_tc d))) (\<lambda>b. b) good"
    and can_sell: "leads good (CanSell sp (tc_seller (d_tc d)) (tc_asset (d_tc d)) (tc_units (d_tc d)))
      (\<lambda>x. x = Some (d_block d)) good"
    and buyer_name: "leads good (name_show Eb (GetXayaName (tc_seller (d_tc d)))) (is_name_json (d_nameOut d)) good"
    and unspent: "leads good (gettxout Eb (JArr [JStr (dflt [] (op_hash (d_nameOut d))), JUInt (uint (dflt 0 (op_n (d_nameOut d))))]))
      (\<lambda>j. isObject j \<and> isString (jget j ''bestblock'') \<and> uint256_FromHex Eb (jtext (jget j ''bestblock'')) = Some (d_block d)) good"
    and funded: "leads good (walletcreatefundedpsbt Eb (JArr []) (JArr [jset (d_chiAddr d) (ChiAmountToJson Eb (d_total d)) jempty]) 0
        (jset ''lockUnspents'' (JBool True) (jset ''fee_rate'' (JInt (sint (democrit_feerate_wo_names F))) jempty)))
      (psbt_reply (d_chiPart d)) good"
    and created: "leads good (createpsbt Eb (JArr [outpoint_json (d_nameOut d)])
        (JArr [jset (d_nameAddr d) (ChiAmountToJson Eb NAME_VALUE) jempty])) (\<lambda>p. p = d_rawName d) good"
    and named: "GetNameUpdateValue Eb sp (d_tc d) = Ret val \<Longrightarrow>
      leads good (namepsbt Eb (d_rawName d) 0 (jset ''value'' (JStr val) (jset ''name'' (JStr (''p/'' @ tc_seller (d_tc d)))
        (jset ''op'' (JStr ''name_update'') jempty)))) (psbt_reply (d_namePart d)) good"
    and joined: "leads good (joinpsbts Eb (JArr [JStr (d_chiPart d), JStr (d_namePart d)])) (\<lambda>p. p = d_psbt d {}) good"
    and decode: "E \<in> {Eb, Es} \<Longrightarrow> S \<in> {{}, buyer_inputs d, {d_nameInput d}, all_inputs d} \<Longrightarrow>
      leads good (decodepsbt E (d_psbt d S)) (\<lambda>j. j = d_decoded d S) good"
    and decoded: "S \<subseteq> all_inputs d \<Longrightarrow> isObject (d_decoded d S) \<and> jget (d_decoded d S) ''tx'' = d_tx d \<and>
      jget (d_decoded d S) ''inputs'' = JArr (map (\<lambda>i. if i \<in> S then d_signed d i else d_unsigned d i) [0..<d_inputs d])"
    and signing: "d_signed d i \<noteq> d_unsigned d i"
    and tx_inputs: "tx_inputs_ok d"
    and tx_outputs: "GetNameUpdateValue Es sp (d_tc d) = Ret val \<Longrightarrow> tx_outputs_ok Es val d"
    and buyer_signs: "leads good (walletprocesspsbt Eb (d_psbt d {})) (sign_reply (d_psbt d (buyer_inputs d)) False) good"
    and seller_completes: "leads good (walletprocesspsbt Es (d_psbt d (buyer_inputs d))) (sign_reply (d_psbt d (all_inputs d)) True) good"
    and seller_signs: "leads good (walletprocesspsbt Es (d_psbt d {})) (sign_reply (d_psbt d {d_nameInput d}) False) good"
    and combined: "leads good (combinepsbt Eb (JArr [JStr (d_psbt d {d_nameInput d}), JStr (d_psbt d (buyer_inputs d))]))
      (\<lambda>p. p = d_psbt d (all_inputs d)) good"
    and finalised: "E \<in> {Eb, Es} \<Longrightarrow> leads good (finalizepsbt E (d_psbt d (all_inputs d)))
      (\<lambda>j. isObject j \<and> jget j ''complete'' = JBool True \<and> jget j ''hex'' = JStr (d_hex d)) good"
    and broadcast: "E \<in> {Eb, Es} \<Longrightarrow> leads good (sendrawtransaction E (d_hex d)) (\<lambda>_. True) sent"
    and clock: "E \<in> {Eb, Es} \<Longrightarrow> leads ready (clock_now E) (\<lambda>_. True) ready" "E \<in> {Eb, Es} \<Longrightarrow> leads good (clock_now E) (\<lambda>_. True) good"
begin

lemma update_value: obtains val where "GetNameUpdateValue Eb sp (d_tc d) = Ret val" "GetNameUpdateValue Es sp (d_tc d) = Ret val"
  using move by (simp add: GetNameUpdateValue_def Let_def)

lemma total_ok: "leads I (GetTotalSat (d_tc d)) (\<lambda>x. x = (True, d_total d)) I"
  using terms by (simp add: leads_def GetTotalSat_spec d_total_def d_due_def)

lemma name_out:
  assumes "leads I (name_show E (GetXayaName (tc_seller (d_tc d)))) (is_name_json (d_nameOut d)) I"
  shows "leads I (GetNameOutPoint E (tc_seller (d_tc d))) (\<lambda>out. out = d_nameOut d) I"
  unfolding GetNameOutPoint_def
  by (rule leads_bnd [OF assms]) (simp add: is_name_json_def OutPointFromJson_def Let_def)

lemma buyer_check: "leads good (CheckForBuyerTrade Eb sp (d_tc d)) (\<lambda>x. x = Some (d_nameOut d)) good"
  unfolding CheckForBuyerTrade_def
  by (rule leads_bnd [OF asset], simp, rule leads_bnd [OF can_buy], simp, rule leads_bnd [OF name_out [OF buyer_name]], simp,
      rule leads_bnd [OF unspent], simp add: isNull_def isObject_iff split: json.splits)
     (auto simp: Let_def MAX_BLOCK_ANCESTORS_CHECKED_def numeral_3_eq_3 intro!: leads_bnd [OF can_sell])

lemma sides: "{} \<subseteq> all_inputs d" "buyer_inputs d \<subseteq> all_inputs d" "{d_nameInput d} \<subseteq> all_inputs d" "d_nameInput d < d_inputs d"
  using tx_inputs by (auto simp: buyer_inputs_def tx_inputs_ok_def Let_def)

lemmas decoded_parts = decoded [OF sides(1)] decoded [OF sides(2)] decoded [OF sides(3)] decoded [OF subset_refl]

lemma sign_psbt:
  assumes "leads I (walletprocesspsbt E p) (sign_reply q c) I"
  shows "leads I (SignPsbt E p) (\<lambda>x. x = (q, c)) I"
  unfolding SignPsbt_def
  by (rule leads_bnd [OF assms]) (auto simp: sign_reply_def psbt_reply_def isString_def isBool_def asBool_def Let_def)

text \<open>The signatures of one side change its inputs and leave the others.\<close>

lemma same_inputs:
  assumes "i < d_inputs d" "S \<subseteq> all_inputs d" "T \<subseteq> all_inputs d"
  shows "jelems (jget (d_decoded d S) ''inputs'') ! i = jelems (jget (d_decoded d T) ''inputs'') ! i \<longleftrightarrow> (i \<in> S \<longleftrightarrow> i \<in> T)"
  using assms decoded [of S] decoded [of T] signing [of i] signing [of i, symmetric] by simp

lemma buyer_signature: "leads good (CheckForBuyerSignature Eb (d_psbt d {}) (d_psbt d (buyer_inputs d))) (\<lambda>b. b) good"
proof -
  let ?in = "\<lambda>S. jelems (jget (d_decoded d S) ''inputs'')"
  have len: "length (?in {}) = d_inputs d" "length (?in (buyer_inputs d)) = d_inputs d" using decoded_parts(1,2) by simp_all
  have "\<exists>!i. i < length (?in {}) \<and> ?in {} ! i = ?in (buyer_inputs d) ! i"
    using len sides(4) same_inputs [OF _ sides(1,2)] by (auto simp: buyer_inputs_def)
  then have "count_changed (?in {}) (?in (buyer_inputs d)) + 1 = length (?in {})"
    using count_changed_all_but_one [of "?in {}" "?in (buyer_inputs d)"] len by simp
  then show ?thesis
    unfolding CheckForBuyerSignature_def
    using decoded_parts(1,2)
    by (intro leads_bnd_eq [OF decode]) (simp_all add: isArray_def Let_def)
qed

lemma find_name:
  assumes "list_all wf_input ins" "k < length ins" "\<forall>i < length ins. spends out (ins ! i) \<longleftrightarrow> i = k"
  shows "find_name_input out ins j s = (Ret (Some (j + k)), s)"
  using assms
proof (induction ins arbitrary: j k)
  case (Cons inp ins)
  show ?case
  proof (cases k)
    case 0
    with Cons.prems have "spends out inp" by force
    with 0 Cons.prems show ?thesis by (simp add: wf_input_def spends_def Let_def)
  next
    case (Suc k')
    with Cons.prems have "\<not> spends out inp" by force
    moreover from Suc Cons.prems(3) have "\<forall>i < length ins. spends out (ins ! i) \<longleftrightarrow> i = k'" by (auto simp: All_less_Suc2)
    ultimately show ?thesis using Suc Cons.prems Cons.IH [of k' "Suc j"] by (simp add: wf_input_def spends_def Let_def)
  qed
qed simp

lemma seller_signature:
  assumes "S \<in> {{}, buyer_inputs d}"
  shows "leads good (CheckForSellerSignature Es (d_psbt d S) (d_psbt d (insert (d_nameInput d) S)) (seller_sd d)) (\<lambda>b. b) good"
proof -
  let ?T = "insert (d_nameInput d) S" and ?vin = "jelems (jget (d_tx d) ''vin'')"
  have T: "?T \<in> {{}, buyer_inputs d, {d_nameInput d}, all_inputs d}" using assms sides(4) by (auto simp: buyer_inputs_def)
  have sub: "S \<subseteq> all_inputs d" "?T \<subseteq> all_inputs d" using assms sides by (auto simp: buyer_inputs_def)
  note dec = decoded [OF sub(1)] decoded [OF sub(2)]
  have find: "leads good (find_name_input (d_nameOut d) ?vin 0) (\<lambda>x. x = Some (d_nameInput d)) good"
    using tx_inputs by (simp add: tx_inputs_ok_def Let_def leads_def find_name [where k = "d_nameInput d"])
  have same: "others_unchanged (d_nameInput d) 0 (jelems (jget (d_decoded d S) ''inputs'')) (jelems (jget (d_decoded d ?T) ''inputs''))"
    using dec same_inputs [OF _ sub] by (subst others_unchanged_spec) auto
  have S: "S \<in> {{}, buyer_inputs d, {d_nameInput d}, all_inputs d}" using assms by blast
  from dec tx_inputs show ?thesis
    by (simp only: CheckForSellerSignature_def seller_sd_def tx_inputs_ok_def Let_def SellerData.simps option.simps checked_True simp_thms)
       (rule leads_bnd_eq [OF decode [OF _ S]], simp, rule leads_bnd_eq [OF decode [OF _ T]], simp,
        insert same, simp add: isArray_def, rule leads_bnd_eq [OF find], simp)
qed

lemma seller_outputs:
  assumes "S \<in> {{}, buyer_inputs d}"
  shows "leads good (CheckForSellerOutputs Es sp (d_tc d) (d_psbt d S) (seller_sd d)) (\<lambda>b. b) good"
  unfolding leads_def
proof (intro allI impI)
  fix w assume "good w"
  with leads_run [OF decode, of Es S w] assms obtain w1 where dec: "decodepsbt Es (d_psbt d S) w = (Ret (d_decoded d S), w1)" and good: "good w1"
    by auto
  from assms sides have "S \<subseteq> all_inputs d" by auto
  note parts = decoded [OF this]
  obtain val where val: "GetNameUpdateValue Es sp (d_tc d) = Ret val" by (rule update_value)
  note outs = tx_outputs [OF val, unfolded tx_outputs_ok_def Let_def list_ex_iff]
  have "wf_outputs Es (d_decoded d S)" using parts outs tx_inputs by (simp add: wf_outputs_def tx_inputs_ok_def)
  from CheckForSellerOutputs_total [OF dec this val, of "seller_sd d"] terms obtain b where
      b: "CheckForSellerOutputs Es sp (d_tc d) (d_psbt d S) (seller_sd d) w = (Ret b, w1)" by (auto simp: seller_sd_def)
  from CheckForSellerOutputs_spec [OF b] dec parts outs terms(3) val have b by (auto simp: Let_def seller_sd_def d_due_def)
  with b good show "\<exists>b t. CheckForSellerOutputs Es sp (d_tc d) (d_psbt d S) (seller_sd d) w = (Ret b, t) \<and> b \<and> good t" by blast
qed

lemma constructs:
  assumes "tm_env TM = Eb" "tm_spec TM = sp" "tm_flags TM = F" "GetOrderType account pb = BID"
    "ts_seller_data pb = Some sd" "sd_chi_address sd = Some (d_chiAddr d)" "sd_name_address sd = Some (d_nameAddr d)"
    "counterparty pb = tc_seller (d_tc d)"
  shows "leads good (ConstructTransaction TM account pb (d_tc d) (d_nameOut d)) (\<lambda>p. p = d_psbt d {}) good"
proof -
  obtain val where val: "GetNameUpdateValue Eb sp (d_tc d) = Ret val" by (rule update_value)
  have fund: "leads good (FundPayment Eb F sd (d_total d)) (\<lambda>p. p = d_chiPart d) good"
    unfolding FundPayment_def Let_def assms option.simps dflt_simps
    by (rule leads_bnd [OF funded]) (simp add: psbt_of_def psbt_reply_def isString_def)
  have name: "leads good (NameOperation Eb sp (d_tc d) sd (tc_seller (d_tc d)) (d_nameOut d)) (\<lambda>p. p = d_namePart d) good"
    unfolding NameOperation_def Let_def assms option.simps dflt_simps val bnd_liftO
    by (rule leads_bnd_eq [OF created], rule leads_bnd [OF named [OF val]]) (simp add: psbt_of_def psbt_reply_def isString_def)
  show ?thesis
    unfolding ConstructTransaction_def Let_def assms
    by (simp add: assms(5-7), rule leads_bnd_eq [OF total_ok], simp, rule leads_bnd_eq [OF fund], rule leads_bnd_eq [OF name], rule joined)
qed

text \<open>The seller's first reply: its addresses.\<close>

lemma two_addresses:
  assumes "leads (beside p good) (f (d_nameAddr d) (d_chiAddr d)) R K"
  shows "leads (beside p locked) (bnd (onW (getnewaddress Es)) (\<lambda>a. bnd (onW (getnewaddress Es)) (f a))) R K"
proof -
  have "bnd (onW (getnewaddress Es)) (\<lambda>a. bnd (onW (getnewaddress Es)) (f a)) =
      bnd (onW (bnd (getnewaddress Es) (\<lambda>a. bnd (getnewaddress Es) (\<lambda>b. ret (a, b))))) (\<lambda>(a, b). f a b)"
    by (auto simp: fun_eq_iff bnd_def onW_def split: prod.splits outcome.splits)
  with assms show ?thesis
    by (simp only:) (rule leads_bnd_eq [OF leads_beside_onW [OF seller_addresses]], simp)
qed

lemma creates_data:
  assumes "tm_env TM = Es" "GetOrderType (tc_seller (d_tc d)) pb = ASK" "ts_seller_data pb = None" "status pb = INITIATED"
  shows "leads (beside pb ready) (HasReply TM (tc_seller (d_tc d)))
    (\<lambda>r. r = Some ((InitProcessingMessage pb)\<lparr>pm_seller_data := Some ((seller_sd d)\<lparr>sd_name_output := None\<rparr>)\<rparr>))
    (beside (pb\<lparr>ts_seller_data := Some (seller_sd d)\<rparr>) good)"
proof -
  have lock: "leads ready (LockUnspent Es True (d_nameOut d)) (\<lambda>b. b) locked"
    unfolding LockUnspent_def by (rule leads_catch) (simp add: seller_lock)
  have create: "leads (beside pb ready) (CreateSellerData TM (tc_seller (d_tc d))) (\<lambda>b. b)
      (beside (pb\<lparr>ts_seller_data := Some (seller_sd d)\<rparr>) good)"
    unfolding CreateSellerData_def assms(1)
    by (rule leads_beside_gets, simp add: assms, rule leads_bnd_eq [OF leads_beside_onW [OF name_out [OF seller_name]]],
        rule leads_bnd [OF leads_beside_onW [OF lock]], simp, rule two_addresses, rule leads_beside_modifies)
       (simp add: seller_sd_def)
  show ?thesis
    unfolding HasReply_def
    by (rule leads_beside_gets, simp add: assms(4), rule leads_bnd [OF create], rule leads_beside_gets)
       (simp add: seller_sd_def InitProcessingMessage_def GetIdentifier_def)
qed

text \<open>The seller's signature, after the buyer's or before it.\<close>

lemma seller_step:
  assumes "tm_env TM = Es" "tm_spec TM = sp" "GetOrderType account pb = ASK" "ts_our_psbt pb = None"
    "ts_their_psbt pb = Some (d_psbt d S)" "ts_seller_data pb = Some (seller_sd d)" "BuildTradeChecker account pb = d_tc d"
    "S = (case GetRole account pb of MAKER \<Rightarrow> buyer_inputs d | TAKER \<Rightarrow> {})"
  shows "leads (beside pb good) (SellerSigns TM account) (\<lambda>r. r = Continue)
    (beside (pb\<lparr>ts_our_psbt := Some (d_psbt d (insert (d_nameInput d) S))\<rparr>) good)"
proof -
  have S: "S \<in> {{}, buyer_inputs d}" using assms(8) by (simp split: trade_role.splits)
  have full: "insert (d_nameInput d) (buyer_inputs d) = all_inputs d" using sides(4) by (auto simp: buyer_inputs_def)
  have sign: "leads good (SignPsbt Es (d_psbt d S)) (\<lambda>x. x = (d_psbt d (insert (d_nameInput d) S), GetRole account pb = MAKER)) good"
    using sign_psbt [OF seller_completes] sign_psbt [OF seller_signs] assms(8) full by (cases "GetRole account pb") simp_all
  show ?thesis
    unfolding SellerSigns_def Let_def assms(1,2)
    using assms(3-7)
    by (cases "GetRole account pb")
       (rule leads_beside_gets, simp, rule leads_bnd [OF leads_beside_onW [OF seller_outputs [OF S]]], simp,
        rule leads_bnd_eq [OF leads_beside_onW [OF sign]], simp,
        rule leads_bnd [OF leads_beside_onW [OF seller_signature [OF S]]], simp, rule leads_beside_modifies, simp)+
qed

lemma buyer_step:
  assumes "tm_env TM = Eb" "tm_spec TM = sp" "tm_flags TM = F" "GetOrderType account pb = BID" "ts_our_psbt pb = None"
    "ts_seller_data pb = Some sd" "sd_chi_address sd = Some (d_chiAddr d)" "sd_name_address sd = Some (d_nameAddr d)"
    "BuildTradeChecker account pb = d_tc d"
  shows "leads (beside pb good) (BuyerConstructs TM account)
    (\<lambda>r. r = (if GetRole account pb = MAKER
       then Return (Some ((InitProcessingMessage pb)\<lparr>pm_psbt := Some \<lparr>tp_psbt = Some (d_psbt d {})\<rparr>\<rparr>)) else Continue))
    (beside (pb\<lparr>ts_our_psbt := Some (d_psbt d (buyer_inputs d))\<rparr>) good)"
proof -
  have "counterparty pb = tc_seller (d_tc d)" using assms(4,9) [symmetric] by (simp add: BuildTradeChecker_def)
  note build = constructs [OF assms(1-4,6-8) this]
  show ?thesis
    unfolding BuyerConstructs_def Let_def assms(1-3)
    using assms(4,5,9)
    by (cases "GetRole account pb")
       (rule leads_beside_gets, simp, rule leads_bnd_eq [OF leads_beside_onW [OF buyer_check]], simp,
        rule leads_bnd_eq [OF leads_beside_onW [OF build]],
        rule leads_bnd_eq [OF leads_beside_onW [OF sign_psbt [OF buyer_signs]]], simp,
        rule leads_bnd [OF leads_beside_onW [OF buyer_signature]], simp, rule leads_beside_modifies, simp)+
qed

lemma broadcasts:
  assumes "E \<in> {Eb, Es}"
  shows "leads (beside pb good) (BroadcastTrade E (d_psbt d (all_inputs d))) (\<lambda>_. True) (beside (pb\<lparr>ts_state := Some PENDING\<rparr>) sent)"
  unfolding BroadcastTrade_def set_state_def
  by (rule leads_bnd [OF leads_beside_onW [OF finalised [OF assms]]], simp add: isBool_def asBool_def isString_def,
      rule leads_bnd [OF leads_beside_onW [OF broadcast [OF assms]]]) (auto simp: leads_def beside_def)

text \<open>The replies that carry a PSBT, and the end of the conversation.\<close>

lemma not_creating:
  assumes "GetOrderType account pb = BID \<or> has (ts_seller_data pb)"
  shows "leads (beside pb I) (CreateSellerData TM account) (\<lambda>b. b = False) (beside pb I)"
  unfolding CreateSellerData_def by (rule leads_beside_gets) (use assms in auto)

lemma reply_blocks:
  assumes "status pb = INITIATED" "has (ts_seller_data pb)" "GetOrderType account pb = BID \<or> has (ts_their_psbt pb)"
    "leads (beside pb I) (after (SellerSigns TM account) (after (BuyerConstructs TM account) (after (TakerShares account) (MakerFinishes TM account)))) Q J"
  shows "leads (beside pb I) (HasReply TM account) Q J"
  unfolding HasReply_def
  by (rule leads_beside_gets, simp add: assms(1), rule leads_bnd_eq [OF not_creating], use assms(2) in simp,
      rule leads_beside_gets, use assms(2-4) in auto)

lemma leads_after: "leads I m (\<lambda>r. r = Continue) J \<Longrightarrow> leads J n Q K \<Longrightarrow> leads I (after m n) Q K"
  unfolding after_def by (erule leads_bnd_eq) simp

lemma leads_after_Return: "leads I m (\<lambda>r. r = Return v) J \<Longrightarrow> Q v \<Longrightarrow> leads I (after m n) Q J"
  unfolding after_def by (erule leads_bnd_eq) simp

lemma seller_skips: "GetOrderType account pb = BID \<Longrightarrow> leads (beside pb I) (SellerSigns TM account) (\<lambda>r. r = Continue) (beside pb I)"
  unfolding SellerSigns_def by (rule leads_beside_gets) simp

lemma buyer_skips:
  "GetOrderType account pb = ASK \<or> has (ts_our_psbt pb) \<Longrightarrow> leads (beside pb I) (BuyerConstructs TM account) (\<lambda>r. r = Continue) (beside pb I)"
  unfolding BuyerConstructs_def by (rule leads_beside_gets) auto

lemma taker_shares:
  assumes "ts_our_psbt pb = Some ours" "GetRole account pb = TAKER"
  shows "leads (beside pb I) (TakerShares account)
    (\<lambda>r. r = Return (Some ((InitProcessingMessage pb)\<lparr>pm_psbt := Some \<lparr>tp_psbt = Some ours\<rparr>\<rparr>))) (beside (pb\<lparr>ts_state := Some PENDING\<rparr>) I)"
  unfolding TakerShares_def set_state_def by (rule leads_beside_gets, simp add: assms, rule leads_beside_modifies) simp

lemma maker_keeps:
  assumes "has (ts_our_psbt pb)" "GetRole account pb = MAKER"
  shows "leads (beside pb I) (TakerShares account) (\<lambda>r. r = Continue) (beside pb I)"
  unfolding TakerShares_def by (rule leads_beside_gets) (use assms in \<open>auto simp: has_iff\<close>)

lemma init_msg_our [simp]: "InitProcessingMessage (pb\<lparr>ts_our_psbt := x\<rparr>) = InitProcessingMessage pb"
  by (simp add: InitProcessingMessage_def GetIdentifier_def)

lemma role_our [simp]: "GetRole account (pb\<lparr>ts_our_psbt := x\<rparr>) = GetRole account pb" "GetOrderType account (pb\<lparr>ts_our_psbt := x\<rparr>) = GetOrderType account pb"
  by (simp_all add: GetRole_def GetOrderType_def)

lemma buyer_taker_reply:
  assumes "buyer_tm Eb sp F TM" "GetOrderType account pb = BID" "GetRole account pb = TAKER" "status pb = INITIATED" "ts_our_psbt pb = None"
    "ts_seller_data pb = Some sd" "sd_chi_address sd = Some (d_chiAddr d)" "sd_name_address sd = Some (d_nameAddr d)"
    "BuildTradeChecker account pb = d_tc d"
  shows "leads (beside pb good) (HasReply TM account)
    (\<lambda>r. r = Some ((InitProcessingMessage pb)\<lparr>pm_psbt := Some \<lparr>tp_psbt = Some (d_psbt d (buyer_inputs d))\<rparr>\<rparr>))
    (beside (pb\<lparr>ts_our_psbt := Some (d_psbt d (buyer_inputs d)), ts_state := Some PENDING\<rparr>) good)"
proof -
  let ?pb = "pb\<lparr>ts_our_psbt := Some (d_psbt d (buyer_inputs d))\<rparr>"
  have "leads (beside pb good) (BuyerConstructs TM account) (\<lambda>r. r = Continue) (beside ?pb good)"
    using buyer_step [of TM account pb sd] assms by (simp add: buyer_tm_def)
  moreover have "leads (beside ?pb good) (TakerShares account)
      (\<lambda>r. r = Return (Some ((InitProcessingMessage pb)\<lparr>pm_psbt := Some \<lparr>tp_psbt = Some (d_psbt d (buyer_inputs d))\<rparr>\<rparr>)))
      (beside (?pb\<lparr>ts_state := Some PENDING\<rparr>) good)"
    using taker_shares [of ?pb "d_psbt d (buyer_inputs d)" account good] assms(3) by simp
  ultimately show ?thesis
    using assms by (intro reply_blocks leads_after [OF seller_skips] leads_after [of _ "BuyerConstructs TM account"] leads_after_Return) auto
qed

lemma buyer_maker_reply:
  assumes "buyer_tm Eb sp F TM" "GetOrderType account pb = BID" "GetRole account pb = MAKER" "status pb = INITIATED" "ts_our_psbt pb = None"
    "ts_seller_data pb = Some sd" "sd_chi_address sd = Some (d_chiAddr d)" "sd_name_address sd = Some (d_nameAddr d)"
    "BuildTradeChecker account pb = d_tc d"
  shows "leads (beside pb good) (HasReply TM account)
    (\<lambda>r. r = Some ((InitProcessingMessage pb)\<lparr>pm_psbt := Some \<lparr>tp_psbt = Some (d_psbt d {})\<rparr>\<rparr>))
    (beside (pb\<lparr>ts_our_psbt := Some (d_psbt d (buyer_inputs d))\<rparr>) good)"
  using assms buyer_step [of TM account pb sd]
  by (intro reply_blocks leads_after [OF seller_skips] leads_after_Return) (auto simp: buyer_tm_def)

lemma seller_taker_reply:
  assumes "seller_tm Es sp TM" "GetOrderType account pb = ASK" "GetRole account pb = TAKER" "status pb = INITIATED" "ts_our_psbt pb = None"
    "ts_their_psbt pb = Some (d_psbt d {})" "ts_seller_data pb = Some (seller_sd d)" "BuildTradeChecker account pb = d_tc d"
  shows "leads (beside pb good) (HasReply TM account)
    (\<lambda>r. r = Some ((InitProcessingMessage pb)\<lparr>pm_psbt := Some \<lparr>tp_psbt = Some (d_psbt d {d_nameInput d})\<rparr>\<rparr>))
    (beside (pb\<lparr>ts_our_psbt := Some (d_psbt d {d_nameInput d}), ts_state := Some PENDING\<rparr>) good)"
proof -
  let ?pb = "pb\<lparr>ts_our_psbt := Some (d_psbt d {d_nameInput d})\<rparr>"
  have "leads (beside pb good) (SellerSigns TM account) (\<lambda>r. r = Continue) (beside ?pb good)"
    using seller_step [of TM account pb "{}"] assms by (simp add: seller_tm_def)
  moreover have "leads (beside ?pb good) (BuyerConstructs TM account) (\<lambda>r. r = Continue) (beside ?pb good)"
    by (rule buyer_skips) simp
  moreover have "leads (beside ?pb good) (TakerShares account)
      (\<lambda>r. r = Return (Some ((InitProcessingMessage pb)\<lparr>pm_psbt := Some \<lparr>tp_psbt = Some (d_psbt d {d_nameInput d})\<rparr>\<rparr>)))
      (beside (?pb\<lparr>ts_state := Some PENDING\<rparr>) good)"
    using taker_shares [of ?pb "d_psbt d {d_nameInput d}" account good] assms(3) by simp
  ultimately show ?thesis
    using assms by (intro reply_blocks leads_after [of _ "SellerSigns TM account"] leads_after [of _ "BuyerConstructs TM account"]
        leads_after_Return) auto
qed

lemma seller_maker_reply:
  assumes "seller_tm Es sp TM" "GetOrderType account pb = ASK" "GetRole account pb = MAKER" "status pb = INITIATED" "ts_our_psbt pb = None"
    "ts_their_psbt pb = Some (d_psbt d (buyer_inputs d))" "ts_seller_data pb = Some (seller_sd d)" "BuildTradeChecker account pb = d_tc d"
  shows "leads (beside pb good) (HasReply TM account) (\<lambda>r. r = None)
    (beside (pb\<lparr>ts_our_psbt := Some (d_psbt d (all_inputs d)), ts_state := Some PENDING\<rparr>) sent)"
proof -
  let ?pb = "pb\<lparr>ts_our_psbt := Some (d_psbt d (all_inputs d))\<rparr>"
  have "insert (d_nameInput d) (buyer_inputs d) = all_inputs d" using sides(4) by (auto simp: buyer_inputs_def)
  then have "leads (beside pb good) (SellerSigns TM account) (\<lambda>r. r = Continue) (beside ?pb good)"
    using seller_step [of TM account pb "buyer_inputs d"] assms by (simp add: seller_tm_def)
  moreover have "leads (beside ?pb good) (BuyerConstructs TM account) (\<lambda>r. r = Continue) (beside ?pb good)"
    by (rule buyer_skips) simp
  moreover have "leads (beside ?pb good) (TakerShares account) (\<lambda>r. r = Continue) (beside ?pb good)"
    by (rule maker_keeps) (simp_all add: assms)
  moreover have "leads (beside ?pb good) (MakerFinishes TM account) (\<lambda>r. r = None) (beside (?pb\<lparr>ts_state := Some PENDING\<rparr>) sent)"
    unfolding MakerFinishes_def Let_def
    by (rule leads_beside_gets, use assms in simp, rule leads_bnd [OF broadcasts]) (use assms in \<open>simp_all add: seller_tm_def\<close>)
  ultimately show ?thesis
    using assms by (intro reply_blocks leads_after [of _ "SellerSigns TM account"] leads_after [of _ "BuyerConstructs TM account"]
        leads_after [of _ "TakerShares account"]) auto
qed

lemma buyer_maker_end:
  assumes "buyer_tm Eb sp F TM" "GetOrderType account pb = BID" "GetRole account pb = MAKER" "status pb = INITIATED"
    "ts_our_psbt pb = Some (d_psbt d (buyer_inputs d))" "ts_their_psbt pb = Some (d_psbt d {d_nameInput d})" "has (ts_seller_data pb)"
  shows "leads (beside pb good) (HasReply TM account) (\<lambda>r. r = None) (beside (pb\<lparr>ts_state := Some PENDING\<rparr>) sent)"
proof -
  have "leads (beside pb good) (MakerFinishes TM account) (\<lambda>r. r = None) (beside (pb\<lparr>ts_state := Some PENDING\<rparr>) sent)"
    unfolding MakerFinishes_def Let_def
    by (rule leads_beside_gets, use assms in simp, rule leads_bnd_eq [OF leads_beside_onW], use assms combined in \<open>simp add: buyer_tm_def\<close>,
        rule leads_bnd [OF broadcasts]) (use assms in \<open>simp_all add: buyer_tm_def\<close>)
  with assms show ?thesis
    by (intro reply_blocks leads_after [OF seller_skips] leads_after [OF buyer_skips] leads_after [OF maker_keeps]) auto
qed

end

end
