(* ===== verification/TwoNodes.thy ===== *)
theory TwoNodes
  imports Settlement Daemon
begin

text \<open>
  Two mock servers: the seller's daemon and the buyer's each run against a mock of their own,
  prepared the way the repository's tests prepare it. \<^verbatim>\<open>SampleDeal\<close> shows that they fulfil the
  contract of \<^verbatim>\<open>Settlement\<close>.
\<close>

section \<open>Two mock servers\<close>

text \<open>The world is the pair of the seller's server and the buyer's.\<close>

definition first_env :: "'w env \<Rightarrow> ('w \<times> 'c) env" where
  "first_env E = \<lparr>name_show = (\<lambda>a. onL (name_show E a)), gettxout = (\<lambda>a. onL (gettxout E a)),
     getblockheader = (\<lambda>a. onL (getblockheader E a)), decodepsbt = (\<lambda>a. onL (decodepsbt E a)),
     lockunspent = (\<lambda>a b. onL (lockunspent E a b)), getnewaddress = onL (getnewaddress E),
     walletcreatefundedpsbt = (\<lambda>a b c d. onL (walletcreatefundedpsbt E a b c d)),
     createpsbt = (\<lambda>a b. onL (createpsbt E a b)), namepsbt = (\<lambda>a b c. onL (namepsbt E a b c)),
     joinpsbts = (\<lambda>a. onL (joinpsbts E a)), walletprocesspsbt = (\<lambda>a. onL (walletprocesspsbt E a)),
     combinepsbt = (\<lambda>a. onL (combinepsbt E a)), finalizepsbt = (\<lambda>a. onL (finalizepsbt E a)),
     sendrawtransaction = (\<lambda>a. onL (sendrawtransaction E a)), checktrade = (\<lambda>a. onL (checktrade E a)),
     clock_now = onL (clock_now E), ChiAmountToJson = ChiAmountToJson E, ChiAmountFromJson = ChiAmountFromJson E,
     uint256_FromHex = uint256_FromHex E, uint256_ToHex = uint256_ToHex E, writeString = writeString E,
     realToString = realToString E\<rparr>"

definition seller_node_env :: "(mock \<times> mock) env" where
  "seller_node_env = first_env sample_env"

definition buyer_node_env :: "(mock \<times> mock) env" where
  "buyer_node_env = lift_env sample_env"

definition node_spec :: "(mock \<times> mock) AssetSpec" where
  "node_spec = lift_spec TestAssets"

definition node_flags :: flags where
  "node_flags = default_flags\<lparr>democrit_feerate_wo_names := 100\<rparr>"

section \<open>The prepared servers\<close>

text \<open>
  The transaction has two inputs of the buyer and the name input. The PSBTs are \<^verbatim>\<open>psbt\<close> without a
  signature, \<^verbatim>\<open>partial\<close> with the buyer's, \<^verbatim>\<open>named\<close> with the seller's and \<^verbatim>\<open>named + partial\<close> with both.
\<close>

definition prepared :: mock where
  "prepared = snd (PrepareConstructTransaction test_libs ''psbt'' ''seller'' 12 sample_sd 30 sample_move
     (new_mock\<lparr>mx_utxos := [(''seller txid'', 12)], mx_bestBlock := 5, ta_currentHash := 5,
       ta_balances := [(''seller'', [(''gold'', 5)]), (''buyer'', [])], ex_sendrawtransaction := [(''rawtx named + partial'', ''txid'')]\<rparr>))"

definition seller_node :: mock where
  "seller_node = snd (bnd (SetSignedPsbt ''partial'' ''psbt'' [''buyer txid'']) (\<lambda>_.
     bnd (SetSignedPsbt ''named'' ''psbt'' [''seller txid'']) (\<lambda>_.
     SetSignedPsbt ''named + partial'' ''partial'' [''seller txid''])) prepared)"

definition buyer_node :: mock where
  "buyer_node = snd (bnd (SetSignedPsbt ''named'' ''psbt'' [''seller txid'']) (\<lambda>_.
     bnd (SetSignedPsbt ''named + partial'' ''named'' [''buyer txid'']) (\<lambda>_.
     SetSignedPsbt ''partial'' ''psbt'' [''buyer txid''])) prepared)"

definition nodes :: "mock \<times> mock" where
  "nodes = (seller_node, buyer_node)"

definition nodes_locked :: "mock \<times> mock" where
  "nodes_locked = (seller_node\<lparr>mx_locked := List.insert (''seller txid'', 12) (mx_locked seller_node)\<rparr>, buyer_node)"

definition nodes_good :: "mock \<times> mock" where
  "nodes_good = ((fst nodes_locked)\<lparr>mx_addrCount := 2\<rparr>, buyer_node)"

definition sample_tx :: json where
  "sample_tx = jget (dflt JNull (map_of (mx_psbts prepared) ''psbt'')) ''tx''"

definition signed_input :: json where
  "signed_input = jset ''signed'' (JBool True) jempty"

definition sample_deal :: deal where
  "sample_deal = \<lparr>d_tc = sample_tc, d_nameOut = \<lparr>op_hash = Some ''seller txid'', op_n = Some 12\<rparr>,
     d_move = (case test_GetTransferMove ''seller'' ''buyer'' ''gold'' 3 of Ret mv \<Rightarrow> mv | _ \<Rightarrow> JNull),
     d_nameAddr = ''addr 1'', d_chiAddr = ''addr 2'', d_block = 5,
     d_chiPart = ''chi part'', d_rawName = ''raw name part'', d_namePart = ''name part'', d_tx = sample_tx,
     d_inputs = 3, d_nameInput = 2, d_unsigned = (\<lambda>_. jempty), d_signed = (\<lambda>_. signed_input),
     d_psbt = (\<lambda>S. if 2 \<in> S then if 0 \<in> S then ''named + partial'' else ''named'' else if 0 \<in> S then ''partial'' else ''psbt''),
     d_decoded = (\<lambda>S. jset ''inputs'' (JArr (map (\<lambda>i. if i \<in> S then signed_input else jempty) [0..<3]))
       (dflt JNull (map_of (mx_psbts prepared) ''psbt''))),
     d_hex = ''rawtx named + partial''\<rparr>"

lemma leads_exact: "m s = (Ret a, t) \<Longrightarrow> Q a \<Longrightarrow> leads (\<lambda>x. x = s) m Q (\<lambda>x. x = t)"
  by (simp add: leads_def)

lemma sample_sides: "buyer_inputs sample_deal = {0, 1}" "all_inputs sample_deal = {0, 1, 2}" "d_nameInput sample_deal = 2"
  by (auto simp: buyer_inputs_def sample_deal_def)

text \<open>What the tables of the servers have.\<close>

lemma seller_psbts:
  "map_of (mx_psbts seller_node) ''psbt'' = Some (d_decoded sample_deal {})"
  "map_of (mx_psbts seller_node) ''partial'' = Some (d_decoded sample_deal {0, 1})"
  "map_of (mx_psbts seller_node) ''named'' = Some (d_decoded sample_deal {2})"
  "map_of (mx_psbts seller_node) ''named + partial'' = Some (d_decoded sample_deal {0, 1, 2})"
  by code_simp+

lemma buyer_psbts:
  "map_of (mx_psbts buyer_node) ''psbt'' = Some (d_decoded sample_deal {})"
  "map_of (mx_psbts buyer_node) ''partial'' = Some (d_decoded sample_deal {0, 1})"
  "map_of (mx_psbts buyer_node) ''named'' = Some (d_decoded sample_deal {2})"
  "map_of (mx_psbts buyer_node) ''named + partial'' = Some (d_decoded sample_deal {0, 1, 2})"
  by code_simp+

definition signed_json :: "string \<Rightarrow> bool \<Rightarrow> json" where
  "signed_json p full = jset ''psbt'' (JStr p) (jset ''complete'' (JBool full) jempty)"

lemma signing_tables:
  "map_of (ex_walletprocesspsbt seller_node) ''psbt'' = Some (signed_json ''named'' False)"
  "map_of (ex_walletprocesspsbt seller_node) ''partial'' = Some (signed_json ''named + partial'' True)"
  "map_of (ex_walletprocesspsbt buyer_node) ''psbt'' = Some (signed_json ''partial'' False)"
  by code_simp+

lemma node_fields:
  "mx_addrCount seller_node = 0" "(''seller txid'', 12) \<notin> set (mx_locked seller_node)"
  "ex_sendrawtransaction seller_node = [(''rawtx named + partial'', ''txid'')]"
  "ex_sendrawtransaction buyer_node = [(''rawtx named + partial'', ''txid'')]"
  "mx_utxos buyer_node = [(''seller txid'', 12)]" "mx_bestBlock buyer_node = 5" "ta_currentHash buyer_node = 5"
  "ta_balances buyer_node = [(''seller'', [(''gold'', 5)]), (''buyer'', [])]"
  by code_simp+

lemma payment_tables:
  "map_of (ex_CreateFundedPsbt buyer_node) (JArr [], JArr [jset ''addr 2'' (ChiAmountToJson sample_env 30) jempty],
     jset ''lockUnspents'' (JBool True) (jset ''fee_rate'' (JInt 100) jempty)) = Some ''chi part''"
  "map_of (ex_createpsbt buyer_node) (JArr [outpoint_json (d_nameOut sample_deal)],
     JArr [jset ''addr 1'' (ChiAmountToJson sample_env NAME_VALUE) jempty]) = Some ''raw name part''"
  "map_of (ex_NamePsbt buyer_node) (''raw name part'', 0, ''p/seller'', sample_move) = Some ''name part''"
  "map_of (ex_joinpsbts buyer_node) (JArr [JStr ''chi part'', JStr ''name part'']) = Some ''psbt''"
  by code_simp+

end
