(* ===== verification/SampleDeal.thy ===== *)
theory SampleDeal
  imports TwoNodes
begin

text \<open>The prepared mock servers of \<^verbatim>\<open>TwoNodes\<close> fulfil the contract of the locale \<open>wallets\<close>.\<close>

section \<open>The contract holds\<close>

lemma node_value:
  "GetNameUpdateValue buyer_node_env node_spec sample_tc = Ret sample_move"
  "GetNameUpdateValue seller_node_env node_spec sample_tc = Ret sample_move"
proof -
  have "GetNameUpdateValue buyer_node_env node_spec sample_tc = GetNameUpdateValue sample_env TestAssets sample_tc"
      "GetNameUpdateValue seller_node_env node_spec sample_tc = GetNameUpdateValue sample_env TestAssets sample_tc"
    by (simp_all add: GetNameUpdateValue_def buyer_node_env_def seller_node_env_def first_env_def lift_env_def node_spec_def lift_spec_def Let_def split: outcome.splits)
  moreover have "GetNameUpdateValue sample_env TestAssets sample_tc = Ret sample_move" by code_simp
  ultimately show "GetNameUpdateValue buyer_node_env node_spec sample_tc = Ret sample_move"
    "GetNameUpdateValue seller_node_env node_spec sample_tc = Ret sample_move" by simp_all
qed

lemma sample_vin: "jget sample_tx ''vin'' = JArr [input_json ''buyer txid'' 1, input_json ''buyer txid'' 2, input_json ''seller txid'' 12]"
  by code_simp

lemma sample_vout: "jget sample_tx ''vout'' = JArr [output_json (ChiAmountToJson sample_env 30) (addr_script ''addr 2''),
     output_json (JReal (3 / 2)) (addr_script ''change addr''), output_json (JReal (1 / 100)) (name_script ''seller'' sample_move ''addr 1'')]"
  by code_simp

lemma sample_outputs:
  "wf_output sample_env (output_json (ChiAmountToJson sample_env 30) (addr_script ''addr 2''))"
  "wf_output sample_env (output_json (JReal (3 / 2)) (addr_script ''change addr''))"
  "wf_output sample_env (output_json (JReal (1 / 100)) (name_script ''seller'' sample_move ''addr 1''))"
  "is_chi_payment sample_env ''addr 2'' 30 (output_json (ChiAmountToJson sample_env 30) (addr_script ''addr 2''))"
  "is_name_update sample_env (GetXayaName ''seller'') sample_move ''addr 1'' (output_json (JReal (1 / 100)) (name_script ''seller'' sample_move ''addr 1''))"
  by code_simp+

lemma base_object: "isObject (dflt JNull (map_of (mx_psbts prepared) ''psbt''))"
  by code_simp

lemma decoded_eq:
  "d_decoded sample_deal S = jset ''inputs'' (JArr (map (\<lambda>i. if i \<in> S then signed_input else jempty) [0, 1, 2]))
     (dflt JNull (map_of (mx_psbts prepared) ''psbt''))"
proof -
  have "[0..<3] = [0, 1, 2 :: nat]" by code_simp
  then show ?thesis by (simp only: sample_deal_def deal.simps)
qed

lemma decoded_get:
  "jget (d_decoded sample_deal S) ''inputs'' = JArr (map (\<lambda>i. if i \<in> S then signed_input else jempty) [0, 1, 2])"
  "k \<noteq> ''inputs'' \<Longrightarrow> jget (d_decoded sample_deal S) k = jget (dflt JNull (map_of (mx_psbts prepared) ''psbt'')) k"
  "isObject (d_decoded sample_deal S)"
  using base_object by (simp_all add: decoded_eq)

lemma kv_insert_twice: "kv_insert k v (kv_insert k u xs) = kv_insert k v xs"
  by (induction xs) auto

lemma jset_twice: "isObject j \<Longrightarrow> jset k v (jset k u j) = jset k v j"
  by (auto simp: jset_def isObject_iff kv_insert_twice)

lemma is_signed_inputs [simp]: "is_signed signed_input" "\<not> is_signed jempty"
  by (simp_all add: is_signed_def signed_input_def asBool_def)

lemma update_same: "map_of xs k = Some v \<Longrightarrow> AList.update k v xs = xs"
  by (induction xs) (auto split: if_splits)

lemma node_combine: "mock_combinepsbt (JArr [JStr ''named'', JStr ''partial'']) buyer_node = (Ret ''named + partial'', buyer_node)"
proof -
  have "jset ''inputs'' (JArr (combine_inputs (jelems (jget (d_decoded sample_deal {2}) ''inputs''))
      (jelems (jget (d_decoded sample_deal {0, 1}) ''inputs'')))) (d_decoded sample_deal {2}) = d_decoded sample_deal {0, 1, 2}"
    using base_object by (simp add: decoded_get combine_inputs_def) (simp add: decoded_eq jset_twice)
  then have "combine_one ''partial'' (''named'', d_decoded sample_deal {2}) buyer_node =
      (Ret (''named + partial'', d_decoded sample_deal {0, 1, 2}), buyer_node)"
    by (simp add: combine_one_def map_at_def buyer_psbts [simplified] decoded_get isArray_def Let_def)
  then show ?thesis
    using update_same [OF buyer_psbts(4)]
    by (simp add: mock_combinepsbt_def map_at_def buyer_psbts [simplified] isArray_def Let_def SetPsbt_def bnd_run_Ret)
qed

lemmas node_envs = seller_node_env_def buyer_node_env_def first_env_def lift_env_def sample_env_def mock_env_def nodes_def nodes_locked_def
  nodes_good_def onL_def onW_def node_fields

lemma node_name:
  "mock_name_show (GetXayaName ''seller'') w = (Ret (jset ''name'' (JStr ''seller'') (jset ''txid'' (JStr ''seller txid'') (jset ''vout'' (JInt 12) jempty))), w)"
  "is_name_json (d_nameOut sample_deal) (jset ''name'' (JStr ''seller'') (jset ''txid'' (JStr ''seller txid'') (jset ''vout'' (JInt 12) jempty)))"
  by (simp add: mock_name_show_def GetXayaName_def) code_simp

lemma deal_fields [simp]:
  "d_tc sample_deal = sample_tc" "d_nameAddr sample_deal = ''addr 1''" "d_chiAddr sample_deal = ''addr 2''" "d_block sample_deal = 5"
  "d_chiPart sample_deal = ''chi part''" "d_rawName sample_deal = ''raw name part''" "d_namePart sample_deal = ''name part''"
  "d_hex sample_deal = ''rawtx named + partial''" "d_psbt sample_deal {} = ''psbt''" "d_psbt sample_deal {0, Suc 0} = ''partial''"
  "d_psbt sample_deal {2} = ''named''" "d_psbt sample_deal {0, Suc 0, 2} = ''named + partial''" "d_total sample_deal = 30"
  "tc_seller sample_tc = ''seller''" "tc_buyer sample_tc = ''buyer''" "tc_asset sample_tc = ''gold''" "tc_units sample_tc = 3"
  by (simp_all add: sample_deal_def sample_tc_def d_total_def)

lemma node_lock: "mock_lockunspent test_libs False (JArr [outpoint_json (d_nameOut sample_deal)]) seller_node =
    (Ret True, seller_node\<lparr>mx_locked := List.insert (''seller txid'', 12) (mx_locked seller_node)\<rparr>)"
proof -
  have out: "outpoint_json (d_nameOut sample_deal) = jset ''vout'' (JInt 12) (jset ''txid'' (JStr ''seller txid'') jempty)" by code_simp
  have num: "convUInt (JInt 12) = Ret 12" by code_simp
  show ?thesis using node_fields(2) by (simp add: out num mock_lockunspent_def lock_one_def isArray_def Let_def bnd_def)
qed

lemma node_inputs: "tx_inputs_ok sample_deal"
proof -
  have obj: "isObject sample_tx" by code_simp
  have wf: "wf_input (input_json txid vout)" if "0 \<le> vout" "vout < 2 ^ 32" for txid vout
    using that by (simp add: wf_input_def input_json_def isString_def)
  let ?out = "\<lparr>op_hash = Some ''seller txid'', op_n = Some 12\<rparr>"
  have "\<not> spends ?out (input_json ''buyer txid'' 1)" "\<not> spends ?out (input_json ''buyer txid'' 2)" "spends ?out (input_json ''seller txid'' 12)"
    by (simp_all add: spends_def input_json_def asUInt_def jnum_def)
  moreover have "i < 3 \<longleftrightarrow> i = 0 \<or> i = 1 \<or> i = (2 :: nat)" for i by auto
  ultimately show ?thesis
    by (auto simp: tx_inputs_ok_def sample_deal_def sample_vin obj isArray_def wf Let_def)
qed

lemma node_outputs: "tx_outputs_ok seller_node_env sample_move sample_deal"
proof -
  have pure: "wf_output seller_node_env = wf_output sample_env" "is_chi_payment seller_node_env = is_chi_payment sample_env"
      "is_name_update seller_node_env = is_name_update sample_env"
    by (auto simp: fun_eq_iff wf_output_def is_chi_payment_def is_name_update_def seller_node_env_def first_env_def Let_def)
  have "d_due sample_deal = 30" by (simp add: d_due_def sample_tc_def)
  moreover have "d_tx sample_deal = sample_tx" by (simp add: sample_deal_def)
  ultimately show ?thesis by (simp add: tx_outputs_ok_def pure sample_vout sample_outputs isArray_def Let_def)
qed

lemma small_numbers: "show_nat (Suc 0) = ''1''" "show_nat 2 = ''2''"
  by code_simp+

lemma finalised_json:
  "mock_finalizepsbt ''named + partial'' w = (Ret (jset ''complete'' (JBool True) (jset ''hex'' (JStr ''rawtx named + partial'') jempty)), w)"
  if "map_of (mx_psbts w) ''named + partial'' = Some (d_decoded sample_deal {0, 1, 2})"
  using that by (simp add: mock_finalizepsbt_def map_at_def decoded_get isArray_def Let_def)

lemma node_psbt_sets:
  "S \<in> {{}, buyer_inputs sample_deal, {d_nameInput sample_deal}, all_inputs sample_deal} \<Longrightarrow>
     map_of (mx_psbts seller_node) (d_psbt sample_deal S) = Some (d_decoded sample_deal S) \<and>
     map_of (mx_psbts buyer_node) (d_psbt sample_deal S) = Some (d_decoded sample_deal S)"
  using seller_psbts buyer_psbts by (auto simp: sample_sides)

interpretation sample: wallets buyer_node_env seller_node_env node_spec node_flags sample_deal
  "\<lambda>x. x = nodes" "\<lambda>x. x = nodes_locked" "\<lambda>x. x = nodes_good" "\<lambda>x. x = nodes_good"
proof
  show "0 < sint (tc_units (d_tc sample_deal))" "0 \<le> sint (tc_price (d_tc sample_deal))" "fits_int64 (d_due sample_deal)"
    by (simp_all add: sample_tc_def d_due_def fits_int64_def)
  show "GetTransferMove node_spec (tc_seller (d_tc sample_deal)) (tc_buyer (d_tc sample_deal)) (tc_asset (d_tc sample_deal))
      (tc_units (d_tc sample_deal)) = Ret (d_move sample_deal)" "writeString buyer_node_env = writeString seller_node_env"
    by (simp_all add: sample_deal_def sample_tc_def node_spec_def lift_spec_def TestAssets_def test_GetTransferMove_def node_envs)
  show "d_nameAddr sample_deal \<noteq> d_chiAddr sample_deal" by simp
  show "leads (\<lambda>x. x = nodes) (name_show seller_node_env (GetXayaName (tc_seller (d_tc sample_deal)))) (is_name_json (d_nameOut sample_deal)) (\<lambda>x. x = nodes)"
    by (rule leads_exact, simp add: node_envs node_name(1), rule node_name(2))
  show "leads (\<lambda>x. x = nodes_good) (name_show buyer_node_env (GetXayaName (tc_seller (d_tc sample_deal)))) (is_name_json (d_nameOut sample_deal)) (\<lambda>x. x = nodes_good)"
    by (rule leads_exact, simp add: node_envs node_name(1), rule node_name(2))
  show "leads (\<lambda>x. x = nodes) (lockunspent seller_node_env False (JArr [outpoint_json (d_nameOut sample_deal)])) (\<lambda>b. b) (\<lambda>x. x = nodes_locked)"
    by (rule leads_exact, simp add: node_envs node_lock, simp)
  show "leads (\<lambda>x. x = nodes_locked) (bnd (getnewaddress seller_node_env) (\<lambda>a. bnd (getnewaddress seller_node_env) (\<lambda>b. ret (a, b))))
      (\<lambda>x. x = (d_nameAddr sample_deal, d_chiAddr sample_deal)) (\<lambda>x. x = nodes_good)"
    by (rule leads_exact, simp add: node_envs mock_getnewaddress_def bnd_def, simp add: small_numbers)
  show "leads (\<lambda>x. x = nodes_good) (IsAsset node_spec (tc_asset (d_tc sample_deal))) (\<lambda>b. b) (\<lambda>x. x = nodes_good)"
    by (rule leads_exact, simp add: node_spec_def lift_spec_def TestAssets_def onW_def nodes_good_def, simp add: test_IsAsset_def)
  show "leads (\<lambda>x. x = nodes_good) (CanBuy node_spec (tc_buyer (d_tc sample_deal)) (tc_asset (d_tc sample_deal)) (tc_units (d_tc sample_deal))) (\<lambda>b. b) (\<lambda>x. x = nodes_good)"
    by (rule leads_exact, simp add: node_spec_def lift_spec_def TestAssets_def onW_def nodes_good_def test_CanBuy_def, simp add: node_fields)
  show "leads (\<lambda>x. x = nodes_good) (CanSell node_spec (tc_seller (d_tc sample_deal)) (tc_asset (d_tc sample_deal)) (tc_units (d_tc sample_deal)))
      (\<lambda>x. x = Some (d_block sample_deal)) (\<lambda>x. x = nodes_good)"
    by (rule leads_exact, simp add: node_spec_def lift_spec_def TestAssets_def onW_def nodes_good_def test_CanSell_def node_fields, simp)
  show "leads (\<lambda>x. x = nodes_good) (gettxout buyer_node_env (JArr [JStr (dflt [] (op_hash (d_nameOut sample_deal))), JUInt (uint (dflt 0 (op_n (d_nameOut sample_deal))))]))
      (\<lambda>j. isObject j \<and> isString (jget j ''bestblock'') \<and> uint256_FromHex buyer_node_env (jtext (jget j ''bestblock'')) = Some (d_block sample_deal)) (\<lambda>x. x = nodes_good)"
    by (rule leads_exact, simp add: node_envs mock_gettxout_def sample_deal_def jnum_def,
        simp add: node_envs test_libs_def read_show_nat isString_def)
  show "leads (\<lambda>x. x = nodes_good) (walletcreatefundedpsbt buyer_node_env (JArr []) (JArr [jset (d_chiAddr sample_deal) (ChiAmountToJson buyer_node_env (d_total sample_deal)) jempty]) 0
        (jset ''lockUnspents'' (JBool True) (jset ''fee_rate'' (JInt (sint (democrit_feerate_wo_names node_flags))) jempty)))
      (psbt_reply (d_chiPart sample_deal)) (\<lambda>x. x = nodes_good)"
    by (rule leads_exact, simp add: node_envs mock_walletcreatefundedpsbt_def map_at_def node_flags_def payment_tables(1) [unfolded node_envs, simplified],
        simp add: psbt_reply_def)
  show "leads (\<lambda>x. x = nodes_good) (createpsbt buyer_node_env (JArr [outpoint_json (d_nameOut sample_deal)])
      (JArr [jset (d_nameAddr sample_deal) (ChiAmountToJson buyer_node_env NAME_VALUE) jempty])) (\<lambda>p. p = d_rawName sample_deal) (\<lambda>x. x = nodes_good)"
    by (rule leads_exact, simp add: node_envs mock_createpsbt_def map_at_def payment_tables(2) [unfolded node_envs, simplified], simp)
  show "leads (\<lambda>x. x = nodes_good) (namepsbt buyer_node_env (d_rawName sample_deal) 0 (jset ''value'' (JStr val)
      (jset ''name'' (JStr (''p/'' @ tc_seller (d_tc sample_deal))) (jset ''op'' (JStr ''name_update'') jempty))))
      (psbt_reply (d_namePart sample_deal)) (\<lambda>x. x = nodes_good)"
    if "GetNameUpdateValue buyer_node_env node_spec (d_tc sample_deal) = Ret val" for val
  proof -
    have val: "val = sample_move" using that node_value(1) by simp
    have size: "jsize (jset ''value'' (JStr v) (jset ''name'' (JStr n) (jset ''op'' (JStr o') jempty))) = 3" for v n o'
      by (simp add: jsize_def jset_def jempty_def)
    show ?thesis
      by (rule leads_exact, simp add: val size node_envs mock_namepsbt_def map_at_def isString_def Let_def payment_tables(3), simp add: psbt_reply_def)
  qed
  show "leads (\<lambda>x. x = nodes_good) (joinpsbts buyer_node_env (JArr [JStr (d_chiPart sample_deal), JStr (d_namePart sample_deal)]))
      (\<lambda>p. p = d_psbt sample_deal {}) (\<lambda>x. x = nodes_good)"
    by (rule leads_exact, simp add: node_envs map_at_def payment_tables(4), simp)
  show "leads (\<lambda>x. x = nodes_good) (decodepsbt E (d_psbt sample_deal S)) (\<lambda>j. j = d_decoded sample_deal S) (\<lambda>x. x = nodes_good)"
    if "E \<in> {buyer_node_env, seller_node_env}" "S \<in> {{}, buyer_inputs sample_deal, {d_nameInput sample_deal}, all_inputs sample_deal}" for E S
    by (rule leads_exact [where a = "d_decoded sample_deal S"])
       (use that(1) node_psbt_sets [OF that(2)] in \<open>auto simp: node_envs mock_decodepsbt_def\<close>)
  show "isObject (d_decoded sample_deal S) \<and> jget (d_decoded sample_deal S) ''tx'' = d_tx sample_deal \<and>
      jget (d_decoded sample_deal S) ''inputs'' =
        JArr (map (\<lambda>i. if i \<in> S then d_signed sample_deal i else d_unsigned sample_deal i) [0..<d_inputs sample_deal])" for S
    by (simp add: decoded_get) (simp add: sample_deal_def sample_tx_def upt_rec numeral_3_eq_3 numeral_2_eq_2)
  show "d_signed sample_deal i \<noteq> d_unsigned sample_deal i" for i
    by (simp add: sample_deal_def signed_input_def jset_def jempty_def)
  show "tx_inputs_ok sample_deal" by (rule node_inputs)
  show "tx_outputs_ok seller_node_env val sample_deal" if "GetNameUpdateValue seller_node_env node_spec (d_tc sample_deal) = Ret val" for val
    using that node_value(2) node_outputs by simp
  show "leads (\<lambda>x. x = nodes_good) (walletprocesspsbt buyer_node_env (d_psbt sample_deal {}))
      (sign_reply (d_psbt sample_deal (buyer_inputs sample_deal)) False) (\<lambda>x. x = nodes_good)"
    by (rule leads_exact, simp add: node_envs map_at_def signing_tables, simp add: sign_reply_def psbt_reply_def signed_json_def sample_sides)
  show "leads (\<lambda>x. x = nodes_good) (walletprocesspsbt seller_node_env (d_psbt sample_deal (buyer_inputs sample_deal)))
      (sign_reply (d_psbt sample_deal (all_inputs sample_deal)) True) (\<lambda>x. x = nodes_good)"
    by (rule leads_exact, simp add: node_envs map_at_def signing_tables sample_sides, simp add: sign_reply_def psbt_reply_def signed_json_def sample_sides)
  show "leads (\<lambda>x. x = nodes_good) (walletprocesspsbt seller_node_env (d_psbt sample_deal {}))
      (sign_reply (d_psbt sample_deal {d_nameInput sample_deal}) False) (\<lambda>x. x = nodes_good)"
    by (rule leads_exact, simp add: node_envs map_at_def signing_tables, simp add: sign_reply_def psbt_reply_def signed_json_def sample_sides)
  show "leads (\<lambda>x. x = nodes_good) (combinepsbt buyer_node_env (JArr [JStr (d_psbt sample_deal {d_nameInput sample_deal}),
      JStr (d_psbt sample_deal (buyer_inputs sample_deal))])) (\<lambda>p. p = d_psbt sample_deal (all_inputs sample_deal)) (\<lambda>x. x = nodes_good)"
    by (rule leads_exact, simp add: node_envs node_combine sample_sides, simp add: sample_sides)
  show "leads (\<lambda>x. x = nodes_good) (finalizepsbt E (d_psbt sample_deal (all_inputs sample_deal)))
      (\<lambda>j. isObject j \<and> jget j ''complete'' = JBool True \<and> jget j ''hex'' = JStr (d_hex sample_deal)) (\<lambda>x. x = nodes_good)"
    if "E \<in> {buyer_node_env, seller_node_env}" for E
    by (rule leads_exact [where a = "jset ''complete'' (JBool True) (jset ''hex'' (JStr ''rawtx named + partial'') jempty)"])
       (use that in \<open>auto simp: node_envs sample_sides finalised_json seller_psbts [simplified] buyer_psbts [simplified]\<close>)
  show "leads (\<lambda>x. x = nodes_good) (sendrawtransaction E (d_hex sample_deal)) (\<lambda>_. True) (\<lambda>x. x = nodes_good)"
    if "E \<in> {buyer_node_env, seller_node_env}" for E
    by (rule leads_exact [where a = "''txid''"]) (use that in \<open>auto simp: node_envs map_at_def\<close>)
  show "leads (\<lambda>x. x = nodes) (clock_now E) (\<lambda>_. True) (\<lambda>x. x = nodes)" "leads (\<lambda>x. x = nodes_good) (clock_now E) (\<lambda>_. True) (\<lambda>x. x = nodes_good)"
    if "E \<in> {buyer_node_env, seller_node_env}" for E
    using that by (auto simp: leads_def node_envs)
qed

end
