(* ===== verification/Conversation.thy ===== *)
theory Conversation
  imports SampleDeal
begin

text \<open>
  The conversation of two trade managers: \<^verbatim>\<open>TradeManager::TakeOrder\<close> on the one side, then
  \<^verbatim>\<open>ProcessMessage\<close> on both sides in turn, as the daemons call it for the messages that XMPP
  delivers. With the wallets of \<^verbatim>\<open>Settlement\<close> it ends after three messages with both trades pending.
\<close>

section \<open>Two daemons\<close>

text \<open>The taker's state, the maker's state and the world that both share.\<close>

definition on_taker :: "(State \<times> 'w, 'a) prog \<Rightarrow> (State \<times> State \<times> 'w, 'a) prog" where
  "on_taker m = (\<lambda>(sT, sM, w). case m (sT, w) of (r, (sT', w')) \<Rightarrow> (r, (sT', sM, w')))"

definition on_maker :: "(State \<times> 'w, 'a) prog \<Rightarrow> (State \<times> State \<times> 'w, 'a) prog" where
  "on_maker m = (\<lambda>(sT, sM, w). case m (sM, w) of (r, (sM', w')) \<Rightarrow> (r, (sT, sM', w')))"

text \<open>
  At most \<open>n\<close> messages are delivered in turn, each with the authenticated account of the
  sender as its counterparty; the result says whether the conversation came to its end.
\<close>

fun converse ::
    "'w TradeManager \<Rightarrow> 'w TradeManager \<Rightarrow> string \<Rightarrow> string \<Rightarrow> nat \<Rightarrow> bool \<Rightarrow> ProcessingMessage option
      \<Rightarrow> (State \<times> State \<times> 'w, bool) prog" where
  "converse TT TM taker maker n to_maker None = ret True"
| "converse TT TM taker maker 0 to_maker (Some msg) = ret False"
| "converse TT TM taker maker (Suc n) True (Some msg) =
     bnd (on_maker (ProcessMessage TM (msg\<lparr>pm_counterparty := Some taker\<rparr>))) (converse TT TM taker maker n False)"
| "converse TT TM taker maker (Suc n) False (Some msg) =
     bnd (on_taker (ProcessMessage TT (msg\<lparr>pm_counterparty := Some maker\<rparr>))) (converse TT TM taker maker n True)"

definition session ::
    "'w TradeManager \<Rightarrow> 'w TradeManager \<Rightarrow> string \<Rightarrow> string \<Rightarrow> nat \<Rightarrow> Order \<Rightarrow> Amount \<Rightarrow> (State \<times> State \<times> 'w, bool) prog" where
  "session TT TM taker maker n ord units =
     bnd (on_taker (TakeOrder TT ord units)) (converse TT TM taker maker n True)"

definition between :: "State \<Rightarrow> State \<Rightarrow> ('w \<Rightarrow> bool) \<Rightarrow> State \<times> State \<times> 'w \<Rightarrow> bool" where
  "between sT sM I = (\<lambda>(a, b, w). a = sT \<and> b = sM \<and> I w)"

lemma leads_on_taker: "leads (beside sT I) m Q (beside sT' J) \<Longrightarrow> leads (between sT sM I) (on_taker m) Q (between sT' sM J)"
  by (fastforce simp: leads_def between_def on_taker_def beside_def)

lemma leads_on_maker: "leads (beside sM I) m Q (beside sM' J) \<Longrightarrow> leads (between sT sM I) (on_maker m) Q (between sT sM' J)"
  by (fastforce simp: leads_def between_def on_maker_def beside_def)

section \<open>The steps of a trade manager\<close>

lemma leads_ex: "(\<And>x. leads (I x) m Q J) \<Longrightarrow> leads (\<lambda>s. \<exists>x. I x s) m Q J"
  by (auto simp: leads_def)

lemma time_answer: "leads I (clock_now E) (\<lambda>_. True) I \<Longrightarrow> leads I (GetCurrentTime E) (\<lambda>_. True) I"
  unfolding GetCurrentTime_def by (erule leads_bnd) simp

text \<open>A message for the last of the trades.\<close>

lemma process_last:
  assumes "st_trades s = ts @ [pb]" "\<forall>t \<in> set ts. \<not> Matches msg t" "Matches msg pb"
    "leads (beside (HandleMessage (state_account s) msg pb) I) (HasReply TM (state_account s)) Q (beside pb' J)"
  shows "leads (beside s I) (process_matching TM msg) Q (beside (s\<lparr>st_trades := ts @ [pb']\<rparr>) J)"
proof -
  have first: "first_match msg 0 (st_trades s) = Some (length ts)"
    using assms(1-3) by (subst first_match_Some) (simp add: nth_append)
  have "leads (beside s I) (onTrade (length ts) (bnd (modifies (\<lambda>(pb, w). (HandleMessage (state_account s) msg pb, w))) (\<lambda>_.
      HasReply TM (state_account s)))) Q (beside (s\<lparr>st_trades := ts @ [pb']\<rparr>) J)"
    using assms(1,4) by (fastforce simp: leads_def beside_def onTrade_def nth_append list_update_append)
  then show ?thesis
    unfolding process_matching_def by (intro leads_beside_gets) (simp add: first leads_catch)
qed

text \<open>Own orders whose validation and publication always answer.\<close>

definition calm :: "('w \<Rightarrow> bool) \<Rightarrow> 'w MyOrdersVirtual \<Rightarrow> bool" where
  "calm I V \<longleftrightarrow> (\<forall>account ord. leads I (ValidateOrder V account ord) (\<lambda>_. True) I) \<and>
     (\<forall>s oo. leads I (MyOrdersVirtual.UpdateOrders V s oo) (\<lambda>_. True) I)"

definition same_frame :: "State \<Rightarrow> ('w \<Rightarrow> bool) \<Rightarrow> State \<times> 'w \<Rightarrow> bool" where
  "same_frame s I = (\<lambda>(s', w). frame s' = frame s \<and> I w)"

lemma same_frame_onW: "leads I m Q J \<Longrightarrow> leads (same_frame s I) (onW m) Q (same_frame s J)"
  by (fastforce simp: leads_def same_frame_def onW_def)

lemma same_frame_modifies:
  assumes "\<And>s1. frame (f s1) = frame s1"
  shows "leads (same_frame s I) (modifies (\<lambda>(s, w). (f s, w))) (\<lambda>_. True) (same_frame s I)"
  using assms by (auto simp: leads_def same_frame_def)

lemma same_frame_gets: "(\<And>v. leads (same_frame s I) (f v) Q J) \<Longrightarrow> leads (same_frame s I) (bnd (gets fst) f) Q J"
  by (auto simp: leads_def)

lemma refresh_answers:
  assumes "calm I V"
  shows "leads (same_frame s I) (RunRefresh V) (\<lambda>_. True) (same_frame s I)"
proof -
  have validate: "leads (same_frame s I) (onW (ValidateOrder V account ord)) (\<lambda>_. True) (same_frame s I)" for account ord
    using assms by (intro same_frame_onW) (simp add: calm_def)
  have step: "leads (same_frame s I) (refresh_step V account e acc) (\<lambda>_. True) (same_frame s I)" for account e acc
    unfolding refresh_step_def
    by (cases e) (auto intro!: leads_bnd [OF validate] leads_bnd [OF same_frame_modifies])
  have fold: "leads (same_frame s I) (fold_prog (refresh_step V account) es acc) (\<lambda>_. True) (same_frame s I)" for account es acc
    by (induction es arbitrary: acc) (auto intro: leads_bnd [OF step])
  have "leads (same_frame s I) (onW (MyOrdersVirtual.UpdateOrders V s1 oo)) (\<lambda>_. True) (same_frame s I)" for s1 oo
    using assms by (intro same_frame_onW) (simp add: calm_def)
  then show ?thesis
    unfolding RunRefresh_def
    by (intro same_frame_gets leads_bnd [OF fold] leads_bnd [OF same_frame_modifies]) simp_all
qed

lemma lock_answers:
  assumes "calm I V" "map_of (own_orders s) oid = Some o'" "\<not> is_locked o'"
  shows "leads (beside s I) (TryLock V oid) (\<lambda>r. r = Some (o'\<lparr>order_account := Some (state_account s), order_id := Some oid\<rparr>)) (same_frame s I)"
proof -
  let ?s = "set_own (AList.update oid (o'\<lparr>order_locked := Some True\<rparr>) (own_orders s)) s"
  have "leads (beside ?s I) (RunRefresh V) (\<lambda>_. True) (same_frame s I)"
    using refresh_answers [OF assms(1), of s] by (auto simp: leads_def same_frame_def beside_def)
  then show ?thesis
    unfolding TryLock_def Let_def
    by (intro leads_beside_gets, simp add: assms(2,3)) (rule leads_beside_modifies, erule leads_bnd, simp)
qed

section \<open>Taking an order\<close>

definition order_ident :: "string \<Rightarrow> uint64 \<Rightarrow> string" where
  "order_ident maker oid = maker @ CHR 0x0A # show_nat (unat oid)"

text \<open>No trade with this counterparty about this order.\<close>

definition no_trade :: "string \<Rightarrow> string \<Rightarrow> TradeState list \<Rightarrow> bool" where
  "no_trade other ident ts \<longleftrightarrow> (\<forall>t \<in> set ts. \<not> (counterparty t = other \<and> GetIdentifier t = ident))"

text \<open>
  The maker has the order \<open>ord\<close> among its available own orders, and both sides accept to trade
  these units of it.
\<close>

definition offered :: "State \<Rightarrow> State \<Rightarrow> uint64 \<Rightarrow> Order \<Rightarrow> Amount \<Rightarrow> bool" where
  "offered sT sM oid ord units \<longleftrightarrow>
     (case map_of (own_orders sM) oid of
        None \<Rightarrow> False
      | Some o' \<Rightarrow> \<not> is_locked o' \<and> ord = o'\<lparr>order_account := Some (state_account sM), order_id := Some oid\<rparr>) \<and>
     CheckOrder ord units \<and> state_account sT \<noteq> state_account sM \<and>
     no_trade (state_account sM) (order_ident (state_account sM) oid) (st_trades sT) \<and>
     no_trade (state_account sT) (order_ident (state_account sM) oid) (st_trades sM)"

definition terms_of :: "string \<Rightarrow> string \<Rightarrow> Order \<Rightarrow> Amount \<Rightarrow> TradeChecker" where
  "terms_of buyer seller ord units = \<lparr>tc_buyer = buyer, tc_seller = seller, tc_asset = dflt [] (order_asset ord),
     tc_price = dflt 0 (order_price_sat ord), tc_units = units\<rparr>"

definition take_msg :: "string \<Rightarrow> uint64 \<Rightarrow> Amount \<Rightarrow> SellerData option \<Rightarrow> ProcessingMessage \<Rightarrow> bool" where
  "take_msg maker oid units sd m \<longleftrightarrow> pm_identifier m = Some (order_ident maker oid) \<and>
     pm_taking_order m = Some \<lparr>to_id = Some oid, to_units = Some units\<rparr> \<and> pm_seller_data m = sd \<and> pm_psbt m = None"

lemma ident_new [simp]:
  "order_account ord = Some maker \<Longrightarrow> order_id ord = Some oid \<Longrightarrow> GetIdentifier (new_trade ord now units other) = order_ident maker oid"
  by (simp add: GetIdentifier_def order_ident_def)

lemma no_trade_Matches:
  "no_trade other ident ts \<Longrightarrow> pm_counterparty m = Some other \<Longrightarrow> pm_identifier m = Some ident \<Longrightarrow> \<forall>t \<in> set ts. \<not> Matches m t"
  by (auto simp: no_trade_def Matches_def)

lemma take_run:
  assumes "offered s sM oid ord units" "I w" "leads I (clock_now (tm_env TM)) (\<lambda>_. True) I"
    and reply: "\<And>now. leads (beside (new_trade ord now units (state_account sM)) I) (HasReply TM (state_account s)) Q (beside (pb now) J)"
    and msg: "\<And>now m. Q (Some m) \<Longrightarrow> pm_identifier m = Some (order_ident (state_account sM) oid) \<and> pm_seller_data m = sd \<and> pm_psbt m = None"
      "Q None \<Longrightarrow> sd = None" "\<And>now. terms (pb now) = terms (new_trade ord now units (state_account sM))"
  shows "\<exists>now m w'. TakeOrder TM ord units (s, w) = (Ret (Some m), (s\<lparr>st_trades := st_trades s @ [pb now]\<rparr>, w')) \<and>
    take_msg (state_account sM) oid units sd m \<and> J w'"
proof -
  have ord: "CheckOrder ord units" "order_account ord = Some (state_account sM)" "order_id ord = Some oid" "state_account s \<noteq> state_account sM"
    using assms(1) by (auto simp: offered_def split: option.splits)
  from leads_run [OF time_answer [OF assms(3)] assms(2)] obtain now w1 where
      now: "GetCurrentTime (tm_env TM) w = (Ret now, w1)" "I w1" by blast
  let ?data = "new_trade ord now units (state_account sM)"
  from leads_run [OF reply [of now], of "(?data, w1)"] now(2) obtain r w2 where
      rep: "HasReply TM (state_account s) (?data, w1) = (Ret r, (pb now, w2))" "Q r" "J w2" by (auto simp: beside_def)
  have pb: "ts_order (pb now) = ord" "ts_units (pb now) = Some units" "GetIdentifier (pb now) = order_ident (state_account sM) oid"
    using msg(3) [of now] ord by (auto simp: terms_def GetIdentifier_def order_ident_def)
  let ?msg = "SetTakingOrder (pb now) (case r of Some m \<Rightarrow> m | None \<Rightarrow> InitProcessingMessage (pb now))"
  have "TakeOrder TM ord units (s, w) = (Ret (Some ?msg), (s\<lparr>st_trades := st_trades s @ [pb now]\<rparr>, w2))"
    using ord now rep(1) by (simp add: TakeOrder_def bnd_def catch_def onW_def onLocal_def Let_def gets_def)
  moreover have "take_msg (state_account sM) oid units sd ?msg"
    using rep(2) msg(1,2) ord pb
    by (cases r) (auto simp: take_msg_def SetTakingOrder_def InitProcessingMessage_def empty_pm_def)
  ultimately show ?thesis using rep(3) by blast
qed

lemma taken_run:
  assumes "offered sT s oid ord units" "take_msg (state_account s) oid units sd m" "calm I (tm_myOrders TM)" "I w"
    "leads I (clock_now (tm_env TM)) (\<lambda>_. True) I"
    and reply: "\<And>now. leads (beside (HandleMessage (state_account s) (m\<lparr>pm_counterparty := Some (state_account sT)\<rparr>)
        (new_trade ord now units (state_account sT))) I) (HasReply TM (state_account s)) Q (beside (pb now) J)"
  shows "\<exists>now r s' w'. ProcessMessage TM (m\<lparr>pm_counterparty := Some (state_account sT)\<rparr>) (s, w) = (Ret r, (s', w')) \<and>
    frame s' = (st_account s, st_trades s @ [pb now], st_trade_archive s) \<and> Q r \<and> J w'"
proof -
  let ?m = "m\<lparr>pm_counterparty := Some (state_account sT)\<rparr>"
  from assms(1) obtain o' where o': "map_of (own_orders s) oid = Some o'" "\<not> is_locked o'"
      "ord = o'\<lparr>order_account := Some (state_account s), order_id := Some oid\<rparr>"
    by (auto simp: offered_def split: option.splits)
  have ord: "CheckOrder ord units" "order_account ord = Some (state_account s)" "order_id ord = Some oid" "state_account sT \<noteq> state_account s"
    using assms(1) o'(3) by (simp_all add: offered_def)
  from leads_run [OF lock_answers [OF assms(3) o'(1,2)], of "(s, w)"] assms(4) obtain s1 w1 where
      lock: "TryLock (tm_myOrders TM) oid (s, w) = (Ret (Some ord), (s1, w1))" "frame s1 = frame s" "I w1"
    by (auto simp: same_frame_def o'(3))
  have s1: "state_account s1 = state_account s" "st_trades s1 = st_trades s" "st_trade_archive s1 = st_trade_archive s" "st_account s1 = st_account s"
    using lock(2) by (simp_all add: frame_def)
  from leads_run [OF time_answer [OF assms(5)] lock(3)] obtain now w2 where
      now: "GetCurrentTime (tm_env TM) w1 = (Ret now, w2)" "I w2" by blast
  let ?t = "new_trade ord now units (state_account sT)"
  let ?s = "s1\<lparr>st_trades := st_trades s @ [?t]\<rparr>"
  have taken: "OrderTaken TM ord units (state_account sT) (s1, w1) = (Ret True, (?s, w2))"
    using ord now s1 by (simp add: OrderTaken_def bnd_def onW_def Let_def gets_def modifies_def)
  have "leads (beside ?s I) (process_matching TM ?m) Q (beside (?s\<lparr>st_trades := st_trades s @ [pb now]\<rparr>) J)"
  proof (rule process_last [where pb = ?t])
    show "\<forall>t \<in> set (st_trades s). \<not> Matches ?m t"
      using assms(1,2) by (intro no_trade_Matches [of "state_account sT" "order_ident (state_account s) oid"]) (simp_all add: offered_def take_msg_def)
    show "Matches ?m ?t" using assms(2) ord by (simp add: Matches_def take_msg_def)
    show "leads (beside (HandleMessage (state_account ?s) ?m ?t) I) (HasReply TM (state_account ?s)) Q (beside (pb now) J)"
      using reply [of now] s1 by simp
  qed simp
  from leads_run [OF this, of "(?s, w2)"] now(2) obtain r w3 where
      "process_matching TM ?m (?s, w2) = (Ret r, (?s\<lparr>st_trades := st_trades s @ [pb now]\<rparr>, w3))" "Q r" "J w3"
    by (auto simp: beside_def)
  with lock(1) taken assms(2) s1 show ?thesis
    by (intro exI [of _ now] exI [of _ r] exI [of _ "?s\<lparr>st_trades := st_trades s @ [pb now]\<rparr>"] exI [of _ w3])
       (simp add: ProcessMessage_def bnd_run_Ret take_msg_def frame_def)
qed

text \<open>A later message about the same trade.\<close>

lemma message_run:
  assumes "st_trades s = ts @ [pb]" "no_trade other ident ts" "pm_identifier m = Some ident" "pm_taking_order m = None"
    "counterparty pb = other" "GetIdentifier pb = ident" "I w"
    "leads (beside (HandleMessage (state_account s) (m\<lparr>pm_counterparty := Some other\<rparr>) pb) I) (HasReply TM (state_account s)) Q (beside pb' J)"
  shows "\<exists>r w'. ProcessMessage TM (m\<lparr>pm_counterparty := Some other\<rparr>) (s, w) = (Ret r, (s\<lparr>st_trades := ts @ [pb']\<rparr>, w')) \<and> Q r \<and> J w'"
proof -
  have "leads (beside s I) (process_matching TM (m\<lparr>pm_counterparty := Some other\<rparr>)) Q (beside (s\<lparr>st_trades := ts @ [pb']\<rparr>) J)"
    using assms(1-6,8) by (intro process_last [where pb = pb] no_trade_Matches [of other ident]) (simp_all add: Matches_def)
  from leads_run [OF this, of "(s, w)"] assms(4,7) show ?thesis by (auto simp: ProcessMessage_def beside_def)
qed

lemma on_sides:
  "m (sT, w) = (r, (sT', w')) \<Longrightarrow> on_taker m (sT, sM, w) = (r, (sT', sM, w'))"
  "m (sM, w) = (r, (sM', w')) \<Longrightarrow> on_maker m (sT, sM, w) = (r, (sT, sM', w'))"
  by (simp_all add: on_taker_def on_maker_def)

section \<open>Three messages\<close>

text \<open>What a message brings: seller data, a PSBT.\<close>

definition absorb :: "string \<Rightarrow> SellerData option \<Rightarrow> TradePsbt option \<Rightarrow> TradeState \<Rightarrow> TradeState" where
  "absorb account sd psbt pb = HandleMessage account (empty_pm\<lparr>pm_seller_data := sd, pm_psbt := psbt\<rparr>) pb"

definition carries :: "string \<Rightarrow> SellerData option \<Rightarrow> TradePsbt option \<Rightarrow> ProcessingMessage \<Rightarrow> bool" where
  "carries ident sd psbt m \<longleftrightarrow> pm_identifier m = Some ident \<and> pm_taking_order m = None \<and> pm_seller_data m = sd \<and> pm_psbt m = psbt"

lemma HandleMessage_absorb: "HandleMessage account m pb = absorb account (pm_seller_data m) (pm_psbt m) pb"
  by (simp add: absorb_def HandleMessage_def empty_pm_def)

lemma session_steps:
  assumes "TakeOrder TT ord units (sT, w) = (Ret (Some m0), (sT1, w1))"
    "ProcessMessage TM (m0\<lparr>pm_counterparty := Some taker\<rparr>) (sM, w1) = (Ret (Some m1), (sM1, w2))"
    "ProcessMessage TT (m1\<lparr>pm_counterparty := Some maker\<rparr>) (sT1, w2) = (Ret (Some m2), (sT2, w3))"
    "ProcessMessage TM (m2\<lparr>pm_counterparty := Some taker\<rparr>) (sM1, w3) = (Ret None, (sM2, w4))"
  shows "session TT TM taker maker 3 ord units (sT, sM, w) = (Ret True, (sT2, sM2, w4))"
  using assms by (simp add: session_def numeral_3_eq_3 bnd_run_Ret on_sides)

text \<open>
  \<open>a1\<close> and \<open>a2\<close> are the taker's trade after its first and its second reply, \<open>b1\<close> and \<open>b2\<close> the
  maker's; they depend on the time at which the trade was created.
\<close>

lemma three_messages:
  fixes sT sM :: State
  defines "T \<equiv> state_account sT" and "M \<equiv> state_account sM"
  assumes off: "offered sT sM oid ord units" and clocks: "leads I0 (clock_now (tm_env TT)) (\<lambda>_. True) I0" "leads I1 (clock_now (tm_env TM)) (\<lambda>_. True) I1"
    and calm: "calm I1 (tm_myOrders TM)" and w: "I0 w"
    and r0: "\<And>n. leads (beside (new_trade ord n units M) I0) (HasReply TT T)
      (\<lambda>r. case r of None \<Rightarrow> sd0 = None | Some m \<Rightarrow> carries (order_ident M oid) sd0 None m) (beside (a1 n) I1)"
    and r1: "\<And>n. leads (beside (absorb M sd0 None (new_trade ord n units T)) I1) (HasReply TM M)
      (\<lambda>r. \<exists>m. r = Some m \<and> carries (order_ident M oid) sd1 p1 m) (beside (b1 n) I2)"
    and r2: "\<And>n. leads (beside (absorb T sd1 p1 (a1 n)) I2) (HasReply TT T)
      (\<lambda>r. \<exists>m. r = Some m \<and> carries (order_ident M oid) None p2 m) (beside (a2 n) I3)"
    and r3: "\<And>n. leads (beside (absorb M None p2 (b1 n)) I3) (HasReply TM M) (\<lambda>r. r = None) (beside (b2 n) I4)"
    and same: "\<And>n. terms (a1 n) = terms (new_trade ord n units M)" "\<And>n. terms (b1 n) = terms (new_trade ord n units T)"
  shows "\<exists>nT nM sT' sM' w'. session TT TM T M 3 ord units (sT, sM, w) = (Ret True, (sT', sM', w')) \<and> I4 w' \<and>
    st_trades sT' = st_trades sT @ [a2 nT] \<and> st_trades sM' = st_trades sM @ [b2 nM]"
proof -
  let ?id = "order_ident M oid"
  have ord: "order_account ord = Some M" "order_id ord = Some oid" "no_trade M ?id (st_trades sT)" "no_trade T ?id (st_trades sM)"
    using off by (auto simp: offered_def T_def M_def split: option.splits)
  have views: "counterparty (a1 n) = M" "GetIdentifier (a1 n) = ?id" "counterparty (b1 n) = T" "GetIdentifier (b1 n) = ?id" for n
    using same [of n] ord by (auto simp: terms_def GetIdentifier_def order_ident_def new_trade_def)
  obtain nT m0 w1 where take: "TakeOrder TT ord units (sT, w) = (Ret (Some m0), (sT\<lparr>st_trades := st_trades sT @ [a1 nT]\<rparr>, w1))"
      "take_msg M oid units sd0 m0" "I1 w1"
    using take_run [OF off w clocks(1) r0 [unfolded T_def M_def], of sd0] same(1) by (auto simp: M_def carries_def)
  obtain nM m1 sM1 w2 where taken: "ProcessMessage TM (m0\<lparr>pm_counterparty := Some T\<rparr>) (sM, w1) = (Ret (Some m1), (sM1, w2))"
      "frame sM1 = (st_account sM, st_trades sM @ [b1 nM], st_trade_archive sM)" "carries ?id sd1 p1 m1" "I2 w2"
    using taken_run [OF off take(2) [unfolded M_def] calm take(3) clocks(2), of "\<lambda>r. \<exists>m. r = Some m \<and> carries ?id sd1 p1 m" b1 I2] r1 take(2)
    by (auto simp: HandleMessage_absorb take_msg_def T_def M_def)
  let ?sT = "sT\<lparr>st_trades := st_trades sT @ [a1 nT]\<rparr>"
  obtain m2 w3 where second: "ProcessMessage TT (m1\<lparr>pm_counterparty := Some M\<rparr>) (?sT, w2) = (Ret (Some m2), (?sT\<lparr>st_trades := st_trades sT @ [a2 nT]\<rparr>, w3))"
      "carries ?id None p2 m2" "I3 w3"
    using message_run [of ?sT "st_trades sT" "a1 nT" M ?id m1 I2 w2 TT "\<lambda>r. \<exists>m. r = Some m \<and> carries ?id None p2 m" "a2 nT" I3] r2 [of nT] taken(3,4) ord views
    by (auto simp: HandleMessage_absorb carries_def T_def)
  have sM1: "st_trades sM1 = st_trades sM @ [b1 nM]" "state_account sM1 = M" using taken(2) by (simp_all add: frame_def M_def)
  obtain w4 where third: "ProcessMessage TM (m2\<lparr>pm_counterparty := Some T\<rparr>) (sM1, w3) = (Ret None, (sM1\<lparr>st_trades := st_trades sM @ [b2 nM]\<rparr>, w4))" "I4 w4"
    using message_run [of sM1 "st_trades sM" "b1 nM" T ?id m2 I3 w3 TM "\<lambda>r. r = None" "b2 nM" I4] r3 [of nM] second(2,3) ord views sM1
    by (auto simp: HandleMessage_absorb carries_def)
  from session_steps [OF take(1) taken(1) second(1) third(1)] third(2) show ?thesis
    by (intro exI [of _ nT] exI [of _ nM]) auto
qed

section \<open>The two kinds of sessions\<close>

text \<open>The fields of a trade that messages and replies do not touch decide its role and its terms.\<close>

lemma trade_views:
  assumes "order_account ord = Some maker" "ts_order pb = ord" "counterparty pb = other" "ts_units pb = Some units" "order_type ord = Some ty"
  shows "account = maker \<Longrightarrow> GetRole account pb = MAKER \<and> GetOrderType account pb = ty \<and>
      BuildTradeChecker account pb = (case ty of BID \<Rightarrow> terms_of account other ord units | ASK \<Rightarrow> terms_of other account ord units)"
    "account \<noteq> maker \<Longrightarrow> GetRole account pb = TAKER \<and> GetOrderType account pb = (case ty of BID \<Rightarrow> ASK | ASK \<Rightarrow> BID) \<and>
      BuildTradeChecker account pb = (case ty of BID \<Rightarrow> terms_of other account ord units | ASK \<Rightarrow> terms_of account other ord units)"
  using assms by (auto simp: GetRole_def GetOrderType_def BuildTradeChecker_def terms_of_def split: order_type.splits)

text \<open>What the theorems say of the end: both trades are pending, with the same terms.\<close>

definition settled :: "State \<Rightarrow> State \<Rightarrow> State \<Rightarrow> State \<Rightarrow> string \<Rightarrow> string \<Rightarrow> bool" where
  "settled sT sM sT' sM' psbtT psbtM \<longleftrightarrow> (\<exists>pbT pbM.
     st_trades sT' = st_trades sT @ [pbT] \<and> st_trades sM' = st_trades sM @ [pbM] \<and>
     ts_state pbT = Some PENDING \<and> ts_state pbM = Some PENDING \<and> mirrored (state_account sM) (state_account sT) pbM pbT \<and>
     ts_our_psbt pbT = Some psbtT \<and> ts_our_psbt pbM = Some psbtM)"

lemma settledI:
  assumes "st_trades sT' = st_trades sT @ [pbT]" "st_trades sM' = st_trades sM @ [pbM]" "ts_state pbT = Some PENDING" "ts_state pbM = Some PENDING"
    "ts_our_psbt pbT = Some psbtT" "ts_our_psbt pbM = Some psbtM" "mirrored (state_account sM) (state_account sT) pbM pbT"
  shows "settled sT sM sT' sM' psbtT psbtM"
  using assms by (auto simp: settled_def)

lemma new_fields [simp]:
  "ts_seller_data (new_trade ord n units other) = None" "ts_our_psbt (new_trade ord n units other) = None"
  "ts_their_psbt (new_trade ord n units other) = None" "ts_counterparty (new_trade ord n units other) = Some other"
  by (simp_all add: new_trade_def empty_ts_def)

lemma absorb_psbt:
  "ts_their_psbt pb = None \<Longrightarrow> status pb = INITIATED \<Longrightarrow> absorb account None (Some \<lparr>tp_psbt = Some p\<rparr>) pb = pb\<lparr>ts_their_psbt := Some p\<rparr>"
  by (simp add: absorb_def HandleMessage_def MergePsbt_def)

lemma absorb_nothing: "absorb account None None pb = pb"
  by (simp add: absorb_def HandleMessage_def)

lemma absorb_data:
  assumes "ts_seller_data pb = None" "status pb = INITIATED" "GetOrderType account pb = BID" "seller_data_ok sd"
  shows "absorb account (Some sd) None pb = pb\<lparr>ts_seller_data := Some sd\<rparr>"
  using assms by (simp add: absorb_def HandleMessage_def MergeSellerData_eq)

lemma carries_init:
  assumes "GetIdentifier pb = ident"
  shows "carries ident (Some sd) None ((InitProcessingMessage pb)\<lparr>pm_seller_data := Some sd\<rparr>)"
    "carries ident None (Some p) ((InitProcessingMessage pb)\<lparr>pm_psbt := Some p\<rparr>)"
  using assms by (simp_all add: carries_def InitProcessingMessage_def empty_pm_def)

context wallets
begin

lemma buyer_waits:
  assumes "GetOrderType account pb = BID" "ts_seller_data pb = None" "status pb = INITIATED"
  shows "leads (beside pb I) (HasReply TM account) (\<lambda>r. r = None) (beside pb I)"
  unfolding HasReply_def
  by (rule leads_beside_gets, simp add: assms(3), rule leads_bnd_eq [OF not_creating], simp add: assms(1), rule leads_beside_gets)
     (simp add: assms(2))

lemma sent_data_ok: "seller_data_ok ((seller_sd d)\<lparr>sd_name_output := None\<rparr>)"
  using addresses by (simp add: seller_data_ok_def seller_sd_def)

lemma ask_session:
  assumes tms: "buyer_tm Eb sp F TT" "seller_tm Es sp TM" and off: "offered sT sM oid ord units" "order_type ord = Some ASK"
    and tc: "d_tc d = terms_of (state_account sT) (state_account sM) ord units" and calm: "calm ready (tm_myOrders TM)" and w: "ready w"
  shows "\<exists>sT' sM' w'. session TT TM (state_account sT) (state_account sM) 3 ord units (sT, sM, w) = (Ret True, (sT', sM', w')) \<and>
    sent w' \<and> settled sT sM sT' sM' (d_psbt d (buyer_inputs d)) (d_psbt d (all_inputs d))"
proof -
  let ?T = "state_account sT" and ?M = "state_account sM" and ?sd = "(seller_sd d)\<lparr>sd_name_output := None\<rparr>"
  let ?a = "\<lambda>n. new_trade ord n units ?M" and ?b = "\<lambda>n. (new_trade ord n units ?T)\<lparr>ts_seller_data := Some (seller_sd d)\<rparr>"
  let ?psbt = "Some \<lparr>tp_psbt = Some (d_psbt d (buyer_inputs d))\<rparr>"
  have ord: "order_account ord = Some ?M" "order_id ord = Some oid" "?T \<noteq> ?M"
    using off(1) by (auto simp: offered_def split: option.splits)
  note taker = trade_views(2) [OF ord(1) _ _ _ off(2) ord(3), of _ ?M units] and maker = trade_views(1) [OF ord(1) _ _ _ off(2) refl, of _ ?T units]
  have seller: "tc_seller (d_tc d) = ?M" by (simp add: tc terms_of_def)
  have ident: "GetIdentifier pb = order_ident ?M oid" if "ts_order pb = ord" for pb
    using that ord by (simp add: GetIdentifier_def order_ident_def)
  have r0: "leads (beside (?a n) ready) (HasReply TT ?T)
      (\<lambda>r. case r of None \<Rightarrow> None = (None :: SellerData option) | Some m \<Rightarrow> carries (order_ident ?M oid) None None m) (beside (?a n) ready)" for n
    by (rule leads_weaken [OF buyer_waits]) (use taker [of "?a n"] in simp_all)
  have r1: "leads (beside (absorb ?M None None (new_trade ord n units ?T)) ready) (HasReply TM ?M)
      (\<lambda>r. \<exists>m. r = Some m \<and> carries (order_ident ?M oid) (Some ?sd) None m) (beside (?b n) good)" for n
    unfolding absorb_nothing
    by (rule leads_weaken [OF creates_data [of TM "new_trade ord n units ?T", unfolded seller]])
       (use maker [of "new_trade ord n units ?T"] tms(2) carries_init(1) ident in \<open>auto simp: seller_tm_def\<close>)
  let ?next = "\<lambda>n. (?a n)\<lparr>ts_seller_data := Some ?sd\<rparr>"
  have "absorb ?T (Some ?sd) None (?a n) = ?next n" for n
    using taker [of "?a n"] sent_data_ok by (intro absorb_data) simp_all
  then have r2: "leads (beside (absorb ?T (Some ?sd) None (?a n)) good) (HasReply TT ?T)
      (\<lambda>r. \<exists>m. r = Some m \<and> carries (order_ident ?M oid) None ?psbt m)
      (beside ((?next n)\<lparr>ts_our_psbt := Some (d_psbt d (buyer_inputs d)), ts_state := Some PENDING\<rparr>) good)" for n
    by (simp only:) (rule leads_weaken [OF buyer_taker_reply [of TT ?T "?next n" ?sd]],
       use taker [of "?next n"] tms(1) tc carries_init(2) ident in \<open>auto simp: seller_sd_def\<close>)
  let ?last = "\<lambda>n. (?b n)\<lparr>ts_their_psbt := Some (d_psbt d (buyer_inputs d))\<rparr>"
  have "absorb ?M None ?psbt (?b n) = ?last n" for n by (rule absorb_psbt) simp_all
  then have r3: "leads (beside (absorb ?M None ?psbt (?b n)) good) (HasReply TM ?M) (\<lambda>r. r = None)
      (beside ((?last n)\<lparr>ts_our_psbt := Some (d_psbt d (all_inputs d)), ts_state := Some PENDING\<rparr>) sent)" for n
    by (simp only:) (rule seller_maker_reply, use maker [of "?last n"] tms(2) tc in simp_all)
  have "tm_env TT = Eb" "tm_env TM = Es" using tms by (simp_all add: buyer_tm_def seller_tm_def)
  then have "leads ready (clock_now (tm_env TT)) (\<lambda>_. True) ready" "leads ready (clock_now (tm_env TM)) (\<lambda>_. True) ready"
    using clock(1) by simp_all
  from three_messages [OF off(1) this calm w r0 r1 r2 r3] obtain nT nM sT' sM' w' where
      "session TT TM ?T ?M 3 ord units (sT, sM, w) = (Ret True, (sT', sM', w'))" "sent w'"
      "st_trades sT' = st_trades sT @ [(?next nT)\<lparr>ts_our_psbt := Some (d_psbt d (buyer_inputs d)), ts_state := Some PENDING\<rparr>]"
      "st_trades sM' = st_trades sM @ [(?last nM)\<lparr>ts_our_psbt := Some (d_psbt d (all_inputs d)), ts_state := Some PENDING\<rparr>]"
    by (auto simp: terms_def)
  with ord show ?thesis by (intro exI conjI settledI) (assumption | simp add: mirrored_def)+
qed

lemma bid_session:
  assumes tms: "seller_tm Es sp TT" "buyer_tm Eb sp F TM" and off: "offered sT sM oid ord units" "order_type ord = Some BID"
    and tc: "d_tc d = terms_of (state_account sM) (state_account sT) ord units" and calm: "calm good (tm_myOrders TM)" and w: "ready w"
  shows "\<exists>sT' sM' w'. session TT TM (state_account sT) (state_account sM) 3 ord units (sT, sM, w) = (Ret True, (sT', sM', w')) \<and>
    sent w' \<and> settled sT sM sT' sM' (d_psbt d {d_nameInput d}) (d_psbt d (buyer_inputs d))"
proof -
  let ?T = "state_account sT" and ?M = "state_account sM" and ?sd = "(seller_sd d)\<lparr>sd_name_output := None\<rparr>"
  let ?a = "\<lambda>n. (new_trade ord n units ?M)\<lparr>ts_seller_data := Some (seller_sd d)\<rparr>"
  let ?fresh = "\<lambda>n. (new_trade ord n units ?T)\<lparr>ts_seller_data := Some ?sd\<rparr>"
  let ?b = "\<lambda>n. (?fresh n)\<lparr>ts_our_psbt := Some (d_psbt d (buyer_inputs d))\<rparr>"
  let ?unsigned = "Some \<lparr>tp_psbt = Some (d_psbt d {})\<rparr>" and ?named = "Some \<lparr>tp_psbt = Some (d_psbt d {d_nameInput d})\<rparr>"
  have ord: "order_account ord = Some ?M" "order_id ord = Some oid" "?T \<noteq> ?M"
    using off(1) by (auto simp: offered_def split: option.splits)
  note taker = trade_views(2) [OF ord(1) _ _ _ off(2) ord(3), of _ ?M units] and maker = trade_views(1) [OF ord(1) _ _ _ off(2) refl, of _ ?T units]
  have seller: "tc_seller (d_tc d) = ?T" by (simp add: tc terms_of_def)
  have ident: "GetIdentifier pb = order_ident ?M oid" if "ts_order pb = ord" for pb
    using that ord by (simp add: GetIdentifier_def order_ident_def)
  have r0: "leads (beside (new_trade ord n units ?M) ready) (HasReply TT ?T)
      (\<lambda>r. case r of None \<Rightarrow> Some ?sd = None | Some m \<Rightarrow> carries (order_ident ?M oid) (Some ?sd) None m) (beside (?a n) good)" for n
    by (rule leads_weaken [OF creates_data [of TT "new_trade ord n units ?M", unfolded seller]])
       (use taker [of "new_trade ord n units ?M"] tms(1) carries_init(1) ident in \<open>auto simp: seller_tm_def\<close>)
  have "absorb ?M (Some ?sd) None (new_trade ord n units ?T) = ?fresh n" for n
    using maker [of "new_trade ord n units ?T"] sent_data_ok by (intro absorb_data) simp_all
  then have r1: "leads (beside (absorb ?M (Some ?sd) None (new_trade ord n units ?T)) good) (HasReply TM ?M)
      (\<lambda>r. \<exists>m. r = Some m \<and> carries (order_ident ?M oid) None ?unsigned m) (beside (?b n) good)" for n
    by (simp only:) (rule leads_weaken [OF buyer_maker_reply [of TM ?M "?fresh n" ?sd]],
       use maker [of "?fresh n"] tms(2) tc carries_init(2) ident in \<open>auto simp: seller_sd_def\<close>)
  let ?next = "\<lambda>n. (?a n)\<lparr>ts_their_psbt := Some (d_psbt d {})\<rparr>"
  have "absorb ?T None ?unsigned (?a n) = ?next n" for n by (rule absorb_psbt) simp_all
  then have r2: "leads (beside (absorb ?T None ?unsigned (?a n)) good) (HasReply TT ?T)
      (\<lambda>r. \<exists>m. r = Some m \<and> carries (order_ident ?M oid) None ?named m)
      (beside ((?next n)\<lparr>ts_our_psbt := Some (d_psbt d {d_nameInput d}), ts_state := Some PENDING\<rparr>) good)" for n
    by (simp only:) (rule leads_weaken [OF seller_taker_reply [of TT ?T "?next n"]],
       use taker [of "?next n"] tms(1) tc carries_init(2) ident in auto)
  let ?last = "\<lambda>n. (?b n)\<lparr>ts_their_psbt := Some (d_psbt d {d_nameInput d})\<rparr>"
  have "absorb ?M None ?named (?b n) = ?last n" for n by (rule absorb_psbt) simp_all
  then have r3: "leads (beside (absorb ?M None ?named (?b n)) good) (HasReply TM ?M) (\<lambda>r. r = None)
      (beside ((?last n)\<lparr>ts_state := Some PENDING\<rparr>) sent)" for n
    by (simp only:) (rule buyer_maker_end, use maker [of "?last n"] tms(2) in simp_all)
  have "tm_env TT = Es" "tm_env TM = Eb" using tms by (simp_all add: buyer_tm_def seller_tm_def)
  then have "leads ready (clock_now (tm_env TT)) (\<lambda>_. True) ready" "leads good (clock_now (tm_env TM)) (\<lambda>_. True) good"
    using clock by simp_all
  from three_messages [OF off(1) this calm w r0 r1 r2 r3] obtain nT nM sT' sM' w' where
      "session TT TM ?T ?M 3 ord units (sT, sM, w) = (Ret True, (sT', sM', w'))" "sent w'"
      "st_trades sT' = st_trades sT @ [(?next nT)\<lparr>ts_our_psbt := Some (d_psbt d {d_nameInput d}), ts_state := Some PENDING\<rparr>]"
      "st_trades sM' = st_trades sM @ [(?last nM)\<lparr>ts_state := Some PENDING\<rparr>]"
    by (auto simp: terms_def)
  with ord show ?thesis by (intro exI conjI settledI) (assumption | simp add: mirrored_def)+
qed

end

section \<open>Properties\<close>

text \<open>
  C5: When a buyer takes an ask of an honest seller, the trade is settled with three messages.
  With wallets that fulfil their contract, from a state in which the order is available,
  the conversation ends, both daemons have the same trade and it is pending, and the transaction
  in which all inputs are signed has been broadcast.
\<close>

theorem ask_settles:
  assumes "wallets Eb Es sp F d ready locked good sent" "buyer_tm Eb sp F TT" "seller_tm Es sp TM"
    "offered sT sM oid ord units" "order_type ord = Some ASK" "d_tc d = terms_of (state_account sT) (state_account sM) ord units"
    "calm ready (tm_myOrders TM)" "ready w"
  shows "\<exists>sT' sM' w'. session TT TM (state_account sT) (state_account sM) 3 ord units (sT, sM, w) = (Ret True, (sT', sM', w')) \<and>
    sent w' \<and> settled sT sM sT' sM' (d_psbt d (buyer_inputs d)) (d_psbt d (all_inputs d))"
  by (rule wallets.ask_session [OF assms])

text \<open>On the two mock servers: gold for sale at 10 satoshis, and the buyer takes three units.\<close>

definition node_order :: Order where
  "node_order = empty_order\<lparr>order_asset := Some ''gold'', order_max_units := Some 5, order_type := Some ASK, order_price_sat := Some 10\<rparr>"

definition offering :: "string \<Rightarrow> Order \<Rightarrow> State" where
  "offering account ord = set_own [(0, ord)] (init_state account)"

definition node_tm :: "(mock \<times> mock) env \<Rightarrow> (mock \<times> mock) TradeManager" where
  "node_tm E = \<lparr>tm_env = E, tm_spec = node_spec, tm_flags = node_flags, tm_myOrders = base_virtual\<rparr>"

lemma offering_account [simp]: "st_account (offering account ord) = Some account" "st_account (init_state account) = Some account"
  by (simp_all add: offering_def init_state_def set_own_def)

lemma node_tms: "buyer_tm buyer_node_env node_spec node_flags (node_tm buyer_node_env)" "seller_tm seller_node_env node_spec (node_tm seller_node_env)"
    "calm I (tm_myOrders (node_tm E))"
  by (simp_all add: buyer_tm_def seller_tm_def node_tm_def calm_def base_virtual_def)

theorem ask_settles_witness:
  "\<exists>sT' sM'. session (node_tm buyer_node_env) (node_tm seller_node_env) ''buyer'' ''seller'' 3
      (node_order\<lparr>order_account := Some ''seller'', order_id := Some 0\<rparr>) 3
      (init_state ''buyer'', offering ''seller'' node_order, nodes) = (Ret True, (sT', sM', nodes_good)) \<and>
    settled (init_state ''buyer'') (offering ''seller'' node_order) sT' sM' ''partial'' ''named + partial''"
proof -
  let ?ord = "node_order\<lparr>order_account := Some ''seller'', order_id := Some 0\<rparr>"
  have "offered (init_state ''buyer'') (offering ''seller'' node_order) 0 ?ord 3" "order_type ?ord = Some ASK"
      "d_tc sample_deal = terms_of (state_account (init_state ''buyer'')) (state_account (offering ''seller'' node_order)) ?ord 3"
    by code_simp+
  from ask_settles [OF sample.wallets_axioms node_tms(1,2) this node_tms(3) refl] show ?thesis by (auto simp: sample_sides)
qed

text \<open>
  C6: When a seller takes a bid of an honest buyer, the trade is settled with three messages as
  well: the seller sends its addresses with the first one, signs what the buyer proposes,
  and the buyer combines the signatures and broadcasts.
\<close>

theorem bid_settles:
  assumes "wallets Eb Es sp F d ready locked good sent" "seller_tm Es sp TT" "buyer_tm Eb sp F TM"
    "offered sT sM oid ord units" "order_type ord = Some BID" "d_tc d = terms_of (state_account sM) (state_account sT) ord units"
    "calm good (tm_myOrders TM)" "ready w"
  shows "\<exists>sT' sM' w'. session TT TM (state_account sT) (state_account sM) 3 ord units (sT, sM, w) = (Ret True, (sT', sM', w')) \<and>
    sent w' \<and> settled sT sM sT' sM' (d_psbt d {d_nameInput d}) (d_psbt d (buyer_inputs d))"
  by (rule wallets.bid_session [OF assms])

theorem bid_settles_witness:
  "\<exists>sT' sM'. session (node_tm seller_node_env) (node_tm buyer_node_env) ''seller'' ''buyer'' 3
      (node_order\<lparr>order_type := Some BID, order_account := Some ''buyer'', order_id := Some 0\<rparr>) 3
      (init_state ''seller'', offering ''buyer'' (node_order\<lparr>order_type := Some BID\<rparr>), nodes) = (Ret True, (sT', sM', nodes_good)) \<and>
    settled (init_state ''seller'') (offering ''buyer'' (node_order\<lparr>order_type := Some BID\<rparr>)) sT' sM' ''named'' ''partial''"
proof -
  let ?own = "node_order\<lparr>order_type := Some BID\<rparr>"
  let ?ord = "?own\<lparr>order_account := Some ''buyer'', order_id := Some 0\<rparr>"
  have "offered (init_state ''seller'') (offering ''buyer'' ?own) 0 ?ord 3" "order_type ?ord = Some BID"
      "d_tc sample_deal = terms_of (state_account (offering ''buyer'' ?own)) (state_account (init_state ''seller'')) ?ord 3"
    by code_simp+
  from bid_settles [OF sample.wallets_axioms node_tms(2,1) this node_tms(3) refl] show ?thesis by (auto simp: sample_sides)
qed

end
