(* ===== verification/TradeTracker.thy ===== *)
theory TradeTracker
  imports Gsp TradeProps
begin

text \<open>
  The interface between the trades and the service that tracks their transactions. The locale
  \<open>trade_tracker\<close> is the contract of the RPC method \<^verbatim>\<open>checktrade\<close> that \<^verbatim>\<open>Trade::Update\<close> relies on.
  It is provided by the game state processor of this repository (whenever the framework
  below it answers, \<open>game_ok\<close>) and by the mock server of the tests. On top of the contract
  the locale shows that a trade reaches its final state.
\<close>

section \<open>The contract\<close>

definition tracker_data :: "nat option \<Rightarrow> bool \<Rightarrow> json" where
  "tracker_data conf pend =
     (case conf of
        Some h \<Rightarrow> jset ''height'' (JInt (int h)) (jset ''state'' (JStr ''confirmed'') jempty)
      | None \<Rightarrow> jset ''state'' (JStr (if pend then ''pending'' else ''unknown'')) jempty)"

text \<open>Block heights as 32-bit and 64-bit numbers.\<close>

lemma height_words:
  assumes "n < 2 ^ 31"
  shows "uint (word_of_nat n :: uint32) = int n" "uint (word_of_nat n :: uint64) = int n"
    "ucast (word_of_nat n :: uint32) = (word_of_nat n :: uint64)" "asUInt (JInt (int n)) = word_of_nat n"
    "sint (word_of_nat n :: uint32) = int n"
proof -
  show u: "uint (word_of_nat n :: uint32) = int n" "uint (word_of_nat n :: uint64) = int n"
    using assms by (simp_all add: unsigned_of_nat take_bit_nat_eq_self)
  show "ucast (word_of_nat n :: uint32) = (word_of_nat n :: uint64)"
  proof -
    have "take_bit 64 (int n) = int n" using assms by (intro take_bit_int_eq_self) auto
    then show ?thesis using u by (simp add: word_uint_eq_iff unsigned_ucast_eq)
  qed
  show "asUInt (JInt (int n)) = word_of_nat n" by (simp add: asUInt_def)
  have "signed_take_bit 31 (int n) = int n" using assms by (intro signed_take_bit_int_eq_self) auto
  then show "sint (word_of_nat n :: uint32) = int n" by (simp add: sint_uint u)
qed

locale trade_tracker =
  fixes E :: "'w env"
    and good :: "'w \<Rightarrow> bool"
    and height :: "'w \<Rightarrow> nat"
    and conf :: "'w \<Rightarrow> string \<Rightarrow> nat option"
    and pend :: "'w \<Rightarrow> string \<Rightarrow> bool"
  assumes height_bound: "good w \<Longrightarrow> height w < 2 ^ 31"
    and conf_bound: "good w \<Longrightarrow> conf w btxid = Some h \<Longrightarrow> h \<le> height w"
    and reply: "good w \<Longrightarrow> \<exists>check. checktrade E btxid w = (Ret check, w) \<and> isObject check \<and>
      jget check ''height'' = JInt (int (height w)) \<and> jget check ''data'' = tracker_data (conf w btxid) (pend w btxid)"
begin

text \<open>Every reply passes the checks of the query.\<close>

lemma QueryTrade_answers:
  assumes "decodepsbt E ours w = (Ret decoded, w')" "isObject decoded" "isObject (jget decoded ''tx'')"
    "jget (jget decoded ''tx'') ''btxid'' = JStr btxid" "good w'"
  shows "QueryTrade E ours w = (Ret (jget decoded ''tx'', word_of_nat (height w'), tracker_data (conf w' btxid) (pend w' btxid)), w')"
proof -
  from reply [OF assms(5), of btxid] obtain check where c: "checktrade E btxid w' = (Ret check, w')" "isObject check"
      "jget check ''height'' = JInt (int (height w'))" "jget check ''data'' = tracker_data (conf w' btxid) (pend w' btxid)"
    by blast
  have "int (height w') < 2 ^ 32" using height_bound [OF assms(5)] by simp
  then have u: "isUInt (JInt (int (height w')))" by simp
  have "ucast (asUInt (JInt (int (height w')))) = (word_of_nat (height w') :: uint64)"
    using height_bound [OF assms(5)] by (simp add: height_words)
  moreover have "isObject (tracker_data c p)" "isString (jget (tracker_data c p) ''state'')" for c p
    by (simp_all add: tracker_data_def split: option.splits)
  ultimately show ?thesis using assms c u by (simp add: QueryTrade_def bnd_run_Ret Let_def)
qed

lemma ConfirmedFinal_answers:
  assumes "good w" "0 \<le> sint (democrit_confirmations F)"
  shows "ConfirmedFinal F (word_of_nat (height w)) (tracker_data (conf w btxid) p) s =
    (Ret (case conf w btxid of Some h \<Rightarrow> int h + sint (democrit_confirmations F) \<le> int (height w) + 1 | None \<Rightarrow> False), s)"
proof (cases "conf w btxid")
  case (Some h)
  have b: "h < 2 ^ 31" "height w < 2 ^ 31" "h \<le> height w"
    using conf_bound [OF assms(1) Some] height_bound [OF assms(1)] by simp_all
  have "(word_of_nat h :: uint64) \<le> word_of_nat (height w)" using b by (simp add: word_le_def height_words)
  moreover have "is_final F (word_of_nat h) (word_of_nat (height w)) \<longleftrightarrow>
      int h + sint (democrit_confirmations F) \<le> int (height w) + 1"
    using is_final_iff [OF assms(2), of "word_of_nat h" "word_of_nat (height w)"] b
    by (simp add: height_words)
  ultimately show ?thesis
    using Some b by (simp add: ConfirmedFinal_def tracker_data_def height_words Let_def)
next
  case None
  then show ?thesis by (simp add: ConfirmedFinal_def tracker_data_def)
qed

text \<open>A transaction that is deep enough makes its trade a success, at the next update.\<close>

lemma confirmed_succeeds:
  assumes "decodepsbt E ours w = (Ret decoded, w')" "isObject decoded" "isObject (jget decoded ''tx'')"
    "jget (jget decoded ''tx'') ''btxid'' = JStr btxid" "good w'" "0 \<le> sint (democrit_confirmations F)"
    "conf w' btxid = Some h" "int h + sint (democrit_confirmations F) \<le> int (height w') + 1"
  shows "UpdatePending E F ours (pb, w) = (Ret (), (pb\<lparr>ts_state := Some SUCCESS\<rparr>, w'))"
  using ConfirmedFinal_answers [OF assms(5,6), of btxid "pend w' btxid" "(pb, w')"] assms(7,8)
  by (simp add: UpdatePending_def onW_def QueryTrade_answers [OF assms(1-5)] bnd_def set_state_def)

text \<open>A transaction that the network has seen is not conflicted.\<close>

lemma seen_waits:
  assumes "decodepsbt E ours w = (Ret decoded, w')" "isObject decoded" "isObject (jget decoded ''tx'')"
    "jget (jget decoded ''tx'') ''btxid'' = JStr btxid" "good w'" "0 \<le> sint (democrit_confirmations F)"
    "case conf w' btxid of Some h \<Rightarrow> int (height w') + 1 < int h + sint (democrit_confirmations F) | None \<Rightarrow> pend w' btxid"
  shows "UpdatePending E F ours (pb, w) = (Ret (), (pb\<lparr>ts_conflict_height := None\<rparr>, w'))"
  using ConfirmedFinal_answers [OF assms(5,6), of btxid "pend w' btxid" "(pb, w')"] assms(7)
  by (simp add: UpdatePending_def onW_def QueryTrade_answers [OF assms(1-5)] bnd_def clear_conflict_height_def
      tracker_data_def split: option.splits)

end

section \<open>The game state processor provides it\<close>

text \<open>
  What libxayagame documents for a game that is in sync: the pending state is an object with the
  JSON of the pending moves, and the custom state data are general data (with the height of the
  current block) together with the result of the callback on the current database.
\<close>

definition game_ok ::
    "'w Game \<Rightarrow> ('w \<Rightarrow> bool) \<Rightarrow> ('w \<Rightarrow> trades_table) \<Rightarrow> ('w \<Rightarrow> nat) \<Rightarrow> ('w \<Rightarrow> json) \<Rightarrow> bool" where
  "game_ok g good db height pending \<longleftrightarrow>
     (\<forall>w. good w \<longrightarrow> table_inv (db w, height w) \<and> height w < 2 ^ 31 \<and> isObject (pending w) \<and>
       (\<exists>p. GetPendingJsonState g w = (Ret p, w) \<and> isObject p \<and> jget p ''pending'' = pending w) \<and>
       (\<forall>cb d. cb (db w) = Ret d \<longrightarrow> (\<exists>res. GetCustomStateData g ''data'' cb w = (Ret res, w) \<and> isObject res \<and>
          isMember res ''data'' \<and> jget res ''data'' = d \<and> jget res ''height'' = JInt (int (height w)))))"

definition table_height :: "trades_table \<Rightarrow> string \<Rightarrow> nat option" where
  "table_height db btxid = map_option nat (map_of db btxid)"

lemma json_int_small: "0 \<le> h \<Longrightarrow> h < 2 ^ 31 \<Longrightarrow> json_int h = JInt h"
  by (simp add: json_int_def sint_uint uint_word_of_int take_bit_int_eq_self signed_take_bit_int_eq_self)

lemma table_rows:
  assumes "table_inv (db, n)" "map_of db btxid = Some h"
  shows "0 \<le> h" "h \<le> int n"
  using assms by (auto simp: table_inv_def dest!: map_of_SomeD)

lemma gsp_checktrade_answers:
  assumes ok: "game_ok g good db height pending" and w: "good w"
  shows "\<exists>check. gsp_checktrade g btxid w = (Ret check, w) \<and> isObject check \<and>
    jget check ''height'' = JInt (int (height w)) \<and>
    jget check ''data'' = tracker_data (table_height (db w) btxid) (isMember (pending w) btxid)"
proof -
  have inv: "table_inv (db w, height w)" and small: "height w < 2 ^ 31" and pobj: "isObject (pending w)"
    using ok w by (auto simp: game_ok_def)
  obtain p where p: "GetPendingJsonState g w = (Ret p, w)" "isObject p" "jget p ''pending'' = pending w"
    using ok w unfolding game_ok_def by blast
  define d where "d = (case map_of (db w) btxid of None \<Rightarrow> JNull | Some h \<Rightarrow> json_int h)"
  have "lookup_height btxid (db w) = Ret d" using inv by (simp add: lookup_height_eq table_inv_def d_def)
  then obtain res where res: "GetCustomStateData g ''data'' (lookup_height btxid) w = (Ret res, w)" "isObject res"
      "isMember res ''data''" "jget res ''data'' = d" "jget res ''height'' = JInt (int (height w))"
    using ok w unfolding game_ok_def by blast
  note run = gsp_checktrade_def CheckTrade_def bnd_run_Ret Let_def p res pobj tracker_data_def table_height_def
  show ?thesis
  proof (cases "map_of (db w) btxid")
    case None
    then show ?thesis by (simp add: run d_def)
  next
    case (Some h)
    then have h: "0 \<le> h" "h < 2 ^ 31" using table_rows [OF inv Some] small by auto
    then have d: "d = JInt h" "isUInt d" "isInt d" using Some by (simp_all add: d_def json_int_small)
    have "sint (asUInt (JInt h)) = h"
      using h by (simp add: asUInt_def sint_uint uint_word_of_int take_bit_int_eq_self signed_take_bit_int_eq_self)
    then show ?thesis using h Some d by (simp add: run)
  qed
qed

lemma gsp_tracker:
  assumes ok: "game_ok g good db height pending" and env: "checktrade E = gsp_checktrade g"
  shows "trade_tracker E good height (\<lambda>w. table_height (db w)) (\<lambda>w. isMember (pending w))"
proof
  fix w btxid h
  assume w: "good w"
  have inv: "table_inv (db w, height w)" using ok w by (auto simp: game_ok_def)
  show "height w < 2 ^ 31" using ok w by (auto simp: game_ok_def)
  show "table_height (db w) btxid = Some h \<Longrightarrow> h \<le> height w"
    using table_rows [OF inv] by (fastforce simp: table_height_def)
  show "\<exists>check. checktrade E btxid w = (Ret check, w) \<and> isObject check \<and> jget check ''height'' = JInt (int (height w)) \<and>
      jget check ''data'' = tracker_data (table_height (db w) btxid) (isMember (pending w) btxid)"
    unfolding env by (rule gsp_checktrade_answers [OF ok w])
qed

section \<open>The mock server provides it\<close>

definition mock_good :: "mock \<Rightarrow> bool" where
  "mock_good m \<longleftrightarrow> unat (mg_currentHeight m) < 2 ^ 31 \<and>
     (\<forall>(btxid, d) \<in> set (mg_btxids m). d = tracker_data None True \<or>
        (\<exists>h \<le> unat (mg_currentHeight m). d = tracker_data (Some h) False))"

definition mock_conf :: "mock \<Rightarrow> string \<Rightarrow> nat option" where
  "mock_conf m btxid =
     (case map_of (mg_btxids m) btxid of
        Some d \<Rightarrow> if jget d ''state'' = JStr ''confirmed'' then Some (nat (jnum (jget d ''height''))) else None
      | None \<Rightarrow> None)"

definition mock_pend :: "mock \<Rightarrow> string \<Rightarrow> bool" where
  "mock_pend m btxid \<longleftrightarrow> map_of (mg_btxids m) btxid = Some (tracker_data None True)"

lemma tracker_data_simps:
  "jget (tracker_data (Some h) p) ''state'' = JStr ''confirmed''" "jget (tracker_data (Some h) p) ''height'' = JInt (int h)"
  "jget (tracker_data None p) ''state'' = JStr (if p then ''pending'' else ''unknown'')"
  "tracker_data (Some h) p = tracker_data (Some h) q"
  by (simp_all add: tracker_data_def)

interpretation mock_gsp: trade_tracker "mock_env L" mock_good "\<lambda>m. unat (mg_currentHeight m)" mock_conf mock_pend
proof
  fix m btxid h
  assume good: "mock_good m"
  have entry: "d = tracker_data None True \<or> (\<exists>h \<le> unat (mg_currentHeight m). d = tracker_data (Some h) False)"
    if "map_of (mg_btxids m) btxid = Some d" for d
    using good map_of_SomeD [OF that] by (auto simp: mock_good_def)
  show small: "unat (mg_currentHeight m) < 2 ^ 31" using good by (simp add: mock_good_def)
  show "mock_conf m btxid = Some h \<Longrightarrow> h \<le> unat (mg_currentHeight m)"
    using entry by (auto simp: mock_conf_def tracker_data_simps split: option.splits if_splits)
  have "sint (mg_currentHeight m) = int (unat (mg_currentHeight m))"
    using height_words(5) [OF small] by simp
  moreover have "tracker_data (mock_conf m btxid) (mock_pend m btxid) =
      (case map_of (mg_btxids m) btxid of Some d \<Rightarrow> d | None \<Rightarrow> jset ''state'' (JStr ''unknown'') jempty)"
    using entry by (cases "map_of (mg_btxids m) btxid")
      (auto simp: mock_conf_def mock_pend_def tracker_data_simps tracker_data_simps(4) [of _ True False],
       auto simp: tracker_data_def)
  ultimately show "\<exists>check. checktrade (mock_env L) btxid m = (Ret check, m) \<and> isObject check \<and>
      jget check ''height'' = JInt (int (unat (mg_currentHeight m))) \<and>
      jget check ''data'' = tracker_data (mock_conf m btxid) (mock_pend m btxid)"
    by (simp add: mock_env_def mock_checktrade_def)
qed

section \<open>Properties\<close>


text \<open>A game in sync at height 15 with one trade confirmed in block 10, and nothing pending.\<close>

definition sample_game :: "'w Game" where
  "sample_game = \<lparr>RequestStop = ret (), GetNullJsonState = ret jempty, GetCurrentJsonState = ret jempty,
     GetPendingJsonState = ret (jset ''pending'' jempty jempty),
     GetCustomStateData = (\<lambda>field cb. bnd (liftO (cb [(''btx'', 10)])) (\<lambda>d. ret (jset field d (jset ''height'' (JInt 15) jempty))))\<rparr>"

lemma sample_game_ok: "game_ok sample_game (\<lambda>w. True) (\<lambda>w. [(''btx'', 10)]) (\<lambda>w. 15) (\<lambda>w. jempty)"
  by (auto simp: game_ok_def sample_game_def table_inv_def)


text \<open>
  A pending trade whose transaction the game state processor has recorded deep enough
  becomes a success at its next update; nothing else of the trade changes.
\<close>

theorem confirmed_trade_succeeds:
  assumes "game_ok g good db height pending" "checktrade (tm_env TM) = gsp_checktrade g"
    "status pb = PENDING" "ts_our_psbt pb = Some ours"
    "decodepsbt (tm_env TM) ours w = (Ret decoded, w')" "isObject decoded" "isObject (jget decoded ''tx'')"
    "jget (jget decoded ''tx'') ''btxid'' = JStr btxid" "good w'"
    "map_of (db w') btxid = Some h" "0 \<le> sint (democrit_confirmations (tm_flags TM))"
    "h + sint (democrit_confirmations (tm_flags TM)) \<le> int (height w') + 1"
  shows "Update TM (pb, w) = (Ret (), (pb\<lparr>ts_state := Some SUCCESS\<rparr>, w'))"
proof -
  have "table_inv (db w', height w')" using assms(1,9) by (auto simp: game_ok_def)
  then have h: "0 \<le> h" using assms(10) by (rule table_rows)
  have "UpdatePending (tm_env TM) (tm_flags TM) ours (pb, w) = (Ret (), (pb\<lparr>ts_state := Some SUCCESS\<rparr>, w'))"
    using trade_tracker.confirmed_succeeds [OF gsp_tracker [OF assms(1,2)] assms(5-9,11), of "nat h"] assms(10,12) h
    by (simp add: table_height_def)
  then show ?thesis using assms(3,4) by (simp add: Update_def)
qed

definition tracked_tm :: "mock TradeManager" where
  "tracked_tm = sample_tm\<lparr>tm_env := sample_env\<lparr>checktrade := gsp_checktrade sample_game\<rparr>\<rparr>"

theorem confirmed_trade_succeeds_witness:
  "Update tracked_tm (buyer_pending, confirmed_world)
     = (Ret (), (buyer_pending\<lparr>ts_state := Some SUCCESS\<rparr>, confirmed_world))"
proof (rule confirmed_trade_succeeds [OF sample_game_ok])
  let ?tx = "jset ''btxid'' (JStr ''btx'') (jset ''vin'' (JArr [input_json ''gone'' 1]) jempty)"
  show "checktrade (tm_env tracked_tm) = gsp_checktrade sample_game" by (simp add: tracked_tm_def)
  show "status buyer_pending = PENDING" "ts_our_psbt buyer_pending = Some ''partial''" by (simp_all add: buyer_pending_def)
  show "decodepsbt (tm_env tracked_tm) ''partial'' confirmed_world = (Ret (jset ''tx'' ?tx jempty), confirmed_world)" by code_simp
  show "isObject (jset ''tx'' ?tx jempty)" "isObject (jget (jset ''tx'' ?tx jempty) ''tx'')"
    "jget (jget (jset ''tx'' ?tx jempty) ''tx'') ''btxid'' = JStr ''btx''" by simp_all
  show "map_of [(''btx'', 10)] ''btx'' = Some 10" by simp
  show "0 \<le> sint (democrit_confirmations (tm_flags tracked_tm))"
    "10 + sint (democrit_confirmations (tm_flags tracked_tm)) \<le> int 15 + 1"
    by (simp_all add: tracked_tm_def sample_tm_def default_flags_def)
qed simp

end
