(* ===== verification/Completion.thy ===== *)
theory Completion
  imports Conversation TradeTracker
begin

text \<open>
  The end of a settled trade. \<^verbatim>\<open>Conversation\<close> leaves two daemons with a pending trade each; here the
  transaction is confirmed, the game state processors of both sides have recorded it, and the
  periodic \<^verbatim>\<open>UpdateAndArchiveTrades\<close> of both daemons archives the trade as a success.
\<close>

section \<open>A trade whose transaction is confirmed\<close>

text \<open>
  In the worlds of \<open>I\<close>, the wallet knows the PSBT as one of the transaction with this bare ID, and
  the table of the game state processor has that transaction deep enough for the flags.
\<close>

definition decodes :: "('w \<Rightarrow> bool) \<Rightarrow> 'w env \<Rightarrow> string \<Rightarrow> string \<Rightarrow> bool" where
  "decodes I E psbt btxid \<longleftrightarrow> leads I (decodepsbt E psbt)
     (\<lambda>j. isObject j \<and> isObject (jget j ''tx'') \<and> jget (jget j ''tx'') ''btxid'' = JStr btxid) I"

definition recorded :: "('w \<Rightarrow> bool) \<Rightarrow> ('w \<Rightarrow> trades_table) \<Rightarrow> ('w \<Rightarrow> nat) \<Rightarrow> flags \<Rightarrow> string \<Rightarrow> bool" where
  "recorded I db height F btxid \<longleftrightarrow> 0 \<le> sint (democrit_confirmations F) \<and>
     (\<forall>w. I w \<longrightarrow> (\<exists>h. map_of (db w) btxid = Some h \<and> h + sint (democrit_confirmations F) \<le> int (height w) + 1))"

text \<open>What one daemon needs: its processor is in sync, and knows the transaction of its trade.\<close>

definition confirms ::
    "'w TradeManager \<Rightarrow> ('w \<Rightarrow> bool) \<Rightarrow> ('w \<Rightarrow> trades_table) \<Rightarrow> ('w \<Rightarrow> nat) \<Rightarrow> string \<Rightarrow> string \<Rightarrow> bool" where
  "confirms TM I db height psbt btxid \<longleftrightarrow>
     (\<exists>g pending. game_ok g I db height pending \<and> checktrade (tm_env TM) = gsp_checktrade g) \<and>
     decodes I (tm_env TM) psbt btxid \<and> recorded I db height (tm_flags TM) btxid"

lemma game_ok_mono:
  "game_ok g good db height pending \<Longrightarrow> (\<And>w. I w \<Longrightarrow> good w) \<Longrightarrow> game_ok g I db height pending"
  unfolding game_ok_def by (rule allI, rule impI, drule spec, erule mp) blast

lemma update_succeeds:
  assumes "confirms TM I db height ours btxid" "status pb = PENDING" "ts_our_psbt pb = Some ours"
  shows "leads (beside pb I) (Update TM) (\<lambda>_. True) (beside (pb\<lparr>ts_state := Some SUCCESS\<rparr>) I)"
  unfolding leads_def
proof (intro allI impI)
  fix s
  assume "beside pb I s"
  then obtain w where s: "s = (pb, w)" "I w" by (cases s) auto
  from assms(1) obtain g pending where game: "game_ok g I db height pending" "checktrade (tm_env TM) = gsp_checktrade g"
    and dec: "decodes I (tm_env TM) ours btxid" and rec: "recorded I db height (tm_flags TM) btxid"
    by (auto simp: confirms_def)
  from leads_run [OF dec [unfolded decodes_def] s(2)] obtain j w' where
      j: "decodepsbt (tm_env TM) ours w = (Ret j, w')" "isObject j" "isObject (jget j ''tx'')"
        "jget (jget j ''tx'') ''btxid'' = JStr btxid" and w': "I w'" by blast
  from rec w' obtain h where h: "0 \<le> sint (democrit_confirmations (tm_flags TM))" "map_of (db w') btxid = Some h"
      "h + sint (democrit_confirmations (tm_flags TM)) \<le> int (height w') + 1"
    by (auto simp: recorded_def)
  have "table_inv (db w', height w')" using game(1) w' by (auto simp: game_ok_def)
  then have "0 \<le> h" using h(2) by (rule table_rows)
  with h trade_tracker.confirmed_succeeds [OF gsp_tracker [OF game] j w' h(1), of "nat h" pb]
  have "UpdatePending (tm_env TM) (tm_flags TM) ours (pb, w) = (Ret (), (pb\<lparr>ts_state := Some SUCCESS\<rparr>, w'))"
    by (simp add: table_height_def)
  with assms(2,3) s(1) w' show "\<exists>a t. Update TM s = (Ret a, t) \<and> True \<and> beside (pb\<lparr>ts_state := Some SUCCESS\<rparr>) I t"
    by (auto simp: Update_def)
qed

section \<open>One round of updates\<close>

text \<open>A trade that stays active in the worlds of \<open>I\<close>.\<close>

definition waits :: "('w \<Rightarrow> bool) \<Rightarrow> 'w TradeManager \<Rightarrow> TradeState \<Rightarrow> bool" where
  "waits I TM t \<longleftrightarrow> leads (beside t I) (Update TM) (\<lambda>_. True) (\<lambda>(t', w). \<not> IsFinalised t' \<and> I w)"

text \<open>The loop has come to the \<open>i\<close>-th trade.\<close>

definition from_trade :: "State \<Rightarrow> nat \<Rightarrow> ('w \<Rightarrow> bool) \<Rightarrow> State \<times> 'w \<Rightarrow> bool" where
  "from_trade s0 i I = (\<lambda>(s, w). \<exists>us. s = s0\<lparr>st_trades := us\<rparr> \<and> length us = length (st_trades s0) \<and>
     drop i us = drop i (st_trades s0) \<and> I w)"

lemma drop_here: "drop i us = drop i ts \<Longrightarrow> i < length ts \<Longrightarrow> us ! i = ts ! i \<and> drop (Suc i) us = drop (Suc i) ts"
  by (metis Cons_nth_drop_Suc drop_all list.inject list.discI not_le_imp_less)

lemma update_one:
  assumes "leads (beside (st_trades s0 ! i) I) (Update TM) (\<lambda>_. True) (\<lambda>(t', w). P t' \<and> I w)" "i < length (st_trades s0)"
    "from_trade s0 i I (s, w)"
  shows "\<exists>t' us w'. onTrade i (Update TM) (s, w) = (Ret (), (s0\<lparr>st_trades := us[i := t']\<rparr>, w')) \<and> P t' \<and> I w' \<and>
    length us = length (st_trades s0) \<and> drop (Suc i) us = drop (Suc i) (st_trades s0)"
proof -
  from assms(3) obtain us where us: "s = s0\<lparr>st_trades := us\<rparr>" "length us = length (st_trades s0)"
      "drop i us = drop i (st_trades s0)" "I w" by (auto simp: from_trade_def)
  note here = drop_here [OF us(3) assms(2)]
  from leads_run [OF assms(1), of "(st_trades s0 ! i, w)"] us(4) obtain t' w' where
      "Update TM (st_trades s0 ! i, w) = (Ret (), (t', w'))" "P t'" "I w'" by auto
  with us here show ?thesis by (intro exI [of _ t'] exI [of _ us] exI [of _ w']) (simp add: onTrade_def)
qed

lemma waiting_step:
  assumes "waits I TM (st_trades s0 ! i)" "i < length (st_trades s0)"
  shows "leads (from_trade s0 i I) (update_trade TM account i (still, fin))
    (\<lambda>(still', fin'). fin' = fin \<and> length still' = Suc (length still)) (from_trade s0 (Suc i) I)"
  unfolding leads_def
proof (intro allI impI)
  fix sw
  assume "from_trade s0 i I sw"
  then obtain s w where sw: "sw = (s, w)" "from_trade s0 i I (s, w)" by (cases sw) simp
  from update_one [OF assms(1) [unfolded waits_def] assms(2) sw(2)] obtain t' us w' where
      up: "onTrade i (Update TM) (s, w) = (Ret (), (s0\<lparr>st_trades := us[i := t']\<rparr>, w'))" "\<not> IsFinalised t'" "I w'"
        "length us = length (st_trades s0)" "drop (Suc i) us = drop (Suc i) (st_trades s0)" by blast
  then have "update_trade TM account i (still, fin) sw = (Ret (still @ [t'], fin), (s0\<lparr>st_trades := us[i := empty_ts]\<rparr>, w'))"
    using assms(2) sw(1) by (simp add: update_trade_def bnd_run_Ret)
  with up(3-5) show "\<exists>r t. update_trade TM account i (still, fin) sw = (Ret r, t) \<and>
      (case r of (still', fin') \<Rightarrow> fin' = fin \<and> length still' = Suc (length still)) \<and> from_trade s0 (Suc i) I t"
    by (auto simp: from_trade_def)
qed

lemma waiting_loop:
  assumes "\<forall>j. i \<le> j \<and> j < n \<longrightarrow> waits I TM (st_trades s0 ! j)" "i \<le> n" "n \<le> length (st_trades s0)"
  shows "leads (from_trade s0 i I) (fold_prog (update_trade TM account) [i..<n] (still, fin))
    (\<lambda>(still', fin'). fin' = fin \<and> length still' = length still + (n - i)) (from_trade s0 n I)"
  using assms
proof (induction "n - i" arbitrary: i still)
  case 0
  then show ?case by simp
next
  case (Suc k)
  then have i: "i < n" by simp
  have rest: "leads (from_trade s0 (Suc i) I) (fold_prog (update_trade TM account) [Suc i..<n] (still', fin))
      (\<lambda>(still', fin'). fin' = fin \<and> length still' = length still + (n - i)) (from_trade s0 n I)"
    if "length still' = Suc (length still)" for still'
    by (rule leads_weaken [OF Suc.hyps(1)]) (use Suc.hyps(2) Suc.prems that i in auto)
  have this_one: "waits I TM (st_trades s0 ! i)" "i < length (st_trades s0)" using Suc.prems i by auto
  have "leads (from_trade s0 i I) (bnd (update_trade TM account i (still, fin)) (fold_prog (update_trade TM account) [Suc i..<n]))
      (\<lambda>(still', fin'). fin' = fin \<and> length still' = length still + (n - i)) (from_trade s0 n I)"
    by (rule leads_bnd [OF waiting_step [OF this_one]]) (use rest in \<open>auto split: prod.splits\<close>)
  with i show ?case by (simp add: upt_conv_Cons)
qed

lemma fold_prog_append: "fold_prog f (xs @ ys) b = bnd (fold_prog f xs b) (fold_prog f ys)"
proof (induction xs arbitrary: b)
  case (Cons x xs)
  have "fold_prog f (xs @ ys) = (\<lambda>c. bnd (fold_prog f xs c) (fold_prog f ys))" using Cons.IH by blast
  then show ?case by (simp add: bnd_assoc)
qed simp

text \<open>The loop, when all trades but the last one wait, and the last one succeeds.\<close>

definition archived :: "State \<Rightarrow> nat \<Rightarrow> Trade \<Rightarrow> ('w \<Rightarrow> bool) \<Rightarrow> State \<times> 'w \<Rightarrow> bool" where
  "archived s0 n tr I = (\<lambda>(s, w). st_account s = st_account s0 \<and> length (st_trades s) = n \<and>
     st_trade_archive s = st_trade_archive s0 @ [tr] \<and> I w)"

lemma last_step:
  assumes "leads (beside pb I) (Update TM) (\<lambda>_. True) (beside pb' I)" "IsFinalised pb'" "st_trades s0 = ts @ [pb]"
  shows "leads (from_trade s0 (length ts) I) (update_trade TM account (length ts) (still, fin))
    (\<lambda>(still', fin'). fin' = fin @ [pb'] \<and> still' = still) (archived s0 (Suc (length ts)) (GetPublicInfo account pb') I)"
  unfolding leads_def
proof (intro allI impI)
  fix sw
  assume "from_trade s0 (length ts) I sw"
  then obtain s w where sw: "sw = (s, w)" "from_trade s0 (length ts) I (s, w)" by (cases sw) simp
  have "leads (beside (st_trades s0 ! length ts) I) (Update TM) (\<lambda>_. True) (\<lambda>(t', w). t' = pb' \<and> I w)"
    using assms(1,3) by (simp add: beside_def)
  from update_one [OF this _ sw(2)] assms(3) obtain us w' where
      up: "onTrade (length ts) (Update TM) (s, w) = (Ret (), (s0\<lparr>st_trades := us[length ts := pb']\<rparr>, w'))" "I w'"
        "length us = Suc (length ts)" by auto
  then have "update_trade TM account (length ts) (still, fin) sw = (Ret (still, fin @ [pb']),
      (s0\<lparr>st_trade_archive := st_trade_archive s0 @ [GetPublicInfo account pb'], st_trades := us[length ts := empty_ts]\<rparr>, w'))"
    using assms(2) sw(1) by (simp add: update_trade_def bnd_run_Ret)
  with up(2,3) show "\<exists>r t. update_trade TM account (length ts) (still, fin) sw = (Ret r, t) \<and>
      (case r of (still', fin') \<Rightarrow> fin' = fin @ [pb'] \<and> still' = still) \<and>
      archived s0 (Suc (length ts)) (GetPublicInfo account pb') I t"
    by (auto simp: archived_def)
qed

section \<open>The end of the successful trade\<close>

lemma RemoveById_answers:
  assumes "calm I V"
  shows "leads (same_frame s I) (RemoveById V oid) (\<lambda>_. True) (same_frame s I)"
  unfolding RemoveById_def
  by (rule leads_bnd [OF same_frame_modifies]) (simp_all add: refresh_answers [OF assms])

lemma Add_answers:
  assumes "calm I V"
  shows "leads (same_frame s I) (Add V ord) (\<lambda>_. True) (same_frame s I)"
proof -
  have validate: "leads (same_frame s I) (onW (ValidateOrder V account ord)) (\<lambda>_. True) (same_frame s I)" for account
    using assms by (intro same_frame_onW) (simp add: calm_def)
  have rest: "leads (same_frame s I) (bnd (RunRefresh V) (\<lambda>_. ret True)) (\<lambda>_. True) (same_frame s I)"
    by (rule leads_bnd [OF refresh_answers [OF assms]]) simp
  show ?thesis
    unfolding Add_def Let_def
    by (rule same_frame_gets, rule leads_bnd [OF validate]) (auto intro!: leads_bnd [OF same_frame_modifies] rest)
qed

lemma success_answers:
  assumes "calm I (tm_myOrders TM)" "ts_state pb = Some SUCCESS"
  shows "leads (same_frame s I) (finish_trade TM account pb) (\<lambda>_. True) (same_frame s I)"
  using assms(2) unfolding finish_trade_def HandleSuccess_def Let_def
  by (auto intro!: leads_bnd [OF RemoveById_answers [OF assms(1)]] leads_bnd [OF Add_answers [OF assms(1)]])

lemma round_completes:
  assumes "st_trades s = ts @ [pb]" "\<forall>t \<in> set ts. waits I TM t" "calm I (tm_myOrders TM)" "I w"
    "leads (beside pb I) (Update TM) (\<lambda>_. True) (beside (pb\<lparr>ts_state := Some SUCCESS\<rparr>) I)"
  shows "\<exists>s' w'. job_round (UpdateAndArchiveTrades TM) (s, w) = (Ret (), (s', w')) \<and> I w' \<and> length (st_trades s') = length ts \<and>
    st_trade_archive s' = st_trade_archive s @ [GetPublicInfo (state_account s) (pb\<lparr>ts_state := Some SUCCESS\<rparr>)]"
proof -
  let ?pb = "pb\<lparr>ts_state := Some SUCCESS\<rparr>" and ?account = "state_account s" and ?n = "length ts"
  let ?J = "archived s (Suc ?n) (GetPublicInfo ?account ?pb) I"
  have len: "[0..<length (st_trades s)] = [0..<?n] @ [?n]" using assms(1) by simp
  have "leads (from_trade s 0 I) (fold_prog (update_trade TM ?account) [0..<?n] ([], [])) (\<lambda>(still, fin). fin = [] \<and> length still = ?n)
      (from_trade s ?n I)"
    using waiting_loop [of 0 ?n I TM s ?account "[]" "[]"] assms(1,2) by (simp add: nth_append)
  moreover have "leads (from_trade s ?n I) (fold_prog (update_trade TM ?account) [?n] acc)
      (\<lambda>(still, fin). fin = [?pb] \<and> length still = ?n) ?J" if "(\<lambda>(still, fin). fin = [] \<and> length still = ?n) acc" for acc
  proof -
    from that obtain still where acc: "acc = (still, [])" "length still = ?n" by (cases acc) simp
    have "IsFinalised ?pb" by (simp add: IsFinalised_def)
    from last_step [OF assms(5) this assms(1), of ?account still "[]"] show ?thesis
      unfolding acc(1) fold_prog.simps by (rule leads_bnd) (use acc(2) in auto)
  qed
  ultimately have "leads (from_trade s 0 I) (fold_prog (update_trade TM ?account) [0..<length (st_trades s)] ([], []))
      (\<lambda>(still, fin). fin = [?pb] \<and> length still = ?n) ?J"
    unfolding len fold_prog_append by (rule leads_bnd)
  from leads_run [OF this, of "(s, w)"] assms(4) obtain still s1 w1 where
      loop: "fold_prog (update_trade TM ?account) [0..<length (st_trades s)] ([], []) (s, w) = (Ret (still, [?pb]), (s1, w1))"
        "length still = ?n" "st_trade_archive s1 = st_trade_archive s @ [GetPublicInfo ?account ?pb]" "I w1"
    by (auto simp: from_trade_def archived_def)
  let ?s1 = "s1\<lparr>st_trades := still\<rparr>"
  have "leads (same_frame ?s1 I) (finish_trade TM ?account ?pb) (\<lambda>_. True) (same_frame ?s1 I)"
    using assms(3) by (rule success_answers) simp
  from leads_run [OF this, of "(?s1, w1)"] loop(4) obtain s2 w2 where
      fin: "finish_trade TM ?account ?pb (?s1, w1) = (Ret (), (s2, w2))" "frame s2 = frame ?s1" "I w2"
    by (auto simp: same_frame_def)
  with loop show ?thesis
    by (intro exI [of _ s2] exI [of _ w2]) (simp add: UpdateAndArchiveTrades_def Let_def job_round_def catch_def bnd_run_Ret frame_def)
qed

section \<open>Property\<close>


text \<open>The seller has offered gold and the buyer has taken it; both PSBTs are those of the confirmed transaction.\<close>

definition seller_awaiting :: TradeState where
  "seller_awaiting = (new_trade sample_order 1000 3 ''buyer'')\<lparr>ts_our_psbt := Some ''partial'', ts_state := Some PENDING\<rparr>"

lemma tracked_calm: "calm I (tm_myOrders tracked_tm)"
  by (simp add: calm_def tracked_tm_def sample_tm_def base_virtual_def)

lemma tracked_confirms: "confirms tracked_tm (\<lambda>m. m = confirmed_world) (\<lambda>m. [(''btx'', 10)]) (\<lambda>m. 15) ''partial'' ''btx''"
proof -
  let ?tx = "jset ''btxid'' (JStr ''btx'') (jset ''vin'' (JArr [input_json ''gone'' 1]) jempty)"
  have "decodepsbt (tm_env tracked_tm) ''partial'' confirmed_world = (Ret (jset ''tx'' ?tx jempty), confirmed_world)" by code_simp
  then have "decodes (\<lambda>m. m = confirmed_world) (tm_env tracked_tm) ''partial'' ''btx''" by (simp add: decodes_def leads_def)
  moreover have "game_ok sample_game (\<lambda>m. m = confirmed_world) (\<lambda>m. [(''btx'', 10)]) (\<lambda>m. 15) (\<lambda>m. jempty)"
    by (rule game_ok_mono [OF sample_game_ok]) simp
  moreover have "checktrade (tm_env tracked_tm) = gsp_checktrade sample_game" by (simp add: tracked_tm_def)
  moreover have "recorded (\<lambda>m. m = confirmed_world) (\<lambda>m. [(''btx'', 10)]) (\<lambda>m. 15) (tm_flags tracked_tm) ''btx''"
    by (simp add: recorded_def tracked_tm_def sample_tm_def default_flags_def)
  ultimately show ?thesis by (auto simp: confirms_def)
qed


end
