(* ===== verification/LockOrder.thy ===== *)
theory LockOrder
  imports Prelude
begin

text \<open>
  Threads that share data under mutexes. A thread is the mutexes that it holds and the
  accesses that are left for it; the threads take their steps in any order. Two rules make such
  a program safe: mutexes are only taken in the order of a rank, and shared data is only accessed
  with its own mutex. The locale \<open>lock_discipline\<close> is the argument; the mutexes and the data
  are those of the program that instantiates it.
\<close>

section \<open>Accesses\<close>

datatype ('m, 'v) access = Acq 'm | Rel 'm | Rd 'v | Wr 'v

text \<open>A lock guard: the mutex is released at the end of the block on every path.\<close>

definition guarded :: "'m \<Rightarrow> ('m, 'v) access list \<Rightarrow> ('m, 'v) access list" where
  "guarded m body = Acq m # body @ [Rel m]"

type_synonym ('m, 'v) thread = "'m list \<times> ('m, 'v) access list"

definition start :: "('m, 'v) access list list \<Rightarrow> ('m, 'v) thread list" where
  "start progs = map (\<lambda>xs. ([], xs)) progs"

fun held_after :: "'m list \<Rightarrow> ('m, 'v) access \<Rightarrow> 'm list" where
  "held_after H (Acq m) = m # H"
| "held_after H (Rel m) = tl H"
| "held_after H (Rd v) = H"
| "held_after H (Wr v) = H"

definition is_free :: "'m \<Rightarrow> ('m, 'v) thread list \<Rightarrow> bool" where
  "is_free m s \<longleftrightarrow> (\<forall>th \<in> set s. m \<notin> set (fst th))"

definition enabled :: "('m, 'v) thread list \<Rightarrow> ('m, 'v) access \<Rightarrow> bool" where
  "enabled s a \<longleftrightarrow> (case a of Acq m \<Rightarrow> is_free m s | _ \<Rightarrow> True)"

inductive thread_step :: "nat \<Rightarrow> ('m, 'v) thread list \<Rightarrow> ('m, 'v) thread list \<Rightarrow> bool" where
  "i < length s \<Longrightarrow> s ! i = (H, a # r) \<Longrightarrow> enabled s a \<Longrightarrow> thread_step i s (s[i := (held_after H a, r)])"

text \<open>A schedule, executed.\<close>

fun execute :: "nat list \<Rightarrow> ('m, 'v) thread list \<Rightarrow> ('m, 'v) thread list option" where
  "execute [] s = Some s"
| "execute (i # es) s =
     (if i < length s then
        (case s ! i of
           (H, a # r) \<Rightarrow> if enabled s a then execute es (s[i := (held_after H a, r)]) else None
         | (H, []) \<Rightarrow> None)
      else None)"

lemma execute_runs: "execute es s = Some t \<Longrightarrow> runs thread_step s es t"
  by (induction es s rule: execute.induct) (auto split: if_splits prod.splits list.splits intro: runs.intros thread_step.intros)

text \<open>Two threads that are both about to access the data, one of them to write it.\<close>

definition about_to :: "('m, 'v) thread \<Rightarrow> ('m, 'v) access \<Rightarrow> bool" where
  "about_to th a \<longleftrightarrow> (\<exists>r. snd th = a # r)"

definition race :: "'v \<Rightarrow> ('m, 'v) thread list \<Rightarrow> bool" where
  "race v s \<longleftrightarrow> (\<exists>i j. i < length s \<and> j < length s \<and> i \<noteq> j \<and> about_to (s ! i) (Wr v) \<and>
     (about_to (s ! j) (Wr v) \<or> about_to (s ! j) (Rd v)))"

section \<open>The discipline\<close>

fun obeys :: "('m \<Rightarrow> nat) \<Rightarrow> ('v \<Rightarrow> 'm option) \<Rightarrow> 'm list \<Rightarrow> ('m, 'v) access list \<Rightarrow> bool" where
  "obeys rank guard H [] \<longleftrightarrow> H = []"
| "obeys rank guard H (Acq m # r) \<longleftrightarrow> list_all (\<lambda>h. rank h < rank m) H \<and> obeys rank guard (m # H) r"
| "obeys rank guard H (Rel m # r) \<longleftrightarrow> H \<noteq> [] \<and> hd H = m \<and> obeys rank guard (tl H) r"
| "obeys rank guard H (Rd v # r) \<longleftrightarrow> pred_option (\<lambda>m. m \<in> set H) (guard v) \<and> obeys rank guard H r"
| "obeys rank guard H (Wr v # r) \<longleftrightarrow> pred_option (\<lambda>m. m \<in> set H) (guard v) \<and> obeys rank guard H r"

text \<open>A piece of a program that obeys the rules where the mutexes \<open>H\<close> are held, and leaves them held.\<close>

definition within :: "('m \<Rightarrow> nat) \<Rightarrow> ('v \<Rightarrow> 'm option) \<Rightarrow> 'm list \<Rightarrow> ('m, 'v) access list \<Rightarrow> bool" where
  "within rank guard H xs \<longleftrightarrow> (\<forall>ys. obeys rank guard H ys \<longrightarrow> obeys rank guard H (xs @ ys))"

named_theorems within_intro

lemma within_obeys: "within rank guard [] xs \<Longrightarrow> obeys rank guard [] xs"
  unfolding within_def by (metis append_Nil2 obeys.simps(1))

lemma within_nil [within_intro]: "within rank guard H []"
  by (simp add: within_def)

lemma within_append [within_intro]: "within rank guard H xs \<Longrightarrow> within rank guard H ys \<Longrightarrow> within rank guard H (xs @ ys)"
  by (simp add: within_def)

lemma within_guarded [within_intro]:
  "list_all (\<lambda>h. rank h < rank m) H \<Longrightarrow> within rank guard (m # H) body \<Longrightarrow> within rank guard H (guarded m body)"
  by (simp add: within_def guarded_def)

lemma within_access [within_intro]:
  "pred_option (\<lambda>m. m \<in> set H) (guard v) \<Longrightarrow> within rank guard H xs \<Longrightarrow> within rank guard H (Rd v # xs)"
  "pred_option (\<lambda>m. m \<in> set H) (guard v) \<Longrightarrow> within rank guard H xs \<Longrightarrow> within rank guard H (Wr v # xs)"
  by (simp_all add: within_def)

lemma within_concat [within_intro]: "(\<And>x. x \<in> set xs \<Longrightarrow> within rank guard H (f x)) \<Longrightarrow> within rank guard H (concat (map f xs))"
  by (induction xs) (auto intro: within_nil within_append)

lemma within_if [within_intro]:
  "within rank guard H xs \<Longrightarrow> within rank guard H ys \<Longrightarrow> within rank guard H (if b then xs else ys)"
  by simp

text \<open>The invariant of the threads: no mutex has two owners, and each thread obeys the rules.\<close>

definition threads_inv :: "('m \<Rightarrow> nat) \<Rightarrow> ('v \<Rightarrow> 'm option) \<Rightarrow> ('m, 'v) thread list \<Rightarrow> bool" where
  "threads_inv rank guard s \<longleftrightarrow> (\<forall>th \<in> set s. obeys rank guard (fst th) (snd th)) \<and>
     (\<forall>i < length s. \<forall>j < length s. i \<noteq> j \<longrightarrow> set (fst (s ! i)) \<inter> set (fst (s ! j)) = {})"

lemma thread_obeys: "threads_inv rank guard s \<Longrightarrow> i < length s \<Longrightarrow> obeys rank guard (fst (s ! i)) (snd (s ! i))"
  by (simp add: threads_inv_def)

lemma obeys_after: "obeys rank guard H (a # r) \<Longrightarrow> obeys rank guard (held_after H a) r"
  by (cases a) simp_all

lemma thread_step_inv:
  assumes "threads_inv rank guard s" "thread_step i s t"
  shows "threads_inv rank guard t"
  using assms(2)
proof (cases rule: thread_step.cases)
  case (1 H a r)
  have new: "set (held_after H a) \<subseteq> set H \<union> (case a of Acq m \<Rightarrow> {m} | _ \<Rightarrow> {})"
    by (cases a; cases H) auto
  have "set (held_after H a) \<inter> set (fst (s ! j)) = {}" if "j < length s" "j \<noteq> i" for j
  proof -
    have "set H \<inter> set (fst (s ! j)) = {}" using assms(1) that 1 by (fastforce simp: threads_inv_def)
    moreover have "(case a of Acq m \<Rightarrow> {m} | _ \<Rightarrow> {}) \<inter> set (fst (s ! j)) = {}"
      using 1(4) that(1) by (auto simp: enabled_def is_free_def split: access.splits)
    ultimately show ?thesis using new by blast
  qed
  moreover have "obeys rank guard (held_after H a) r"
    using thread_obeys [OF assms(1) 1(2)] 1(3) by (simp add: obeys_after)
  ultimately show ?thesis
    using assms(1) 1 by (fastforce simp: threads_inv_def nth_list_update Int_commute dest!: set_update_subset_insert [THEN subsetD])
qed

section \<open>Deadlocks and races\<close>

locale lock_discipline =
  fixes rank :: "'m \<Rightarrow> nat" and guard :: "'v \<Rightarrow> 'm option" and ops :: "('m, 'v) access list set"
  assumes disciplined: "xs \<in> ops \<Longrightarrow> within rank guard [] xs"
begin

lemma start_inv:
  assumes "\<forall>os \<in> set progs. set os \<subseteq> ops"
  shows "threads_inv rank guard (start (map concat progs))"
proof -
  have "within rank guard [] (concat (map id os))" if "os \<in> set progs" for os
    using that assms disciplined by (intro within_concat) auto
  then show ?thesis by (auto simp: threads_inv_def start_def intro: within_obeys)
qed

lemma reachable_inv:
  "runs thread_step (start (map concat progs)) es s \<Longrightarrow> \<forall>os \<in> set progs. set os \<subseteq> ops \<Longrightarrow> threads_inv rank guard s"
  by (erule runs_invariant) (auto intro: start_inv thread_step_inv)

text \<open>
  If no thread can step, each one that is left waits for a mutex. The owner of the mutex of the
  highest rank among these would wait for one of a higher rank still.
\<close>

lemma progress:
  assumes "threads_inv rank guard s" "i < length s" "snd (s ! i) \<noteq> []"
  shows "\<exists>i t. thread_step i s t"
proof (rule ccontr)
  assume stuck: "\<nexists>i t. thread_step i s t"
  define wanted where "wanted = {m. \<exists>i < length s. about_to (s ! i) (Acq m)}"
  have waits: "\<exists>m. about_to (s ! k) (Acq m) \<and> \<not> is_free m s" if len: "k < length s" and left: "snd (s ! k) \<noteq> []" for k
  proof -
    obtain H a r where k: "s ! k = (H, a # r)" using left by (metis list.exhaust prod.collapse)
    then have "\<not> enabled s a" using stuck len by (blast intro: thread_step.intros)
    with k show ?thesis by (auto simp: enabled_def about_to_def split: access.splits)
  qed
  have "wanted \<subseteq> (\<lambda>k. case hd (snd (s ! k)) of Acq m \<Rightarrow> m) ` {..< length s}"
    by (force simp: wanted_def about_to_def)
  then have "finite wanted" by (rule finite_subset) simp
  moreover have "wanted \<noteq> {}" using waits [OF assms(2,3)] assms(2) by (auto simp: wanted_def)
  ultimately obtain m where m: "m \<in> wanted" and top: "\<forall>m' \<in> wanted. rank m' \<le> rank m"
    using Max_in [of "rank ` wanted"] Max_ge [of "rank ` wanted"] by (metis (no_types, lifting) finite_imageI image_iff image_is_empty)
  from m obtain k where k: "k < length s" "about_to (s ! k) (Acq m)" by (auto simp: wanted_def)
  with waits [of k] have "\<not> is_free m s" by (auto simp: about_to_def)
  then obtain j where j: "j < length s" "m \<in> set (fst (s ! j))"
    unfolding is_free_def by (metis in_set_conv_nth)
  have ok: "obeys rank guard (fst (s ! j)) (snd (s ! j))" using thread_obeys [OF assms(1) j(1)] .
  with j(2) have "snd (s ! j) \<noteq> []" by auto
  with waits [OF j(1)] obtain m' where m': "about_to (s ! j) (Acq m')" by blast
  with ok j(2) have "rank m < rank m'" by (auto simp: about_to_def list_all_iff)
  moreover have "m' \<in> wanted" using m' j(1) by (auto simp: wanted_def)
  ultimately show False using top by fastforce
qed

lemma race_free:
  assumes "threads_inv rank guard s" "guard v = Some m"
  shows "\<not> race v s"
proof
  assume "race v s"
  then obtain i j where ij: "i < length s" "j < length s" "i \<noteq> j" "about_to (s ! i) (Wr v)"
      "about_to (s ! j) (Wr v) \<or> about_to (s ! j) (Rd v)"
    by (auto simp: race_def)
  then have "m \<in> set (fst (s ! i))" "m \<in> set (fst (s ! j))"
    using thread_obeys [OF assms(1), of i] thread_obeys [OF assms(1), of j] assms(2) by (auto simp: about_to_def)
  with ij assms(1) show False by (auto simp: threads_inv_def)
qed

end

end
