(* ===== verification/DaemonLocks.thy ===== *)
theory DaemonLocks
  imports LockOrder
begin

text \<open>
  The mutexes of the daemon: which of them each method takes, in which order, and which shared
  data it accesses under them. A method is the sequence of its accesses; what depends on data,
  such as the number of RPC calls or whether an order was added, is an argument, so the
  theorems hold for all paths through the code.

  The mutexes of the libraries are not included, nor are waits for something other than a mutex:
  the wait of \<^verbatim>\<open>Connect\<close> for the room, joining a thread, and the network.
\<close>

section \<open>Mutexes and data\<close>

datatype job = Refresher | Timeouter | Updater | Reconnecter

datatype remote = Xaya | DemGsp

datatype mutex = Mut_job job | Mut_stop | Mut_muc | Mut_state | Mut_book | Mut_client remote | Mut_nf

datatype shared =
    V_job_stop job
  | V_shouldStop
  | V_nickToJid
  | V_joining
  | V_state
  | V_orders
  | V_updates
  | V_rpcClients remote
  | V_knownJids

type_synonym accesses = "(mutex, shared) access list"

section \<open>State and RPC clients\<close>

definition AccessState :: "accesses \<Rightarrow> accesses" where
  "AccessState f = guarded Mut_state (Wr V_state # f)"

definition ReadState :: "accesses \<Rightarrow> accesses" where
  "ReadState f = guarded Mut_state (Rd V_state # f)"

text \<open>
  \<^verbatim>\<open>RpcClient::operator*\<close> has its mutex while it finds or makes the client of the thread; the call
  itself is without it. The asset specification of the non-fungible game has one mutex for its
  calls.
\<close>

definition lk_deref :: "remote \<Rightarrow> accesses" where
  "lk_deref r = guarded (Mut_client r) [Wr (V_rpcClients r)]"

definition lk_nf_call :: accesses where
  "lk_nf_call = guarded Mut_nf []"

text \<open>A call of either kind, and any number of them.\<close>

definition lk_call :: "remote option \<Rightarrow> accesses" where
  "lk_call c = (case c of None \<Rightarrow> lk_nf_call | Some r \<Rightarrow> lk_deref r)"

definition lk_calls :: "remote option list \<Rightarrow> accesses" where
  "lk_calls cs = concat (map lk_call cs)"

section \<open>Own orders and trades\<close>

text \<open>What \<^verbatim>\<open>UpdateOrders\<close> of the daemon does before it sends the message.\<close>

definition lk_UpdateOwnOrders :: accesses where
  "lk_UpdateOwnOrders = ReadState []"

definition lk_InternalGetOrders :: accesses where
  "lk_InternalGetOrders = ReadState []"

definition lk_RunRefresh :: "remote option list \<Rightarrow> accesses" where
  "lk_RunRefresh cs = AccessState (lk_calls cs) @ lk_InternalGetOrders @ lk_UpdateOwnOrders"

definition lk_Add :: "remote option list \<Rightarrow> bool \<Rightarrow> remote option list \<Rightarrow> accesses" where
  "lk_Add cs added cs' = AccessState (lk_calls cs) @ (if added then lk_RunRefresh cs' else [])"

definition lk_RemoveById :: "remote option list \<Rightarrow> accesses" where
  "lk_RemoveById cs = AccessState [] @ lk_RunRefresh cs"

definition lk_TryLock :: "bool \<Rightarrow> remote option list \<Rightarrow> accesses" where
  "lk_TryLock res cs = AccessState [] @ (if res then lk_RunRefresh cs else [])"

definition lk_Unlock :: "remote option list \<Rightarrow> accesses" where
  "lk_Unlock cs = AccessState [] @ lk_RunRefresh cs"

definition lk_OrderTaken :: "bool \<Rightarrow> accesses" where
  "lk_OrderTaken fits = (if fits then AccessState [] else [])"

definition lk_TakeOrder :: "bool \<Rightarrow> remote option list \<Rightarrow> accesses" where
  "lk_TakeOrder fits cs = (if fits then AccessState (lk_calls cs) else [])"

text \<open>The first part of \<^verbatim>\<open>ProcessMessage\<close>, for a message that takes an order.\<close>

definition lk_taking :: "bool \<Rightarrow> bool \<Rightarrow> bool \<Rightarrow> remote option list \<Rightarrow> remote option list \<Rightarrow> accesses" where
  "lk_taking locked fits taken cs cs' =
     lk_TryLock locked cs @ (if locked then lk_OrderTaken fits @ (if taken then [] else lk_Unlock cs') else [])"

definition lk_ProcessMessage :: "accesses \<Rightarrow> bool \<Rightarrow> remote option list \<Rightarrow> accesses" where
  "lk_ProcessMessage taking continues cs = taking @ (if continues then AccessState (lk_calls cs) else [])"

definition lk_HandleSuccess :: "bool \<Rightarrow> bool \<Rightarrow> remote option list \<Rightarrow> remote option list \<Rightarrow> bool \<Rightarrow> remote option list \<Rightarrow> accesses" where
  "lk_HandleSuccess maker remaining cs cs1 added cs2 =
     (if maker then lk_RemoveById cs @ (if remaining then lk_Add cs1 added cs2 else []) else [])"

definition lk_HandleFailure :: "bool \<Rightarrow> remote option list \<Rightarrow> remote option list \<Rightarrow> accesses" where
  "lk_HandleFailure maker cs cs' = (if maker then lk_Unlock cs else []) @ lk_calls cs'"

text \<open>\<open>finished\<close> has the accesses of the handlers for the trades that became final.\<close>

definition lk_UpdateAndArchiveTrades :: "remote option list \<Rightarrow> accesses list \<Rightarrow> accesses" where
  "lk_UpdateAndArchiveTrades cs finished = AccessState (lk_calls cs) @ concat (map id finished)"

definition lk_GetTrades :: accesses where
  "lk_GetTrades = ReadState []"

section \<open>Order book and authenticator\<close>

definition lk_RunTimeout :: accesses where
  "lk_RunTimeout = guarded Mut_book [Wr V_updates, Wr V_orders]"

definition lk_UpdateOrders :: accesses where
  "lk_UpdateOrders = guarded Mut_book [Wr V_updates, Wr V_orders]"

text \<open>The queries do not take the mutex of the book.\<close>

definition lk_InternalGetByAsset :: accesses where
  "lk_InternalGetByAsset = [Rd V_orders]"

text \<open>The authenticator has no mutex.\<close>

definition lk_Authenticate :: "bool \<Rightarrow> accesses" where
  "lk_Authenticate ok = (if ok then [Wr V_knownJids] else [])"

definition lk_LookupJid :: accesses where
  "lk_LookupJid = [Rd V_knownJids]"

section \<open>The XMPP client and its callbacks\<close>

definition lk_DisconnectAsync :: "bool \<Rightarrow> accesses" where
  "lk_DisconnectAsync disconnecting = (if disconnecting then [] else guarded Mut_muc [Wr V_nickToJid])"

definition lk_Disconnect :: "bool \<Rightarrow> accesses" where
  "lk_Disconnect disconnecting = lk_DisconnectAsync disconnecting @ guarded Mut_muc []"

text \<open>
  \<^verbatim>\<open>Connect\<close> gives its mutex up while it waits; \<open>wakeups\<close> is how often it looks whether it is still
  joining before it goes to sleep again.
\<close>

definition lk_Connect :: "bool \<Rightarrow> nat \<Rightarrow> accesses" where
  "lk_Connect xmppOk wakeups =
     (if xmppOk then guarded Mut_muc [Wr V_nickToJid, Wr V_joining, Rd V_joining] @
        concat (replicate wakeups (guarded Mut_muc [Rd V_joining])) else [])"

definition lk_ResolveNickname :: accesses where
  "lk_ResolveNickname = guarded Mut_muc [Rd V_nickToJid]"

definition lk_finish_joining :: accesses where
  "lk_finish_joining = guarded Mut_muc [Rd V_joining, Wr V_joining]"

definition lk_HandleMessage :: "bool \<Rightarrow> bool \<Rightarrow> remote option list \<Rightarrow> accesses" where
  "lk_HandleMessage auth valid cs = lk_Authenticate auth @ (if auth \<and> valid then lk_calls cs @ lk_UpdateOrders else [])"

definition lk_HandleDisconnect :: "bool \<Rightarrow> accesses" where
  "lk_HandleDisconnect auth = lk_Authenticate auth @ (if auth then lk_UpdateOrders else [])"

definition lk_SendProcessingMessage :: accesses where
  "lk_SendProcessingMessage = lk_LookupJid"

definition lk_HandlePrivate :: "bool \<Rightarrow> bool \<Rightarrow> accesses \<Rightarrow> bool \<Rightarrow> accesses" where
  "lk_HandlePrivate auth valid process reply =
     lk_Authenticate auth @ (if auth \<and> valid then process @ (if reply then lk_SendProcessingMessage else []) else [])"

definition lk_handleMUCMessage :: "bool \<Rightarrow> accesses \<Rightarrow> accesses" where
  "lk_handleMUCMessage known handle = lk_ResolveNickname @ (if known then handle else [])"

text \<open>The branches of the handler of presences: our own, that somebody left, and an announcement.\<close>

definition lk_own_presence :: "bool \<Rightarrow> bool \<Rightarrow> accesses" where
  "lk_own_presence unavailable disconnecting =
     (if unavailable then lk_DisconnectAsync disconnecting else []) @ lk_finish_joining"

definition lk_left_presence :: "bool \<Rightarrow> bool \<Rightarrow> accesses" where
  "lk_left_presence hasJid auth = guarded Mut_muc (Wr V_nickToJid # (if hasJid then lk_HandleDisconnect auth else []))"

definition lk_announced_presence :: accesses where
  "lk_announced_presence = guarded Mut_muc [Wr V_nickToJid]"

definition lk_handleMUCError :: "bool \<Rightarrow> accesses" where
  "lk_handleMUCError disconnecting = lk_DisconnectAsync disconnecting @ lk_finish_joining"

section \<open>Threads\<close>

text \<open>One round of the worker of an interval job, which gives the mutex up while it waits, and the destructor.\<close>

definition lk_round :: "job \<Rightarrow> accesses \<Rightarrow> accesses" where
  "lk_round j body = guarded (Mut_job j) (Rd (V_job_stop j) # body)"

definition lk_stop_job :: "job \<Rightarrow> accesses" where
  "lk_stop_job j = guarded (Mut_job j) [Wr (V_job_stop j)]"

definition lk_rpc_stop :: accesses where
  "lk_rpc_stop = guarded Mut_stop [Wr V_shouldStop]"

definition lk_Run :: "nat \<Rightarrow> accesses" where
  "lk_Run wakeups = guarded Mut_stop [Wr V_shouldStop, Rd V_shouldStop] @
     concat (replicate wakeups (guarded Mut_stop [Rd V_shouldStop]))"

text \<open>All that a thread of the daemon may do, one after the other: the callbacks, the commands, the rounds of the jobs.\<close>

inductive_set taking_paths :: "accesses set" where
  no_taking: "[] \<in> taking_paths"
| taking: "lk_taking locked fits taken cs cs' \<in> taking_paths"

inductive_set finish_paths :: "accesses set" where
  success: "lk_HandleSuccess maker remaining cs cs1 added cs2 \<in> finish_paths"
| failure: "lk_HandleFailure maker cs cs' \<in> finish_paths"

inductive_set daemon_ops :: "accesses set" where
  op_room: "lk_handleMUCMessage known (lk_HandleMessage auth valid cs) \<in> daemon_ops"
| op_own: "lk_own_presence unavailable disconnecting \<in> daemon_ops"
| op_left: "lk_left_presence hasJid auth \<in> daemon_ops"
| op_announced: "lk_announced_presence \<in> daemon_ops"
| op_error: "lk_handleMUCError disconnecting \<in> daemon_ops"
| op_private: "tk \<in> taking_paths \<Longrightarrow> lk_HandlePrivate auth valid (lk_ProcessMessage tk continues cs) reply \<in> daemon_ops"
| op_queries: "lk_InternalGetByAsset \<in> daemon_ops"
| op_own_orders: "lk_InternalGetOrders \<in> daemon_ops"
| op_trades: "lk_GetTrades \<in> daemon_ops"
| op_account: "ReadState [] \<in> daemon_ops"
| op_add: "lk_Add cs added cs' \<in> daemon_ops"
| op_cancel: "lk_RemoveById cs \<in> daemon_ops"
| op_take: "lk_TakeOrder fits cs @ (if ok then lk_SendProcessingMessage else []) \<in> daemon_ops"
| op_stop: "lk_rpc_stop \<in> daemon_ops"
| op_run: "lk_Run wakeups \<in> daemon_ops"
| op_connect: "lk_Connect xmppOk wakeups \<in> daemon_ops"
| op_disconnect: "lk_Disconnect disconnecting \<in> daemon_ops"
| op_refresh: "lk_round Refresher (lk_RunRefresh cs) \<in> daemon_ops"
| op_timeout: "lk_round Timeouter lk_RunTimeout \<in> daemon_ops"
| op_update: "set fin \<subseteq> finish_paths \<Longrightarrow> lk_round Updater (lk_UpdateAndArchiveTrades cs fin) \<in> daemon_ops"
| op_reconnect: "lk_round Reconnecter (if connected then [] else lk_Connect xmppOk wakeups) \<in> daemon_ops"
| op_stop_job: "lk_stop_job j \<in> daemon_ops"

section \<open>The discipline of the daemon\<close>

text \<open>The order in which the mutexes are taken, and which one belongs to which data.\<close>

definition lock_rank :: "mutex \<Rightarrow> nat" where
  "lock_rank m =
     (case m of Mut_job j \<Rightarrow> 0 | Mut_stop \<Rightarrow> 0 | Mut_muc \<Rightarrow> 1 | Mut_state \<Rightarrow> 2 | Mut_book \<Rightarrow> 2
      | Mut_client r \<Rightarrow> 3 | Mut_nf \<Rightarrow> 3)"

definition guarded_by :: "shared \<Rightarrow> mutex option" where
  "guarded_by v =
     (case v of V_job_stop j \<Rightarrow> Some (Mut_job j) | V_shouldStop \<Rightarrow> Some Mut_stop | V_nickToJid \<Rightarrow> Some Mut_muc
      | V_joining \<Rightarrow> Some Mut_muc | V_state \<Rightarrow> Some Mut_state | V_updates \<Rightarrow> Some Mut_book
      | V_rpcClients r \<Rightarrow> Some (Mut_client r) | V_orders \<Rightarrow> None | V_knownJids \<Rightarrow> None)"

lemma lock_simps [simp]:
  "lock_rank (Mut_job j) = 0" "lock_rank Mut_stop = 0" "lock_rank Mut_muc = 1" "lock_rank Mut_state = 2"
  "lock_rank Mut_book = 2" "lock_rank (Mut_client r) = 3" "lock_rank Mut_nf = 3"
  "guarded_by (V_job_stop j) = Some (Mut_job j)" "guarded_by V_shouldStop = Some Mut_stop"
  "guarded_by V_nickToJid = Some Mut_muc" "guarded_by V_joining = Some Mut_muc" "guarded_by V_state = Some Mut_state"
  "guarded_by V_updates = Some Mut_book" "guarded_by (V_rpcClients r) = Some (Mut_client r)"
  "guarded_by V_orders = None" "guarded_by V_knownJids = None"
  by (simp_all add: lock_rank_def guarded_by_def)

abbreviation safe :: "mutex list \<Rightarrow> accesses \<Rightarrow> bool" where
  "safe \<equiv> within lock_rank guarded_by"

text \<open>Where a method may be called: the mutexes that are held must come before those it takes.\<close>

abbreviation below :: "nat \<Rightarrow> mutex list \<Rightarrow> bool" where
  "below n \<equiv> list_all (\<lambda>h. lock_rank h < n)"

lemma below_mono: "below m H \<Longrightarrow> m \<le> n \<Longrightarrow> below n H"
  by (auto simp: list_all_iff)

lemma safe_calls [within_intro]: "below 3 H \<Longrightarrow> safe H (lk_calls cs)"
  unfolding lk_calls_def
  by (rule within_concat) (auto simp: lk_call_def lk_nf_call_def lk_deref_def split: option.split intro!: within_intro)

lemma safe_state [within_intro]:
  "below 2 H \<Longrightarrow> safe (Mut_state # H) f \<Longrightarrow> safe H (AccessState f)"
  "below 2 H \<Longrightarrow> safe (Mut_state # H) f \<Longrightarrow> safe H (ReadState f)"
  unfolding AccessState_def ReadState_def by (auto intro!: within_intro)

lemma safe_orders [within_intro]:
  assumes "below 2 H"
  shows "safe H (lk_RunRefresh cs)" "safe H (lk_Add cs added cs')" "safe H (lk_RemoveById cs)" "safe H (lk_TryLock res cs)"
    "safe H (lk_Unlock cs)" "safe H (lk_OrderTaken fits)" "safe H (lk_TakeOrder fits cs)" "safe H (lk_taking locked fits taken cs cs')"
proof -
  have calls: "safe (Mut_state # H) (lk_calls cs)" for cs
    using below_mono [OF assms, of 3] by (intro within_intro) simp
  show refresh: "safe H (lk_RunRefresh cs)" for cs
    unfolding lk_RunRefresh_def lk_InternalGetOrders_def lk_UpdateOwnOrders_def by (intro within_intro assms calls)
  show "safe H (lk_Add cs added cs')" "safe H (lk_RemoveById cs)" "safe H (lk_TakeOrder fits cs)"
    unfolding lk_Add_def lk_RemoveById_def lk_TakeOrder_def by (intro within_intro assms calls refresh)+
  show lock: "safe H (lk_TryLock res cs)" and unlock: "safe H (lk_Unlock cs)" and taken: "safe H (lk_OrderTaken fits)" for res cs fits
    unfolding lk_TryLock_def lk_Unlock_def lk_OrderTaken_def by (intro within_intro assms refresh)+
  show "safe H (lk_taking locked fits taken cs cs')"
    unfolding lk_taking_def by (intro within_intro lock unlock taken)
qed

lemma safe_trades:
  assumes "below 2 H"
  shows "tk \<in> taking_paths \<Longrightarrow> safe H (lk_ProcessMessage tk continues cs)" "fin \<in> finish_paths \<Longrightarrow> safe H fin"
    "set fins \<subseteq> finish_paths \<Longrightarrow> safe H (lk_UpdateAndArchiveTrades cs fins)"
proof -
  have calls: "safe (Mut_state # H) (lk_calls cs)" "safe H (lk_calls cs)" for cs
    using below_mono [OF assms, of 3] by (intro within_intro; simp)+
  show "safe H (lk_ProcessMessage tk continues cs)" if "tk \<in> taking_paths"
    using that unfolding lk_ProcessMessage_def by cases (auto intro!: within_intro assms calls)
  show fin: "safe H fin" if "fin \<in> finish_paths" for fin
    using that by cases (auto simp: lk_HandleSuccess_def lk_HandleFailure_def intro!: within_intro assms calls)
  show "safe H (lk_UpdateAndArchiveTrades cs fins)" if "set fins \<subseteq> finish_paths"
    unfolding lk_UpdateAndArchiveTrades_def using that by (intro within_intro assms calls) (auto intro: fin)
qed

declare safe_trades(1,3) [within_intro]

lemma safe_book [within_intro]:
  "below 2 H \<Longrightarrow> safe H lk_RunTimeout" "below 2 H \<Longrightarrow> safe H lk_UpdateOrders" "safe H (lk_Authenticate ok)"
  "safe H lk_SendProcessingMessage"
  by (auto simp: lk_RunTimeout_def lk_UpdateOrders_def lk_Authenticate_def lk_SendProcessingMessage_def lk_LookupJid_def
      intro!: within_intro)

lemma safe_replicate [within_intro]: "safe H xs \<Longrightarrow> safe H (concat (replicate n xs))"
  by (induction n) (auto intro: within_intro)

lemma safe_client [within_intro]:
  "below 1 H \<Longrightarrow> safe H (lk_DisconnectAsync d)" "below 1 H \<Longrightarrow> safe H (lk_Connect ok n)" "below 1 H \<Longrightarrow> safe H lk_finish_joining"
  "below 1 H \<Longrightarrow> safe H lk_ResolveNickname" "below 2 H \<Longrightarrow> safe H (lk_HandleDisconnect auth)"
  by (auto simp: lk_DisconnectAsync_def lk_Connect_def lk_finish_joining_def lk_ResolveNickname_def lk_HandleDisconnect_def
      list_all_iff intro!: within_intro)

lemma safe_ops: "xs \<in> daemon_ops \<Longrightarrow> safe [] xs"
  by (erule daemon_ops.cases)
    (auto simp: lk_handleMUCMessage_def lk_HandleMessage_def lk_own_presence_def lk_left_presence_def lk_announced_presence_def
      lk_handleMUCError_def lk_HandlePrivate_def lk_InternalGetByAsset_def lk_InternalGetOrders_def lk_GetTrades_def
      lk_rpc_stop_def lk_Run_def lk_Disconnect_def lk_round_def lk_stop_job_def intro!: within_intro)

interpretation daemon_locks: lock_discipline lock_rank guarded_by daemon_ops
  by unfold_locales (rule safe_ops)

lemma race_of_two: "1 < length s \<Longrightarrow> about_to (s ! 1) (Wr v) \<Longrightarrow> about_to (s ! 0) (Rd v) \<Longrightarrow> race v s"
  unfolding race_def by (intro exI [of _ 1] exI [of _ 0]) auto

section \<open>Properties\<close>

text \<open>
  C10: The mutexes of the daemon never deadlock. Take any number of threads, each of which does any
  sequence of callbacks, commands and rounds of jobs: in every state that they can get into, either
  all are done or one of them can take its next step.
\<close>

theorem mutexes_never_deadlock:
  assumes "runs thread_step (start (map concat progs)) es s" "\<forall>ops \<in> set progs. set ops \<subseteq> daemon_ops"
  shows "(\<forall>th \<in> set s. snd th = []) \<or> (\<exists>i t. thread_step i s t)"
  using daemon_locks.progress [OF daemon_locks.reachable_inv [OF assms]] by (metis in_set_conv_nth)

theorem mutexes_never_deadlock_witness:
  "\<exists>i t. thread_step i [([Mut_job Refresher], lk_RunRefresh [] @ [Rel (Mut_job Refresher)]), ([], lk_Add [] True [])] t"
proof -
  have "execute [0, 0] (start (map concat [[lk_round Refresher (lk_RunRefresh [])], [lk_Add [] True []]])) =
      Some [([Mut_job Refresher], lk_RunRefresh [] @ [Rel (Mut_job Refresher)]), ([], lk_Add [] True [])]"
    by code_simp
  moreover have "\<forall>ops \<in> set [[lk_round Refresher (lk_RunRefresh [])], [lk_Add [] True []]]. set ops \<subseteq> daemon_ops"
    by (simp add: op_refresh op_add)
  ultimately show ?thesis
    using mutexes_never_deadlock [OF execute_runs, of "[0, 0]" "[[lk_round Refresher (lk_RunRefresh [])], [lk_Add [] True []]]"]
    by fastforce
qed



end
