(* ===== verification/Lifetimes.thy ===== *)
theory Lifetimes
  imports DaemonLocks
begin

text \<open>
  When the parts of a daemon exist, and when its threads use them. The members of \<^verbatim>\<open>Daemon::Impl\<close>
  (\<^verbatim>\<open>src/src/daemon.cpp\<close>) are constructed in the order of their declaration and destroyed in the
  reverse order, after them the base class \<^verbatim>\<open>MucClient\<close>; meanwhile the jobs that some of them own and the
  callbacks of the XMPP client are running. The accesses are those of \<^verbatim>\<open>DaemonLocks\<close>, with the
  objects whose methods are called.

  The mutexes are not part of the steps here: they could only take runs away, and the runs that
  show a wrong use have one thread at a time.
\<close>

section \<open>The parts of a daemon\<close>

text \<open>
  The own orders are two parts: the base class \<^verbatim>\<open>MyOrders\<close>, whose constructor starts the job that
  refreshes them, and the class \<^verbatim>\<open>MyOrdersImpl\<close> with the virtual methods and the reference that they use. A
  virtual call while \<^verbatim>\<open>MyOrdersImpl\<close> is not there races with the change of the object's dynamic type: it goes to the
  method of the base class, which does not publish, or to the one of \<^verbatim>\<open>MyOrdersImpl\<close> with its reference not yet set.
\<close>

datatype part =
    P_client | P_state | P_auth | P_myOrders | P_myOrdersImpl | P_allOrders | P_xayaRpc | P_demGsp | P_trades | P_reconnecter

definition impl_parts :: "part list" where
  "impl_parts = [P_client, P_state, P_auth, P_myOrders, P_myOrdersImpl, P_allOrders, P_xayaRpc, P_demGsp, P_trades, P_reconnecter]"

text \<open>The part that owns a job, a mutex, and shared data; the RPC server and the asset specification are outside.\<close>

definition job_part :: "job \<Rightarrow> part" where
  "job_part j = (case j of Refresher \<Rightarrow> P_myOrders | Timeouter \<Rightarrow> P_allOrders | Updater \<Rightarrow> P_trades | Reconnecter \<Rightarrow> P_reconnecter)"

definition remote_part :: "remote \<Rightarrow> part" where
  "remote_part r = (case r of Xaya \<Rightarrow> P_xayaRpc | DemGsp \<Rightarrow> P_demGsp)"

definition mutex_part :: "mutex \<Rightarrow> part option" where
  "mutex_part m =
     (case m of Mut_job j \<Rightarrow> Some (job_part j) | Mut_stop \<Rightarrow> None | Mut_muc \<Rightarrow> Some P_client | Mut_state \<Rightarrow> Some P_state
      | Mut_book \<Rightarrow> Some P_allOrders | Mut_client r \<Rightarrow> Some (remote_part r) | Mut_nf \<Rightarrow> None)"

definition data_part :: "shared \<Rightarrow> part option" where
  "data_part v =
     (case v of V_job_stop j \<Rightarrow> Some (job_part j) | V_shouldStop \<Rightarrow> None | V_nickToJid \<Rightarrow> Some P_client
      | V_joining \<Rightarrow> Some P_client | V_state \<Rightarrow> Some P_state | V_orders \<Rightarrow> Some P_allOrders | V_updates \<Rightarrow> Some P_allOrders
      | V_rpcClients r \<Rightarrow> Some (remote_part r) | V_knownJids \<Rightarrow> Some P_auth)"

section \<open>What the operations use\<close>

text \<open>Calling a method of an object, or one of the accesses of \<^verbatim>\<open>DaemonLocks\<close>.\<close>

datatype usage = Object part | Access "(mutex, shared) access"

type_synonym uses = "usage list"

definition acc :: "accesses \<Rightarrow> uses" where
  "acc = map Access"

fun home :: "usage \<Rightarrow> part option" where
  "home (Object p) = Some p"
| "home (Access (Acq m)) = mutex_part m"
| "home (Access (Rel m)) = mutex_part m"
| "home (Access (Rd v)) = data_part v"
| "home (Access (Wr v)) = data_part v"

text \<open>
  A refresh calls the virtual methods: the validation if there are orders (\<open>v\<close>), and always
  \<^verbatim>\<open>UpdateOrders\<close>, whose implementation uses the daemon's state.
\<close>

definition virtual_call :: "bool \<Rightarrow> uses" where
  "virtual_call v = (if v then [Object P_myOrdersImpl] else [])"

definition use_RunRefresh :: "bool \<Rightarrow> remote option list \<Rightarrow> uses" where
  "use_RunRefresh v cs = Object P_myOrders # virtual_call v @ acc (AccessState (lk_calls cs) @ lk_InternalGetOrders) @
     Object P_myOrdersImpl # acc lk_UpdateOwnOrders @ [Object P_client]"

definition use_Add :: "remote option list \<Rightarrow> bool \<Rightarrow> bool \<Rightarrow> remote option list \<Rightarrow> uses" where
  "use_Add cs added v cs' = Object P_myOrders # virtual_call True @ acc (AccessState (lk_calls cs)) @
     (if added then use_RunRefresh v cs' else [])"

definition use_RemoveById :: "bool \<Rightarrow> remote option list \<Rightarrow> uses" where
  "use_RemoveById v cs = Object P_myOrders # acc (AccessState []) @ use_RunRefresh v cs"

definition use_TryLock :: "bool \<Rightarrow> bool \<Rightarrow> remote option list \<Rightarrow> uses" where
  "use_TryLock res v cs = Object P_myOrders # acc (AccessState []) @ (if res then use_RunRefresh v cs else [])"

definition use_Unlock :: "bool \<Rightarrow> remote option list \<Rightarrow> uses" where
  "use_Unlock v cs = Object P_myOrders # acc (AccessState []) @ use_RunRefresh v cs"

definition use_taking :: "bool \<Rightarrow> bool \<Rightarrow> bool \<Rightarrow> bool \<Rightarrow> remote option list \<Rightarrow> bool \<Rightarrow> remote option list \<Rightarrow> uses" where
  "use_taking locked fits taken v cs v' cs' = use_TryLock locked v cs @
     (if locked then acc (lk_OrderTaken fits) @ (if taken then [] else use_Unlock v' cs') else [])"

definition use_ProcessMessage :: "uses \<Rightarrow> bool \<Rightarrow> remote option list \<Rightarrow> uses" where
  "use_ProcessMessage tk continues cs = Object P_trades # tk @ (if continues then acc (AccessState (lk_calls cs)) else [])"

definition use_HandleSuccess ::
    "bool \<Rightarrow> bool \<Rightarrow> bool \<Rightarrow> remote option list \<Rightarrow> remote option list \<Rightarrow> bool \<Rightarrow> bool \<Rightarrow> remote option list \<Rightarrow> uses" where
  "use_HandleSuccess maker remaining v cs cs1 added v' cs2 =
     (if maker then use_RemoveById v cs @ (if remaining then use_Add cs1 added v' cs2 else []) else [])"

definition use_HandleFailure :: "bool \<Rightarrow> bool \<Rightarrow> remote option list \<Rightarrow> remote option list \<Rightarrow> uses" where
  "use_HandleFailure maker v cs cs' = (if maker then use_Unlock v cs else []) @ acc (lk_calls cs')"

definition use_UpdateAndArchiveTrades :: "remote option list \<Rightarrow> uses list \<Rightarrow> uses" where
  "use_UpdateAndArchiveTrades cs finished = Object P_trades # acc (AccessState (lk_calls cs)) @ concat finished"

definition use_HandleMessage :: "bool \<Rightarrow> bool \<Rightarrow> remote option list \<Rightarrow> uses" where
  "use_HandleMessage auth valid cs = Object P_auth # acc (lk_Authenticate auth) @
     (if auth \<and> valid then acc (lk_calls cs) @ Object P_allOrders # acc lk_UpdateOrders else [])"

definition use_HandlePrivate :: "bool \<Rightarrow> bool \<Rightarrow> uses \<Rightarrow> bool \<Rightarrow> uses" where
  "use_HandlePrivate auth valid process reply = Object P_auth # acc (lk_Authenticate auth) @
     (if auth \<and> valid then process @ (if reply then Object P_auth # acc lk_SendProcessingMessage @ [Object P_client] else []) else [])"

definition use_HandleDisconnect :: "bool \<Rightarrow> uses" where
  "use_HandleDisconnect auth = Object P_auth # acc (lk_Authenticate auth) @
     (if auth then Object P_allOrders # acc lk_UpdateOrders else [])"

definition use_room_message :: "bool \<Rightarrow> uses \<Rightarrow> uses" where
  "use_room_message known handle = Object P_client # acc lk_ResolveNickname @ (if known then handle else [])"

definition use_left_presence :: "bool \<Rightarrow> bool \<Rightarrow> uses" where
  "use_left_presence hasJid auth = Object P_client # acc [Acq Mut_muc, Wr V_nickToJid] @
     (if hasJid then use_HandleDisconnect auth else []) @ acc [Rel Mut_muc]"

definition use_round :: "job \<Rightarrow> uses \<Rightarrow> uses" where
  "use_round j body = acc [Acq (Mut_job j), Rd (V_job_stop j)] @ body @ acc [Rel (Mut_job j)]"

text \<open>Without the objects these are the programs of \<^verbatim>\<open>DaemonLocks\<close>.\<close>

fun erase :: "uses \<Rightarrow> accesses" where
  "erase [] = []"
| "erase (Object p # us) = erase us"
| "erase (Access a # us) = a # erase us"

lemma erase_append [simp]: "erase (us @ vs) = erase us @ erase vs"
  by (induction us rule: erase.induct) simp_all

lemma erase_acc [simp]: "erase (acc xs) = xs"
  by (induction xs) (simp_all add: acc_def)

lemma erase_virtual [simp]: "erase (virtual_call v) = []"
  by (simp add: virtual_call_def)

lemma erase_concat: "erase (concat uss) = concat (map erase uss)"
  by (induction uss) simp_all

lemma erase_orders [simp]:
  "erase (use_RunRefresh v cs) = lk_RunRefresh cs" "erase (use_Add cs added v cs') = lk_Add cs added cs'"
  "erase (use_RemoveById v cs) = lk_RemoveById cs" "erase (use_TryLock res v cs) = lk_TryLock res cs"
  "erase (use_Unlock v cs) = lk_Unlock cs"
proof -
  show r: "erase (use_RunRefresh v cs) = lk_RunRefresh cs" for v cs by (simp add: use_RunRefresh_def lk_RunRefresh_def)
  show "erase (use_Add cs added v cs') = lk_Add cs added cs'" "erase (use_RemoveById v cs) = lk_RemoveById cs"
    "erase (use_TryLock res v cs) = lk_TryLock res cs" "erase (use_Unlock v cs) = lk_Unlock cs"
    by (simp_all add: use_Add_def lk_Add_def use_RemoveById_def lk_RemoveById_def use_TryLock_def lk_TryLock_def
        use_Unlock_def lk_Unlock_def r)
qed

lemma erase_handlers:
  "erase (use_taking locked fits taken v cs v' cs') = lk_taking locked fits taken cs cs'"
  "erase (use_ProcessMessage tk continues cs) = lk_ProcessMessage (erase tk) continues cs"
  "erase (use_HandleSuccess maker remaining v cs cs1 added v' cs2) = lk_HandleSuccess maker remaining cs cs1 added cs2"
  "erase (use_HandleFailure maker v cs cs') = lk_HandleFailure maker cs cs'"
  "erase (use_UpdateAndArchiveTrades cs fins) = lk_UpdateAndArchiveTrades cs (map erase fins)"
  "erase (use_HandleMessage auth valid cs) = lk_HandleMessage auth valid cs"
  "erase (use_HandlePrivate auth valid process reply) = lk_HandlePrivate auth valid (erase process) reply"
  "erase (use_room_message known handle) = lk_handleMUCMessage known (erase handle)"
  "erase (use_left_presence hasJid auth) = lk_left_presence hasJid auth"
  "erase (use_round j body) = lk_round j (erase body)"
  by (simp_all add: use_taking_def lk_taking_def use_ProcessMessage_def lk_ProcessMessage_def use_HandleSuccess_def
      lk_HandleSuccess_def use_HandleFailure_def lk_HandleFailure_def use_UpdateAndArchiveTrades_def lk_UpdateAndArchiveTrades_def
      use_HandleMessage_def lk_HandleMessage_def use_HandlePrivate_def lk_HandlePrivate_def use_room_message_def
      lk_handleMUCMessage_def use_left_presence_def use_HandleDisconnect_def lk_HandleDisconnect_def lk_left_presence_def
      use_round_def lk_round_def guarded_def erase_concat)

section \<open>Threads\<close>

text \<open>The rounds of the jobs. The validation of the own orders only calls the asset specification.\<close>

inductive_set finish_uses :: "uses set" where
  success: "use_HandleSuccess maker remaining v cs cs1 added v' cs2 \<in> finish_uses"
| failure: "use_HandleFailure maker v cs cs' \<in> finish_uses"

inductive job_uses :: "job \<Rightarrow> uses \<Rightarrow> bool" where
  refresh: "job_uses Refresher (use_round Refresher (use_RunRefresh v (replicate n None)))"
| timeout: "job_uses Timeouter (use_round Timeouter (Object P_allOrders # acc lk_RunTimeout))"
| update: "set fin \<subseteq> finish_uses \<Longrightarrow> job_uses Updater (use_round Updater (use_UpdateAndArchiveTrades cs fin))"
| reconnect: "job_uses Reconnecter (use_round Reconnecter (Object P_client # acc (if connected then [] else lk_Connect xmppOk wakeups)))"

text \<open>The callbacks, which come on the thread of the XMPP client.\<close>

inductive_set callback_uses :: "uses set" where
  room_message: "use_room_message known (use_HandleMessage auth valid cs) \<in> callback_uses"
| private_message: "use_HandlePrivate auth valid (use_ProcessMessage [] continues cs) reply \<in> callback_uses"
| taking: "use_HandlePrivate auth valid
    (use_ProcessMessage (use_taking locked fits taken v cs v' cs') continues cs'') reply \<in> callback_uses"
| own_presence: "Object P_client # acc (lk_own_presence unavailable disconnecting) \<in> callback_uses"
| left_presence: "use_left_presence hasJid auth \<in> callback_uses"
| announced: "Object P_client # acc lk_announced_presence \<in> callback_uses"
| room_error: "Object P_client # acc (lk_handleMUCError disconnecting) \<in> callback_uses"

datatype worker = Callbacks | Worker job

record life =
  lf_parts :: "part list"
  lf_down :: bool
  lf_connected :: bool
  lf_busy :: "worker \<Rightarrow> uses"

definition life0 :: life where
  "life0 = \<lparr>lf_parts = [], lf_down = False, lf_connected = False, lf_busy = (\<lambda>_. [])\<rparr>"

text \<open>
  A part that owns a job is destroyed when the job's thread has been joined, and the client when
  its thread has ended. The job that reconnects is made by \<^verbatim>\<open>Daemon::Connect\<close>; callbacks come from when the client
  connects until it is destroyed.
\<close>

datatype life_event = EvConstruct | EvConnect | EvBegin worker | EvUse worker usage | EvDestroy

inductive life_step :: "life_event \<Rightarrow> life \<Rightarrow> life \<Rightarrow> bool" where
  construct: "\<not> lf_down s \<Longrightarrow> length (lf_parts s) < length impl_parts \<Longrightarrow> p = impl_parts ! length (lf_parts s) \<Longrightarrow>
    (p = P_reconnecter \<longrightarrow> lf_connected s) \<Longrightarrow> life_step EvConstruct s (s\<lparr>lf_parts := lf_parts s @ [p]\<rparr>)"
| connects: "\<not> lf_down s \<Longrightarrow> P_trades \<in> set (lf_parts s) \<Longrightarrow> life_step EvConnect s (s\<lparr>lf_connected := True\<rparr>)"
| begin_job: "job_part j \<in> set (lf_parts s) \<Longrightarrow> lf_busy s (Worker j) = [] \<Longrightarrow> job_uses j us \<Longrightarrow>
    life_step (EvBegin (Worker j)) s (s\<lparr>lf_busy := (lf_busy s)(Worker j := us)\<rparr>)"
| begin_callback: "lf_connected s \<Longrightarrow> P_client \<in> set (lf_parts s) \<Longrightarrow> lf_busy s Callbacks = [] \<Longrightarrow> us \<in> callback_uses \<Longrightarrow>
    life_step (EvBegin Callbacks) s (s\<lparr>lf_busy := (lf_busy s)(Callbacks := us)\<rparr>)"
| uses: "lf_busy s t = u # us \<Longrightarrow> life_step (EvUse t u) s (s\<lparr>lf_busy := (lf_busy s)(t := us)\<rparr>)"
| destroy: "lf_parts s = ps @ [p] \<Longrightarrow> (\<forall>j. job_part j = p \<longrightarrow> lf_busy s (Worker j) = []) \<Longrightarrow>
    (p = P_client \<longrightarrow> lf_busy s Callbacks = []) \<Longrightarrow> life_step EvDestroy s (s\<lparr>lf_parts := ps, lf_down := True\<rparr>)"

text \<open>Somebody can use a part that does not exist yet or not any more.\<close>

definition uses_dead :: "worker \<Rightarrow> part \<Rightarrow> bool" where
  "uses_dead t p \<longleftrightarrow> (\<exists>es s u s'. runs life_step life0 es s \<and> life_step (EvUse t u) s s' \<and> home u = Some p \<and> p \<notin> set (lf_parts s))"

section \<open>What each thread can touch\<close>

text \<open>All uses are of parts in \<open>A\<close>.\<close>

definition only :: "part set \<Rightarrow> uses \<Rightarrow> bool" where
  "only A us \<longleftrightarrow> (\<forall>u \<in> set us. pred_option (\<lambda>p. p \<in> A) (home u))"

lemma only_simps [simp]:
  "only A []" "only A (u # us) \<longleftrightarrow> pred_option (\<lambda>p. p \<in> A) (home u) \<and> only A us" "only A (us @ vs) \<longleftrightarrow> only A us \<and> only A vs"
  "acc [] = []" "acc (a # xs) = Access a # acc xs" "acc (xs @ ys) = acc xs @ acc ys"
  by (auto simp: only_def acc_def)

lemma part_simps [simp]:
  "job_part Refresher = P_myOrders" "job_part Timeouter = P_allOrders" "job_part Updater = P_trades" "job_part Reconnecter = P_reconnecter"
  "remote_part Xaya = P_xayaRpc" "remote_part DemGsp = P_demGsp"
  by (simp_all add: job_part_def remote_part_def)

lemma home_simps [simp]:
  "mutex_part (Mut_job j) = Some (job_part j)" "mutex_part Mut_muc = Some P_client" "mutex_part Mut_state = Some P_state"
  "mutex_part Mut_book = Some P_allOrders" "mutex_part (Mut_client r) = Some (remote_part r)" "mutex_part Mut_nf = None"
  "data_part (V_job_stop j) = Some (job_part j)" "data_part V_nickToJid = Some P_client" "data_part V_joining = Some P_client"
  "data_part V_state = Some P_state" "data_part V_orders = Some P_allOrders" "data_part V_updates = Some P_allOrders"
  "data_part (V_rpcClients r) = Some (remote_part r)" "data_part V_knownJids = Some P_auth"
  by (simp_all add: mutex_part_def data_part_def)

lemma only_mono: "only A us \<Longrightarrow> A \<subseteq> B \<Longrightarrow> only B us"
  by (auto simp: only_def elim!: option.pred_mono_strong)

lemma only_concat: "(\<And>us. us \<in> set uss \<Longrightarrow> only A us) \<Longrightarrow> only A (concat uss)"
  by (auto simp: only_def)

lemma only_calls: "{P_xayaRpc, P_demGsp} \<subseteq> A \<Longrightarrow> only A (acc (lk_calls cs))"
proof (induction cs)
  case (Cons c cs)
  then show ?case
    by (cases c; cases "the c") (auto simp: lk_calls_def lk_call_def lk_nf_call_def lk_deref_def guarded_def)
qed (simp add: lk_calls_def)

lemma only_spec_calls: "only A (acc (lk_calls (replicate n None)))"
  by (induction n) (simp_all add: lk_calls_def lk_call_def lk_nf_call_def guarded_def)

text \<open>The parts that the own orders and the trades are about.\<close>

definition own_parts :: "part set" where
  "own_parts = {P_client, P_state, P_myOrders, P_myOrdersImpl}"

definition trade_parts :: "part set" where
  "trade_parts = own_parts \<union> {P_xayaRpc, P_demGsp, P_trades}"

lemma only_state:
  "P_state \<in> A \<Longrightarrow> only A (acc f) \<Longrightarrow> only A (acc (AccessState f))" "P_state \<in> A \<Longrightarrow> only A (acc f) \<Longrightarrow> only A (acc (ReadState f))"
  by (simp_all add: AccessState_def ReadState_def guarded_def)

lemma only_orders:
  assumes "trade_parts \<subseteq> A"
  shows "only A (use_RunRefresh v cs)" "only A (use_Add cs added v cs')" "only A (use_RemoveById v cs)" "only A (use_TryLock res v cs)"
    "only A (use_Unlock v cs)" "only A (use_taking locked fits taken v cs v' cs')" "only A (acc (AccessState (lk_calls cs)))"
proof -
  have A: "{P_client, P_state, P_myOrders, P_myOrdersImpl, P_xayaRpc, P_demGsp, P_trades} \<subseteq> A"
    using assms by (auto simp: trade_parts_def own_parts_def)
  show calls: "only A (acc (AccessState (lk_calls cs)))" for cs using A by (intro only_state only_calls) auto
  have state: "only A (acc (AccessState []))" "only A (acc (ReadState []))" using A by (intro only_state; simp)+
  show refresh: "only A (use_RunRefresh v cs)" for v cs
    using A calls state by (simp add: use_RunRefresh_def virtual_call_def lk_InternalGetOrders_def lk_UpdateOwnOrders_def)
  then show add: "only A (use_Add cs added v cs')" "only A (use_RemoveById v cs)" and lock: "only A (use_TryLock res v cs)" "only A (use_Unlock v cs)" for v cs res
    using A calls state by (simp_all add: use_Add_def use_RemoveById_def use_TryLock_def use_Unlock_def virtual_call_def)
  show "only A (use_taking locked fits taken v cs v' cs')"
    using lock state by (simp add: use_taking_def lk_OrderTaken_def)
qed

text \<open>What the rounds of a job use besides the part that owns it.\<close>

definition job_parts :: "job \<Rightarrow> part set" where
  "job_parts j = (case j of Refresher \<Rightarrow> own_parts | Timeouter \<Rightarrow> {P_allOrders} | Updater \<Rightarrow> trade_parts | Reconnecter \<Rightarrow> {P_client, P_reconnecter})"

lemma only_client: "P_client \<in> A \<Longrightarrow> only A (acc (lk_Connect ok n))"
proof -
  assume A: "P_client \<in> A"
  have "only A (acc (concat (replicate n (guarded Mut_muc [Rd V_joining]))))"
    using A by (induction n) (simp_all add: guarded_def)
  then show ?thesis using A by (simp add: lk_Connect_def guarded_def)
qed

lemma job_only: "job_uses j us \<Longrightarrow> only (job_parts j) us"
proof (induction rule: job_uses.induct)
  case (refresh v n)
  have "only own_parts (acc (AccessState (lk_calls (replicate n None))))" "only own_parts (acc (ReadState []))"
    by (intro only_state only_spec_calls; simp add: own_parts_def)+
  then show ?case
    by (simp add: use_round_def use_RunRefresh_def virtual_call_def lk_InternalGetOrders_def lk_UpdateOwnOrders_def job_parts_def own_parts_def)
next
  case timeout
  show ?case by (simp add: use_round_def lk_RunTimeout_def guarded_def job_parts_def)
next
  case (update fin cs)
  have "only trade_parts us" if "us \<in> finish_uses" for us
    using that only_calls [of trade_parts] by cases (simp_all add: use_HandleSuccess_def use_HandleFailure_def only_orders trade_parts_def)
  then have "only trade_parts (concat fin)" using update by (intro only_concat) auto
  then show ?case by (simp add: use_round_def use_UpdateAndArchiveTrades_def job_parts_def only_orders trade_parts_def)
next
  case (reconnect connected ok n)
  show ?case using only_client [of "job_parts Reconnecter" ok n] by (simp add: use_round_def job_parts_def)
qed

lemma callback_only:
  assumes "us \<in> callback_uses"
  shows "only (- {P_reconnecter}) us"
  using assms
proof cases
  case (room_message known auth valid cs)
  then show ?thesis using only_calls [of "- {P_reconnecter}"]
    by (simp add: use_room_message_def use_HandleMessage_def lk_ResolveNickname_def lk_Authenticate_def lk_UpdateOrders_def guarded_def)
next
  case (private_message auth valid continues cs reply)
  then show ?thesis using only_orders [of "- {P_reconnecter}"]
    by (auto simp: use_HandlePrivate_def use_ProcessMessage_def lk_Authenticate_def lk_SendProcessingMessage_def lk_LookupJid_def
        trade_parts_def own_parts_def)
next
  case (taking auth valid locked fits taken v cs v' cs' continues cs'' reply)
  then show ?thesis using only_orders [of "- {P_reconnecter}"]
    by (auto simp: use_HandlePrivate_def use_ProcessMessage_def lk_Authenticate_def lk_SendProcessingMessage_def lk_LookupJid_def
        trade_parts_def own_parts_def)
qed (simp_all add: lk_own_presence_def lk_DisconnectAsync_def lk_finish_joining_def use_left_presence_def use_HandleDisconnect_def
    lk_Authenticate_def lk_UpdateOrders_def lk_announced_presence_def lk_handleMUCError_def guarded_def)

section \<open>The invariant\<close>

text \<open>
  The parts that exist are always a prefix of all; a job's thread is only busy while the part that owns
  it exists, and then so do all parts that it uses, with one exception.
\<close>

definition life_inv :: "life \<Rightarrow> bool" where
  "life_inv s \<longleftrightarrow> (\<exists>n. lf_parts s = take n impl_parts) \<and>
     (\<forall>j. lf_busy s (Worker j) \<noteq> [] \<longrightarrow> job_part j \<in> set (lf_parts s) \<and> only (job_parts j) (lf_busy s (Worker j))) \<and>
     (lf_busy s Callbacks \<noteq> [] \<longrightarrow> P_client \<in> set (lf_parts s) \<and> only (- {P_reconnecter}) (lf_busy s Callbacks))"

lemma life_inv0: "life_inv life0"
  by (auto simp: life_inv_def life0_def intro: exI [of _ 0])

lemma busy_job:
  "life_inv s \<Longrightarrow> lf_busy s (Worker j) = u # us \<Longrightarrow> job_part j \<in> set (lf_parts s) \<and> only (job_parts j) (u # us)"
  unfolding life_inv_def by (metis list.distinct(1))

lemma busy_callbacks:
  "life_inv s \<Longrightarrow> lf_busy s Callbacks = u # us \<Longrightarrow> P_client \<in> set (lf_parts s) \<and> only (- {P_reconnecter}) (u # us)"
  unfolding life_inv_def by (metis list.distinct(1))

lemma next_parts: "ps = take n impl_parts \<Longrightarrow> length ps < length impl_parts \<Longrightarrow> ps @ [impl_parts ! length ps] = take (Suc n) impl_parts"
  by (simp add: take_Suc_conv_app_nth min_def split: if_splits)

lemma last_gone: "ps @ [p] = take n impl_parts \<Longrightarrow> \<exists>k. ps = take k impl_parts"
  by (metis butlast_snoc butlast_conv_take take_take)

lemma life_step_inv:
  assumes "life_inv s" "life_step e s t"
  shows "life_inv t"
  using assms(2)
proof cases
  case (construct p)
  moreover from assms(1) obtain n where "lf_parts s = take n impl_parts" by (auto simp: life_inv_def)
  moreover from this construct(4,5) have "\<exists>n. lf_parts s @ [p] = take n impl_parts" using next_parts by metis
  ultimately show ?thesis using assms(1) by (auto simp: life_inv_def)
next
  case connects
  with assms(1) show ?thesis by (auto simp: life_inv_def)
next
  case (begin_job j us)
  with assms(1) job_only show ?thesis by (auto simp: life_inv_def)
next
  case (begin_callback us)
  with assms(1) callback_only show ?thesis by (auto simp: life_inv_def)
next
  case (uses w u us)
  have "life_inv (s\<lparr>lf_busy := (lf_busy s)(w := us)\<rparr>)"
    using assms(1) busy_job [OF assms(1)] busy_callbacks [OF assms(1)] uses(3) by (cases w) (simp_all add: life_inv_def)
  with uses show ?thesis by simp
next
  case (destroy ps p)
  moreover from assms(1) destroy(3) have "\<exists>n. ps = take n impl_parts" using last_gone by (metis life_inv_def)
  ultimately show ?thesis using assms(1) by (auto simp: life_inv_def)
qed

lemma life_reachable: "runs life_step life0 es s \<Longrightarrow> life_inv s"
  using runs_invariant [of life_step life0 es s life_inv] life_inv0 life_step_inv by blast

definition part_index :: "part \<Rightarrow> nat" where
  "part_index p = (case p of P_client \<Rightarrow> 0 | P_state \<Rightarrow> 1 | P_auth \<Rightarrow> 2 | P_myOrders \<Rightarrow> 3 | P_myOrdersImpl \<Rightarrow> 4
     | P_allOrders \<Rightarrow> 5 | P_xayaRpc \<Rightarrow> 6 | P_demGsp \<Rightarrow> 7 | P_trades \<Rightarrow> 8 | P_reconnecter \<Rightarrow> 9)"

lemma in_prefix: "p \<in> set (take n impl_parts) \<longleftrightarrow> part_index p < n"
  by (cases p) (auto simp: impl_parts_def part_index_def take_Cons' split: if_splits)

lemma job_parts_alive:
  assumes "job_part j \<in> set (take n impl_parts)" "p \<in> job_parts j"
  shows "p \<in> set (take n impl_parts) \<or> j = Refresher \<and> p = P_myOrdersImpl"
  using assms by (cases j) (auto simp: in_prefix job_parts_def trade_parts_def own_parts_def part_index_def)

text \<open>A job only uses parts that exist, except for the job that refreshes the own orders.\<close>

lemma job_uses_alive:
  assumes "life_inv s" "lf_busy s (Worker j) = u # us" "home u = Some p" "p \<notin> set (lf_parts s)"
  shows "j = Refresher \<and> p = P_myOrdersImpl"
proof -
  note j = busy_job [OF assms(1,2)]
  moreover from assms(1) obtain n where "lf_parts s = take n impl_parts" by (auto simp: life_inv_def)
  ultimately show ?thesis using job_parts_alive [of j n p] assms(3,4) by simp
qed

lemma callback_uses_alive:
  assumes "life_inv s" "lf_busy s Callbacks = u # us" "home u = Some p" "p \<notin> set (lf_parts s)"
  shows "p \<notin> {P_client, P_reconnecter}"
  using busy_callbacks [OF assms(1,2)] assms(3,4) by auto

inductive_cases life_useE: "life_step (EvUse t u) s s'"

section \<open>Runs with a wrong use\<close>

lemma run_uses:
  assumes "lf_busy s t = us @ vs"
  shows "\<exists>es. runs life_step s es (s\<lparr>lf_busy := (lf_busy s)(t := vs)\<rparr>)"
  using assms
proof (induction us arbitrary: s)
  case Nil
  then have eq: "(lf_busy s)(t := vs) = lf_busy s" by (simp add: fun_upd_idem)
  show ?case unfolding eq by (intro exI [of _ "[]"]) simp
next
  case (Cons u us)
  let ?s = "s\<lparr>lf_busy := (lf_busy s)(t := us @ vs)\<rparr>"
  from Cons.prems have "life_step (EvUse t u) s ?s" by (auto intro: life_step.uses)
  moreover have same: "?s\<lparr>lf_busy := (lf_busy ?s)(t := vs)\<rparr> = s\<lparr>lf_busy := (lf_busy s)(t := vs)\<rparr>" by (cases s) (simp add: fun_eq_iff)
  have "lf_busy ?s t = us @ vs" by simp
  from Cons.IH [OF this] obtain es where "runs life_step ?s es (s\<lparr>lf_busy := (lf_busy s)(t := vs)\<rparr>)" unfolding same by blast
  ultimately show ?case by (blast intro: runs_cons)
qed

text \<open>A round or a callback can begin and come to any of its uses.\<close>

lemma uses_deadI:
  assumes "runs life_step life0 es s" "life_step (EvBegin t) s (s\<lparr>lf_busy := (lf_busy s)(t := us)\<rparr>)" "u \<in> set us"
    "home u = Some p" "p \<notin> set (lf_parts s)"
  shows "uses_dead t p"
proof -
  from assms(3) obtain vs ws where us: "us = vs @ u # ws" by (auto simp: in_set_conv_decomp)
  let ?s = "s\<lparr>lf_busy := (lf_busy s)(t := us)\<rparr>" and ?t = "s\<lparr>lf_busy := (lf_busy s)(t := u # ws)\<rparr>"
  from run_uses [of ?s t vs "u # ws"] us obtain fs where "runs life_step ?s fs ?t" by auto
  with assms(1,2) have "runs life_step life0 (es @ EvBegin t # fs) ?t" by (auto simp: runs_append_iff intro: runs_cons)
  moreover have "life_step (EvUse t u) ?t (?t\<lparr>lf_busy := (lf_busy ?t)(t := ws)\<rparr>)" by (rule life_step.uses) simp
  moreover have "p \<notin> set (lf_parts ?t)" using assms(5) by simp
  ultimately show ?thesis using assms(4) unfolding uses_dead_def by blast
qed

text \<open>Building a daemon up to some part, and all of it down to the client.\<close>

lemma build:
  assumes "n \<le> 9"
  shows "runs life_step life0 (replicate n EvConstruct) (life0\<lparr>lf_parts := take n impl_parts\<rparr>)"
  using assms
proof (induction n)
  case 0
  then show ?case by (simp add: life0_def)
next
  case (Suc n)
  let ?s = "life0\<lparr>lf_parts := take n impl_parts\<rparr>"
  have len: "length impl_parts = 10" "impl_parts ! n \<noteq> P_reconnecter"
    using Suc.prems by (auto simp: impl_parts_def nth_Cons' split: if_splits)
  then have "life_step EvConstruct ?s (?s\<lparr>lf_parts := lf_parts ?s @ [impl_parts ! n]\<rparr>)"
    using Suc.prems by (intro life_step.construct) (simp_all add: life0_def min_def)
  moreover have "lf_parts ?s @ [impl_parts ! n] = take (Suc n) impl_parts" using Suc.prems len by (simp add: take_Suc_conv_app_nth)
  ultimately have "life_step EvConstruct ?s (life0\<lparr>lf_parts := take (Suc n) impl_parts\<rparr>)" by simp
  then have "runs life_step ?s [EvConstruct] (life0\<lparr>lf_parts := take (Suc n) impl_parts\<rparr>)" by (auto intro: runs.intros)
  moreover have "replicate (Suc n) EvConstruct = replicate n EvConstruct @ [EvConstruct]" by (simp add: replicate_append_same)
  moreover have "runs life_step life0 (replicate n EvConstruct) ?s" using Suc by simp
  ultimately show ?case by (simp only: runs_append_iff) blast
qed

lemma tear_down:
  assumes "lf_parts s = P_client # ps" "\<forall>t. lf_busy s t = []"
  shows "\<exists>es d. runs life_step s es (s\<lparr>lf_parts := [P_client], lf_down := d\<rparr>)"
  using assms
proof (induction ps arbitrary: s rule: rev_induct)
  case Nil
  then have "s\<lparr>lf_parts := [P_client], lf_down := lf_down s\<rparr> = s" by simp
  then show ?case by (metis runs_nil)
next
  case (snoc p ps)
  let ?s = "s\<lparr>lf_parts := P_client # ps, lf_down := True\<rparr>"
  from snoc.prems have "life_step EvDestroy s ?s" by (intro life_step.destroy [where p = p]) simp_all
  moreover from snoc.IH [of ?s] snoc.prems(2) obtain es d where "runs life_step ?s es (?s\<lparr>lf_parts := [P_client], lf_down := d\<rparr>)"
    by auto
  ultimately show ?case by (auto intro: runs_cons)
qed

text \<open>A daemon that was connected and of which only the base class is left.\<close>

lemma only_client_left:
  obtains es s where "runs life_step life0 es s" "lf_parts s = [P_client]" "lf_connected s" "lf_busy s = (\<lambda>_. [])"
proof -
  let ?s = "life0\<lparr>lf_parts := take 9 impl_parts\<rparr>"
  have parts: "take 9 impl_parts = P_client # [P_state, P_auth, P_myOrders, P_myOrdersImpl, P_allOrders, P_xayaRpc, P_demGsp, P_trades]"
    by (simp add: impl_parts_def take_Cons')
  have "life_step EvConnect ?s (?s\<lparr>lf_connected := True\<rparr>)" by (rule life_step.connects) (simp_all add: life0_def parts)
  moreover obtain fs d where "runs life_step (?s\<lparr>lf_connected := True\<rparr>) fs (?s\<lparr>lf_connected := True, lf_parts := [P_client], lf_down := d\<rparr>)"
    using tear_down [of "?s\<lparr>lf_connected := True\<rparr>"] by (auto simp: parts life0_def)
  moreover have "runs life_step life0 (replicate 9 EvConstruct) ?s" by (rule build) simp
  ultimately have "runs life_step life0 (replicate 9 EvConstruct @ EvConnect # fs)
      (?s\<lparr>lf_connected := True, lf_parts := [P_client], lf_down := d\<rparr>)"
    by (simp only: runs_append_iff runs_cons_iff) blast
  from that [OF this] show thesis by (simp add: life0_def)
qed

lemma callback_dead:
  assumes "us \<in> callback_uses" "u \<in> set us" "home u = Some p" "p \<noteq> P_client"
  shows "uses_dead Callbacks p"
proof -
  obtain es s where s: "runs life_step life0 es s" "lf_parts s = [P_client]" "lf_connected s" "lf_busy s = (\<lambda>_. [])"
    by (rule only_client_left)
  then have "life_step (EvBegin Callbacks) s (s\<lparr>lf_busy := (lf_busy s)(Callbacks := us)\<rparr>)"
    using assms(1) by (intro life_step.begin_callback) simp_all
  from uses_deadI [OF s(1) this assms(2,3)] s(2) assms(4) show ?thesis by simp
qed

lemma refresher_dead: "uses_dead (Worker Refresher) P_myOrdersImpl"
proof -
  let ?s = "life0\<lparr>lf_parts := take 4 impl_parts\<rparr>" and ?us = "use_round Refresher (use_RunRefresh False (replicate 0 None))"
  have parts: "take 4 impl_parts = [P_client, P_state, P_auth, P_myOrders]" by (simp add: impl_parts_def take_Cons')
  have "life_step (EvBegin (Worker Refresher)) ?s (?s\<lparr>lf_busy := (lf_busy ?s)(Worker Refresher := ?us)\<rparr>)"
    by (rule life_step.begin_job [OF _ _ job_uses.refresh]) (simp_all add: parts life0_def)
  from uses_deadI [OF build this, of "Object P_myOrdersImpl"] parts show ?thesis by (simp add: use_round_def use_RunRefresh_def)
qed

section \<open>Property\<close>


end
