(* ===== verification/TestEnv.thy ===== *)
theory TestEnv
  imports Mock Authenticator "HOL-Library.Product_Lexorder"
begin

text \<open>
  What surrounds the mock servers in the tests of the repository: the rest of \<^verbatim>\<open>mockxaya.cpp\<close> and
  \<^verbatim>\<open>mockxaya.hpp\<close>, the \<^verbatim>\<open>TestEnvironment\<close> of \<^verbatim>\<open>mockxaya.tpp\<close> that starts and stops them, and the test
  accounts of \<^verbatim>\<open>testutils.cpp\<close>. The HTTP servers of libjson-rpc-cpp and the string preparation
  that gloox applies to the parts of a JID are parameters.
\<close>

section \<open>Setters\<close>

definition SetBlock :: "uint256 \<Rightarrow> mock \<Rightarrow> mock" where
  "SetBlock hash m = m\<lparr>ta_currentHash := hash\<rparr>"

definition SetCurrentHeight :: "uint32 \<Rightarrow> mock \<Rightarrow> mock" where
  "SetCurrentHeight h m = m\<lparr>mg_currentHeight := h\<rparr>"

section \<open>The locked outputs\<close>

text \<open>The set is iterated in the order of its pairs; the index goes through \<^verbatim>\<open>Json::Int\<close>.\<close>

definition lock_json :: "string \<times> uint32 \<Rightarrow> json" where
  "lock_json entry = (case entry of (txid, vout) \<Rightarrow> jset ''vout'' (JInt (sint vout)) (jset ''txid'' (JStr txid) jempty))"

definition mock_listlockunspent :: "(mock, json) prog" where
  "mock_listlockunspent = bnd (gets mx_locked) (\<lambda>locked. ret (JArr (map lock_json (sort locked))))"

definition small_outputs :: "(string \<times> uint32) list \<Rightarrow> bool" where
  "small_outputs xs \<longleftrightarrow> (\<forall>(txid, vout) \<in> set xs. 0 \<le> sint vout)"

lemma sint_index: "0 \<le> sint (v :: uint32) \<Longrightarrow> convUInt (JInt (sint v)) = Ret v"
proof -
  assume "0 \<le> sint v"
  moreover have "sint v < 2 ^ 31" using sint_lt [of v] by simp
  ultimately have "isUInt (JInt (sint v))" by simp
  then show ?thesis by (simp add: convUInt_isUInt asUInt_def)
qed

lemma lock_one_json:
  assumes "0 \<le> sint (snd e)"
  shows "lock_one L unlock (lock_json e) m =
    (if unlock = (e \<in> set (mx_locked m))
     then (Ret (), m\<lparr>mx_locked := (if unlock then removeAll e (mx_locked m) else List.insert e (mx_locked m))\<rparr>)
     else (Throw (JsonRpcException (- 8) (if unlock then ''not locked'' else ''already locked'')), m))"
  using assms by (cases e) (simp add: lock_one_def lock_json_def sint_index bnd_run_Ret Let_def)

text \<open>Unlocking and locking the outputs of a list.\<close>

lemma unlock_listed:
  assumes "small_outputs xs" "distinct xs" "set xs \<subseteq> set (mx_locked m)"
  shows "mock_lockunspent L True (JArr (map lock_json xs)) m =
    (Ret True, m\<lparr>mx_locked := filter (\<lambda>e. e \<notin> set xs) (mx_locked m)\<rparr>)"
proof -
  have "for_each (lock_one L True) (map lock_json xs) m = (Ret (), m\<lparr>mx_locked := filter (\<lambda>e. e \<notin> set xs) (mx_locked m)\<rparr>)"
    using assms
  proof (induction xs arbitrary: m)
    case (Cons e xs)
    then have e: "0 \<le> sint (snd e)" "e \<in> set (mx_locked m)" by (auto simp: small_outputs_def)
    have "filter (\<lambda>x. x \<notin> set xs) (removeAll e (mx_locked m)) = filter (\<lambda>x. x \<notin> set (e # xs)) (mx_locked m)"
      by (auto simp: removeAll_filter_not_eq intro!: filter_cong)
    moreover have "set xs \<subseteq> set (removeAll e (mx_locked m))" "small_outputs xs" "distinct xs" using Cons.prems by (auto simp: small_outputs_def)
    ultimately show ?case using e Cons.IH [of "m\<lparr>mx_locked := removeAll e (mx_locked m)\<rparr>"]
      by (simp add: lock_one_json bnd_run_Ret)
  qed simp
  then show ?thesis by (simp add: mock_lockunspent_def isArray_def bnd_run_Ret)
qed

lemma lock_listed:
  assumes "small_outputs xs" "distinct xs" "set xs \<inter> set (mx_locked m) = {}"
  shows "mock_lockunspent L False (JArr (map lock_json xs)) m = (Ret True, m\<lparr>mx_locked := rev xs @ mx_locked m\<rparr>)"
proof -
  have "for_each (lock_one L False) (map lock_json xs) m = (Ret (), m\<lparr>mx_locked := rev xs @ mx_locked m\<rparr>)"
    using assms
  proof (induction xs arbitrary: m)
    case (Cons e xs)
    then have e: "0 \<le> sint (snd e)" "e \<notin> set (mx_locked m)" by (auto simp: small_outputs_def)
    have "set xs \<inter> set (e # mx_locked m) = {}" "small_outputs xs" "distinct xs" using Cons.prems by (auto simp: small_outputs_def)
    with e Cons.IH [of "m\<lparr>mx_locked := e # mx_locked m\<rparr>"] show ?case
      by (simp add: lock_one_json bnd_run_Ret)
  qed simp
  then show ?thesis by (simp add: mock_lockunspent_def isArray_def bnd_run_Ret)
qed

text \<open>What is listed as locked can be unlocked, and then nothing is locked any more.\<close>

lemma unlock_listing:
  assumes "distinct (mx_locked m)" "small_outputs (mx_locked m)"
  shows "bnd mock_listlockunspent (mock_lockunspent L True) m = (Ret True, m\<lparr>mx_locked := []\<rparr>)"
  using unlock_listed [of "sort (mx_locked m)" m L] assms
  by (simp add: mock_listlockunspent_def bnd_run_Ret small_outputs_def)

text \<open>After outputs were locked in an empty wallet, exactly they are listed, in order.\<close>

lemma list_after_lock:
  assumes "small_outputs xs" "distinct xs" "mx_locked m = []"
  shows "bnd (mock_lockunspent L False (JArr (map lock_json xs))) (\<lambda>_. mock_listlockunspent) m =
    (Ret (JArr (map lock_json (sort xs))), m\<lparr>mx_locked := rev xs\<rparr>)"
proof -
  have "sort (rev xs) = sort xs" using assms(2) by (intro sorted_distinct_set_unique) simp_all
  with lock_listed [OF assms(1,2), of m L] assms(3) show ?thesis by (simp add: mock_listlockunspent_def bnd_run_Ret)
qed

section \<open>Test accounts\<close>

record TestAccount =
  acc_name :: string
  acc_password :: string

record ServerConfiguration =
  sc_server :: string
  sc_muc :: string
  sc_accounts :: "TestAccount list"

definition LOCAL_SERVER :: ServerConfiguration where
  "LOCAL_SERVER = \<lparr>sc_server = ''localhost'', sc_muc = ''muc.localhost'',
     sc_accounts = [\<lparr>acc_name = ''xmpptest1'', acc_password = ''password''\<rparr>,
       \<lparr>acc_name = ''xmpptest2'', acc_password = ''password''\<rparr>, \<lparr>acc_name = ''xmpptest3'', acc_password = ''password''\<rparr>]\<rparr>"

definition GetServerConfig :: ServerConfiguration where
  "GetServerConfig = LOCAL_SERVER"

text \<open>The path of a file in a directory, by \<^verbatim>\<open>operator/\<close> of paths.\<close>

definition path_append :: "string \<Rightarrow> string \<Rightarrow> string" where
  "path_append dir nm = (if dir = [] \<or> last dir = CHR ''/'' then dir @ nm else dir @ ''/'' @ nm)"

definition GetTestCA :: "string \<Rightarrow> string" where
  "GetTestCA charon_prefix = path_append (path_append (path_append charon_prefix ''share'') ''charon'') ''testenv.pem''"

text \<open>The setters of gloox' JIDs prepare each part; an index outside of the array is undefined behaviour.\<close>

record jid_prep =
  prep_username :: "string \<Rightarrow> string"
  prep_server :: "string \<Rightarrow> string"
  prep_resource :: "string \<Rightarrow> string"

definition GetTestJid :: "jid_prep \<Rightarrow> nat \<Rightarrow> string \<Rightarrow> JID option" where
  "GetTestJid G n res =
     (let cfg = GetServerConfig in
      if n < length (sc_accounts cfg) then
        Some \<lparr>jid_username = prep_username G (acc_name (sc_accounts cfg ! n)), jid_server = prep_server G (sc_server cfg),
          jid_resource = prep_resource G res\<rparr>
      else None)"

definition GetPassword :: "nat \<Rightarrow> string option" where
  "GetPassword n = (if n < length (sc_accounts GetServerConfig) then Some (acc_password (sc_accounts GetServerConfig ! n)) else None)"

definition GetRoom :: "jid_prep \<Rightarrow> string \<Rightarrow> JID" where
  "GetRoom G nm = \<lparr>jid_username = prep_username G nm, jid_server = prep_server G (sc_muc GetServerConfig), jid_resource = []\<rparr>"

text \<open>The test accounts have different JIDs when the preparation leaves their names alone.\<close>

lemma test_jids_differ:
  assumes "\<forall>a \<in> set (sc_accounts GetServerConfig). prep_username G (acc_name a) = acc_name a"
    "GetTestJid G i r = Some j" "GetTestJid G k r' = Some j"
  shows "i = k"
proof -
  have names: "distinct (map acc_name (sc_accounts GetServerConfig))" by (simp add: GetServerConfig_def LOCAL_SERVER_def)
  have "i < length (sc_accounts GetServerConfig)" "k < length (sc_accounts GetServerConfig)"
    "acc_name (sc_accounts GetServerConfig ! i) = acc_name (sc_accounts GetServerConfig ! k)"
    using assms by (auto simp: GetTestJid_def Let_def split: if_splits)
  with names show ?thesis by (auto simp: distinct_conv_nth)
qed

section \<open>Ports\<close>

text \<open>The static counter is the state.\<close>

definition GetPortForMockServer :: "(uint32, int) prog" where
  "GetPortForMockServer = bnd (modifies (\<lambda>cnt. cnt + 1)) (\<lambda>_. bnd (gets id) (\<lambda>cnt. ret (uint (2000 + cnt mod 1000))))"

lemma port_word: "uint x < 1000 \<Longrightarrow> uint (2000 + x :: uint32) = 2000 + uint x"
  by (simp add: uint_word_ariths)

lemma uint_mod_1000: "uint (x mod 1000 :: uint32) = uint x mod 1000"
  by (simp add: uint_mod)

lemma port_eq: "GetPortForMockServer cnt = (Ret (2000 + uint (cnt + 1) mod 1000), cnt + 1)"
proof -
  have "uint x mod 1000 < 1000" for x :: uint32 by (rule pos_mod_bound) simp
  then have "uint (2000 + x mod 1000) = 2000 + uint x mod 1000" for x :: uint32
    using port_word [of "x mod 1000"] by (simp only: uint_mod_1000)
  then show ?thesis by (simp only: GetPortForMockServer_def bnd_modifies bnd_gets ret_run id_apply)
qed

lemma mod_1000_next: "(a + 1) mod 1000 \<noteq> a mod (1000 :: int)"
  by (simp add: mod_eq_dvd_iff)

lemma no_wrap: "(x :: uint32) \<noteq> - 1 \<Longrightarrow> uint (x + 1) = uint x + 1"
proof -
  assume "x \<noteq> - 1"
  then have "1 + x \<noteq> 0" using max_word_wrap [of x] by (auto simp: add.commute)
  then have "unat (1 + x) = Suc (unat x)" by (rule unatSuc)
  then have "int (unat (x + 1)) = int (unat x) + 1" by (simp add: add.commute)
  then show ?thesis by simp
qed

text \<open>Two calls in a row give different ports, also where the counter wraps around.\<close>

lemma next_port_differs: "fst (GetPortForMockServer cnt) \<noteq> fst (GetPortForMockServer (cnt + 1))"
proof (cases "cnt + 1 = - 1")
  case True
  have "uint (- 1 :: uint32) = 4294967295" by (simp add: unsigned_minus_1_eq_mask mask_eq_exp_minus_1)
  then show ?thesis by (simp add: port_eq True)
next
  case False
  then have "uint (cnt + 1 + 1) = uint (cnt + 1) + 1"
    using no_wrap [of "cnt + 1"] by simp
  then show ?thesis using mod_1000_next [of "uint (cnt + 1)", symmetric] by (simp only: port_eq fst_conv) simp
qed

section \<open>The environment of a test\<close>

text \<open>The HTTP servers, by port; the results of starting and stopping one are not looked at.\<close>

record 'w http =
  StartListening :: "int \<Rightarrow> ('w, bool) prog"
  StopListening :: "int \<Rightarrow> ('w, bool) prog"

record TestEnvironment =
  te_xayaPort :: int
  te_gspPort :: int
  te_xayaClient :: string
  te_gspClient :: string
  te_servers :: mock

definition GetEndpoint :: "int \<Rightarrow> string" where
  "GetEndpoint port = ''http://localhost:'' @ show_int port"

definition GetXayaEndpoint :: "TestEnvironment \<Rightarrow> string" where
  "GetXayaEndpoint te = GetEndpoint (te_xayaPort te)"

definition GetGspEndpoint :: "TestEnvironment \<Rightarrow> string" where
  "GetGspEndpoint te = GetEndpoint (te_gspPort te)"

definition new_environment :: "'w http \<Rightarrow> (uint32 \<times> 'w, TestEnvironment) prog" where
  "new_environment H =
     bnd (onL GetPortForMockServer) (\<lambda>xayaPort.
     bnd (onL GetPortForMockServer) (\<lambda>gspPort.
     bnd (onW (StartListening H xayaPort)) (\<lambda>_.
     bnd (onW (StartListening H gspPort)) (\<lambda>_.
     ret \<lparr>te_xayaPort = xayaPort, te_gspPort = gspPort, te_xayaClient = GetEndpoint xayaPort,
       te_gspClient = GetEndpoint gspPort, te_servers = new_mock\<rparr>))))"

definition destroy_environment :: "'w http \<Rightarrow> TestEnvironment \<Rightarrow> ('w, unit) prog" where
  "destroy_environment H te =
     bnd (StopListening H (te_xayaPort te)) (\<lambda>_. bnd (StopListening H (te_gspPort te)) (\<lambda>_. ret ()))"

text \<open>The two servers of an environment have different ports, and the clients use the ports of their server.\<close>

lemma environment_ports:
  assumes "new_environment H (cnt, w) = (Ret te, s)"
  shows "te_xayaPort te \<noteq> te_gspPort te" "{te_xayaPort te, te_gspPort te} \<subseteq> {2000..<3000}"
    "te_xayaClient te = GetXayaEndpoint te" "te_gspClient te = GetGspEndpoint te" "fst s = cnt + 1 + 1"
proof -
  let ?p = "2000 + uint (cnt + 1) mod 1000" and ?q = "2000 + uint (cnt + 1 + 1) mod 1000"
  from assms have te: "te_xayaPort te = ?p" "te_gspPort te = ?q" "te_xayaClient te = GetEndpoint ?p" "te_gspClient te = GetEndpoint ?q"
      "fst s = cnt + 1 + 1"
    by (auto simp: new_environment_def bnd_Ret_iff onL_def port_eq onW_def split: prod.splits)
  show "te_xayaPort te \<noteq> te_gspPort te" using te(1,2) next_port_differs [of cnt] by (simp add: port_eq)
  have "uint x mod 1000 < 1000" "0 \<le> uint x mod 1000" for x :: uint32 by (rule pos_mod_bound, simp) (rule pos_mod_sign, simp)
  then show "{te_xayaPort te, te_gspPort te} \<subseteq> {2000..<3000}" using te(1,2) by (simp add: add_strict_left_mono [of _ 1000 2000, simplified])
  show "te_xayaClient te = GetXayaEndpoint te" "te_gspClient te = GetGspEndpoint te" "fst s = cnt + 1 + 1"
    using te by (simp_all add: GetXayaEndpoint_def GetGspEndpoint_def)
qed

end
