(* ===== verification/TradeLimits.thy ===== *)
theory TradeLimits
  imports ManagerProps JsonConv
begin

text \<open>
  The units of a trade. A trade is started for an order that passed \<^verbatim>\<open>CheckOrder\<close>, on both sides; this
  theory shows that the check still holds for every active trade later, and what it says of the
  numbers, which are unsigned in the order and signed in the check.
\<close>

definition within_limits :: "TradeState \<Rightarrow> bool" where
  "within_limits t \<longleftrightarrow> CheckOrder (ts_order t) (dflt 0 (ts_units t))"

definition all_within :: "TradeState list \<Rightarrow> bool" where
  "all_within ts \<longleftrightarrow> (\<forall>t \<in> set ts. within_limits t)"

lemma all_within_simps [simp]: "all_within []" "all_within (ts @ us) \<longleftrightarrow> all_within ts \<and> all_within us" "all_within [t] \<longleftrightarrow> within_limits t"
  by (auto simp: all_within_def)

lemma within_terms: "terms t = terms u \<Longrightarrow> within_limits t \<longleftrightarrow> within_limits u"
  by (simp add: within_limits_def terms_def)

lemma within_new: "CheckOrder ord units \<Longrightarrow> within_limits (new_trade ord now units other)"
  by (simp add: within_limits_def)

lemma within_update: "all_within ts \<Longrightarrow> within_limits t \<Longrightarrow> all_within (ts[i := t])"
  by (auto simp: all_within_def dest: set_update_subset_insert [THEN subsetD])

section \<open>Every operation keeps the limits\<close>

abbreviation limited :: "State \<times> 'w \<Rightarrow> bool" where
  "limited \<equiv> \<lambda>sw. all_within (st_trades (fst sw))"

text \<open>The operations on the own orders do not touch the trades.\<close>

lemma limited_frame: "(\<And>P. keeps (\<lambda>sw. P (frame (fst sw))) m) \<Longrightarrow> keeps limited m"
proof -
  assume "\<And>P. keeps (\<lambda>sw. P (frame (fst sw))) m"
  from this [of "\<lambda>(a, ts, ar). all_within ts"] show "keeps limited m" by (simp add: frame_def)
qed

lemma limited_own: "keeps limited (TryLock V oid)" "keeps limited (Unlock V oid)"
  by (rule limited_frame, rule TryLock_frame Unlock_frame)+

lemma limited_taken: "keeps limited (OrderTaken TM ord units other)"
  by (rule keepsI) (auto simp: OrderTaken_def bnd_def onW_def Let_def checked_def within_new split: if_splits prod.splits outcome.splits)

lemma limited_matching: "keeps limited (process_matching TM msg)"
proof (rule keepsI)
  fix s r s'
  assume inv: "limited s" and run: "process_matching TM msg s = (r, s')"
  show "limited s'"
  proof (cases "first_match msg 0 (st_trades (fst s))")
    case None
    with inv run show ?thesis by (auto simp: process_matching_def)
  next
    case (Some i)
    let ?acc = "state_account (fst s)" and ?t = "st_trades (fst s) ! i"
    obtain r' pb' w' where h: "HasReply TM ?acc (HandleMessage ?acc msg ?t, snd s) = (r', (pb', w'))" by (metis prod.collapse)
    have "terms pb' = terms ?t" using HasReply_forward [OF h] by (simp add: terms_def)
    moreover have "within_limits ?t" using inv Some by (auto simp: first_match_Some all_within_def)
    ultimately have "within_limits pb'" using within_terms by blast
    moreover have "st_trades (fst s') = (st_trades (fst s))[i := pb']"
      using run Some h by (cases s) (auto simp: process_matching_def catch_def onTrade_def bnd_def split: prod.splits outcome.splits)
    ultimately show ?thesis using inv by (simp add: within_update)
  qed
qed

lemma limited_process: "keeps limited (ProcessMessage TM msg)"
  unfolding ProcessMessage_def
  by (auto intro!: keeps_intro limited_own limited_taken limited_matching split: option.splits)

lemma limited_take:
  assumes "all_within (st_trades s)" "TakeOrder TM ord units (s, w) = (Ret m, (s', w'))"
  shows "all_within (st_trades s')"
proof (cases m)
  case None
  with assms show ?thesis by (auto dest: TakeOrder_None)
next
  case (Some msg)
  from assms(2) [unfolded Some] show ?thesis
  proof (cases rule: TakeOrder_Some)
    case (1 now w1 reply pb)
    from HasReply_forward [OF 1(3)] have "terms pb = terms (new_trade ord now units (dflt [] (order_account ord)))" by simp
    then have "within_limits pb" using within_new [OF 1(1)] within_terms by blast
    with assms(1) 1(4) show ?thesis by simp
  qed
qed

lemma limited_update:
  assumes "all_within (st_trades s)" "UpdateAndArchiveTrades TM (s, w) = (Ret (), (s', w'))"
  shows "all_within (st_trades s')"
  using assms(2)
proof (rule UpdateAndArchiveTrades_Ret)
  fix ts' s1 w1
  assume upd: "list_all2 (updated TM) (st_trades s) ts'" and "frame s' = frame s1"
    and "s1 = s\<lparr>st_trades := filter (\<lambda>t. \<not> IsFinalised t) ts',
      st_trade_archive := st_trade_archive s @ map (GetPublicInfo (state_account s)) (filter IsFinalised ts')\<rparr>"
  then have trades: "st_trades s' = filter (\<lambda>t. \<not> IsFinalised t) ts'" by (simp add: frame_def)
  have "within_limits t'" if "t' \<in> set ts'" for t'
    using list_all2_in_right [OF upd that] assms(1) updated_props(1) within_terms by (metis all_within_def)
  then show ?thesis unfolding trades by (auto simp: all_within_def)
qed

lemma limited_step: "all_within (st_trades s) \<Longrightarrow> manager_step TM e s s' \<Longrightarrow> all_within (st_trades s')"
proof (erule manager_step.cases)
  fix ev s1 s2
  assume "all_within (st_trades s)" "s = s1" "s' = s2" "own_step (tm_myOrders TM) ev s1 s2"
  then show ?thesis using frame_fields(2) [OF own_step_frame] by metis
next
  fix msg s1 w m s2 w'
  assume "all_within (st_trades s)" "s = s1" "s' = s2" "ProcessMessage TM msg (s1, w) = (Ret m, (s2, w'))"
  then show ?thesis using keepsD [OF limited_process] by fastforce
qed (auto intro: limited_take limited_update)

section \<open>Property\<close>

text \<open>
  C22: The units of a trade stay within the limits of its order. In every reachable state of the
  manager, each active trade is about a complete order, and its units are at least the minimum and at
  most the maximum of the order, as the signed numbers that the code compares. If the order is sane
  (the minimum is not above the maximum, and that is below \<open>2 ^ 63\<close>), then this also holds for the
  unsigned numbers that are stored, so the subtraction that reduces the order after a success does not wrap around.
\<close>

theorem units_within_limits:
  assumes "runs (manager_step TM) (init_state account) es s" "t \<in> set (st_trades s)"
  shows "has (order_account (ts_order t)) \<and> has (order_id (ts_order t)) \<and> has (order_asset (ts_order t)) \<and>
    has (order_type (ts_order t)) \<and> has (order_price_sat (ts_order t)) \<and>
    sint (dflt 0 (order_min_units (ts_order t))) \<le> sint (dflt 0 (ts_units t)) \<and>
    sint (dflt 0 (ts_units t)) \<le> sint (dflt 0 (order_max_units (ts_order t))) \<and>
    (dflt 0 (order_min_units (ts_order t)) \<le> dflt 0 (order_max_units (ts_order t)) \<and> uint (dflt 0 (order_max_units (ts_order t))) < 2 ^ 63 \<longrightarrow>
       dflt 0 (order_min_units (ts_order t)) \<le> dflt 0 (ts_units t) \<and> dflt 0 (ts_units t) \<le> dflt 0 (order_max_units (ts_order t)) \<and>
       uint (dflt 0 (order_max_units (ts_order t)) - dflt 0 (ts_units t)) =
         uint (dflt 0 (order_max_units (ts_order t))) - uint (dflt 0 (ts_units t)))"
proof -
  let ?lo = "dflt 0 (order_min_units (ts_order t))" and ?hi = "dflt 0 (order_max_units (ts_order t))" and ?u = "dflt 0 (ts_units t)"
  have "all_within (st_trades s)"
    using runs_invariant [OF assms(1), of "\<lambda>s. all_within (st_trades s)"] limited_step by (simp add: init_state_def) blast
  then have check: "CheckOrder (ts_order t) ?u" using assms(2) by (simp add: all_within_def within_limits_def)
  then have signed: "sint ?lo \<le> sint ?u" "sint ?u \<le> sint ?hi" by (auto simp: CheckOrder_def split: if_splits)
  have "?lo \<le> ?u \<and> ?u \<le> ?hi \<and> uint (?hi - ?u) = uint ?hi - uint ?u" if sane: "?lo \<le> ?hi" "uint ?hi < 2 ^ 63"
  proof -
    have pos: "sint ?hi = uint ?hi" "sint ?lo = uint ?lo"
      using sane by (auto intro!: sint_eq_uint64 simp: word_le_def)
    then have "\<not> sint ?u < 0" using signed(1) uint_ge_0 [of ?lo] by linarith
    then have "sint ?u = uint ?u" using sint_big sint_eq_uint64 by blast
    with pos signed have le: "?lo \<le> ?u" "?u \<le> ?hi" by (simp_all add: word_le_def)
    then show ?thesis using uint_sub_lem [of ?u ?hi] by (simp add: word_le_def)
  qed
  with check signed show ?thesis by (auto simp: CheckOrder_def split: if_splits)
qed

theorem units_within_limits_witness:
  "dflt 0 (ts_units taken_trade) \<le> dflt 0 (order_max_units (ts_order taken_trade)) \<and>
   uint (dflt 0 (order_max_units (ts_order taken_trade)) - dflt 0 (ts_units taken_trade)) =
     uint (dflt 0 (order_max_units (ts_order taken_trade))) - uint (dflt 0 (ts_units taken_trade))"
proof -
  have run: "runs (manager_step sample_tm) (init_state ''seller'')
      [OwnOrder (EvAdd sample_order), Processes taking_msg (Some data_reply)] sold"
    using selling_step m_process [OF taking_run] by (auto simp: runs_cons_iff)
  have c: "taken_trade \<in> set (st_trades sold)"
      "dflt 0 (order_min_units (ts_order taken_trade)) \<le> dflt 0 (order_max_units (ts_order taken_trade)) \<and>
       uint (dflt 0 (order_max_units (ts_order taken_trade))) < 2 ^ 63"
    by code_simp+
  from units_within_limits [OF run c(1)] c(2) show ?thesis by blast
qed

end
