(* ===== verification/Refreshing.thy ===== *)
theory Refreshing
  imports OrderBook
begin

text \<open>
  How long offers are shown. A daemon publishes its own orders whenever they change, and again with each round of
  the job that refreshes them (\<^verbatim>\<open>daemon.cpp\<close>, \<^verbatim>\<open>myorders.cpp\<close>); the order book of another
  daemon forgets them when it has not heard of them for the timeout, in a round of its own job
  (\<^verbatim>\<open>orderbook.hpp\<close>). This theory reads the book off the history of the events, and shows that
  the intervals of the two jobs fit together. Times are in milliseconds.
\<close>

section \<open>The intervals of the jobs\<close>

text \<open>The constructor of \<^verbatim>\<open>MyOrdersImpl\<close> divides the timeout; \<^verbatim>\<open>std::chrono\<close> rounds towards zero.\<close>

definition refresh_intv :: "int \<Rightarrow> int" where
  "refresh_intv timeout = timeout sdiv 2"

definition MAX_TIMEOUT_INTV :: int where
  "MAX_TIMEOUT_INTV = 5 * 1000"

definition timeout_intv :: "int \<Rightarrow> int" where
  "timeout_intv timeout = (if MAX_TIMEOUT_INTV > timeout then timeout else MAX_TIMEOUT_INTV)"

lemma refresh_half: "0 \<le> timeout \<Longrightarrow> 2 * refresh_intv timeout \<le> timeout"
  by (cases "timeout = 0") (simp_all add: refresh_intv_def signed_divide_int_def sgn_if)

lemma timeout_intv_bound: "timeout_intv timeout \<le> timeout" "timeout_intv timeout \<le> MAX_TIMEOUT_INTV"
  by (simp_all add: timeout_intv_def)

section \<open>The book as a function of its history\<close>

text \<open>
  What the events say of an account: its last message, when that came, and whether it was
  older than the timeout at some round of the job since.
\<close>

type_synonym heard = "(OrdersOfAccount \<times> int \<times> bool) option"

definition hear :: "int \<Rightarrow> string \<Rightarrow> book_event \<Rightarrow> heard \<Rightarrow> heard" where
  "hear timeout acc e h =
     (case e of
        Updated upd t \<Rightarrow> if ooa_account upd = Some acc then Some (upd, t, False) else h
      | TimedOut t \<Rightarrow> map_option (\<lambda>(upd, t0, old). (upd, t0, old \<or> timeout < t - t0)) h)"

definition heard_of :: "int \<Rightarrow> string \<Rightarrow> book_event list \<Rightarrow> heard" where
  "heard_of timeout acc es = fold (hear timeout acc) es None"

definition shown :: "heard \<Rightarrow> AccountOrders option" where
  "shown h =
     (case h of
        None \<Rightarrow> None
      | Some (upd, t, old) \<Rightarrow>
          if old \<or> ooa_orders upd = [] then None
          else Some \<lparr>ao_orders = upd\<lparr>ooa_account := None\<rparr>, ao_lastUpdate = t\<rparr>)"

lemma heard_of_simps [simp]:
  "heard_of timeout acc [] = None" "heard_of timeout acc (es @ [e]) = hear timeout acc e (heard_of timeout acc es)"
  by (simp_all add: heard_of_def)

lemma shown_step:
  assumes "spec_step timeout e (m, now) (m', now')" "m acc = shown h"
  shows "m' acc = shown (hear timeout acc e h)"
  using assms by cases (auto simp: shown_def hear_def split: option.splits)

lemma spec_clock: "spec_step timeout e (m, now) (m', now') \<Longrightarrow> now \<le> now' \<and> (e = TimedOut now' \<or> (\<exists>upd. e = Updated upd now'))"
  by (erule spec_step.cases) auto

text \<open>The times: nothing is later than the clock, and a round that is late enough has seen that the message is old.\<close>

definition history_ok :: "int \<Rightarrow> string \<Rightarrow> book_event list \<Rightarrow> int \<Rightarrow> bool" where
  "history_ok timeout acc es now \<longleftrightarrow> (\<forall>t. TimedOut t \<in> set es \<longrightarrow> t \<le> now) \<and>
     (\<forall>upd a old. heard_of timeout acc es = Some (upd, a, old) \<longrightarrow> a \<le> now \<and> (old \<longrightarrow> timeout < now - a) \<and>
       (\<forall>t. TimedOut t \<in> set es \<longrightarrow> timeout < t - a \<longrightarrow> old))"

lemma history_step:
  assumes "history_ok timeout acc es now" "now \<le> now'" "e = TimedOut now' \<or> (\<exists>upd. e = Updated upd now')" "0 \<le> timeout"
  shows "history_ok timeout acc (es @ [e]) now'"
  using assms by (fastforce simp: history_ok_def hear_def split: if_splits)

lemma spec_history:
  assumes "runs (spec_step timeout) (Map.empty, t0) es (m, now)" "0 \<le> timeout"
  shows "m acc = shown (heard_of timeout acc es) \<and> history_ok timeout acc es now"
  using assms(1)
proof (induction es arbitrary: m now rule: rev_induct)
  case Nil
  then show ?case by (simp add: shown_def history_ok_def)
next
  case (snoc e es)
  then obtain m1 n1 where run: "runs (spec_step timeout) (Map.empty, t0) es (m1, n1)" and step: "spec_step timeout e (m1, n1) (m, now)"
    by (auto simp: runs_append_iff runs_cons_iff)
  from snoc.IH [OF run] step spec_clock [OF step] assms(2) show ?case
    by (auto intro: shown_step history_step)
qed

lemma book_history:
  assumes "runs book_step (new_book timeout, t0) es (b, now)" "0 \<le> timeout"
  shows "map_of (ob_orders b) acc = shown (heard_of timeout acc es)" "history_ok timeout acc es now"
proof -
  have "runs (spec_step timeout) (Map.empty, t0) es (map_of (ob_orders b), now)"
    using book.sim_runs [OF assms(1) new_book_inv] by (simp add: book_abs_def new_book_def)
  from spec_history [OF this assms(2)] show "map_of (ob_orders b) acc = shown (heard_of timeout acc es)" "history_ok timeout acc es now"
    by simp_all
qed

section \<open>Property\<close>

text \<open>
  C19: Offers are shown while their owner refreshes them, and vanish when it does not. Let the last
  message of an account with orders be sent at some time and arrive with some delay. As long as the next
  refresh is not overdue by more than half of the timeout (for the work of a round and the delivery), the book has
  exactly the orders of that message. And if there is no further message, they are gone
  when the timeout and the interval between the rounds of the book have passed, however late
  (by \<open>late\<close>) the rounds come.
\<close>

theorem offers_follow_refreshes:
  assumes "runs book_step (new_book timeout, t0) es (b, now)" "0 \<le> timeout"
    "heard_of timeout acc es = Some (upd, sent + delay, old)" "ooa_orders upd \<noteq> []" "0 \<le> delay"
  shows "(now \<le> sent + refresh_intv timeout + overdue \<and> overdue \<le> refresh_intv timeout \<longrightarrow>
       map_of (ob_orders b) acc = Some \<lparr>ao_orders = upd\<lparr>ooa_account := None\<rparr>, ao_lastUpdate = sent + delay\<rparr>) \<and>
    (TimedOut t \<in> set es \<and> now \<le> t + timeout_intv timeout + late \<and> sent + delay + timeout + timeout_intv timeout + late < now \<longrightarrow>
       map_of (ob_orders b) acc = None)"
proof -
  note h = book_history(1) [OF assms(1,2), of acc] book_history(2) [OF assms(1,2), of acc, unfolded history_ok_def]
  have "\<not> old" if "now \<le> sent + refresh_intv timeout + overdue" "overdue \<le> refresh_intv timeout"
    using that refresh_half [OF assms(2)] h(2) assms(3,5) by fastforce
  moreover have "old" if "TimedOut t \<in> set es" "now \<le> t + timeout_intv timeout + late"
      "sent + delay + timeout + timeout_intv timeout + late < now"
  proof -
    have "timeout < t - (sent + delay)" using that(2,3) by linarith
    with that(1) h(2) assms(3) show ?thesis by blast
  qed
  ultimately show ?thesis using h(1) assms(3,4) by (auto simp: shown_def)
qed

text \<open>Two accounts with offers; the round of the book at 15 finds one of them too old.\<close>

theorem offers_follow_refreshes_witness:
  "map_of (ob_orders (RunTimeout 15 sample_book)) ''a'' = None \<and>
   map_of (ob_orders (RunTimeout 15 sample_book)) ''b'' =
     Some \<lparr>ao_orders = (sample_update ''b'')\<lparr>ooa_account := None\<rparr>, ao_lastUpdate = 8\<rparr>"
proof -
  have heard: "heard_of 10 ''a'' sample_events = Some (sample_update ''a'', 3 + 0, True)"
      "heard_of 10 ''b'' sample_events = Some (sample_update ''b'', 6 + 2, False)" by code_simp+
  have c: "ooa_orders (sample_update acc) \<noteq> []" "refresh_intv 10 = 5" "timeout_intv 10 = 10" "TimedOut 15 \<in> set sample_events" for acc
    by (simp_all add: sample_update_def refresh_intv_def timeout_intv_def MAX_TIMEOUT_INTV_def sample_events_def)
  from offers_follow_refreshes [OF sample_book_runs _ heard(1) c(1), of 0 15 "- 10"]
    offers_follow_refreshes [OF sample_book_runs _ heard(2) c(1), of 4] c(2-4) show ?thesis by simp
qed

end
