(* ===== verification/Spec2Isabelle.thy ===== *)
theory Spec2Isabelle
  imports Programs Threads Completion Lifetimes TestEnv TradeLimits Refreshing
begin

text \<open>
  Democrit is a marketplace for game assets on the Xaya platform. Traders announce orders in
  an XMPP chat room and settle a trade in one blockchain transaction, in which the buyer pays
  and the seller's name sends the asset. The program runs as a daemon (\<^verbatim>\<open>src/src\<close>) next to
  Xaya Core, beside a small game state processor \<^verbatim>\<open>g/dem\<close> (\<^verbatim>\<open>src/gsp\<close>) that knows which trade
  transactions are confirmed; \<^verbatim>\<open>src/nonfungible\<close> is the daemon for the game of that name.
  This development models all of these and proves what makes them correct.

  \<^bold>\<open>How the code is modelled.\<close> A C++ function with effects is a program \<open>('s, 'a) prog\<close>, a function
  from a state to an outcome and a new state (\<^verbatim>\<open>Prelude\<close>). The outcome is \<open>Ret\<close> a value, \<open>Throw\<close>
  a JSON-RPC exception, or \<open>Fatal\<close>: a failed \<^verbatim>\<open>CHECK\<close>, which ends the process. So every error path
  of the code is a branch of a definition, and the state after an exception is the one that
  the code leaves behind. Integers keep their width (\<open>uint64\<close> is \<open>64 word\<close>, \<open>Amount\<close> a
  signed one); protocol buffers are records whose optional fields are options (\<^verbatim>\<open>Protos\<close>); JSON
  values are a datatype with the operations of jsoncpp (\<^verbatim>\<open>JsonValue\<close>). What is not part of the
  repository is a parameter: \<^verbatim>\<open>Env\<close> has the RPC interfaces of Xaya Core and \<^verbatim>\<open>g/dem\<close>, the clock and
  library conversions as a record of programs over a world of any type, and the asset
  specification likewise. Loops are structural recursion (\<open>for_each\<close>, \<open>fold_prog\<close>) or bounded as
  in the code (the search for a block's ancestors stops after
  \<^verbatim>\<open>MAX_BLOCK_ANCESTORS_CHECKED\<close> steps), so all functions are total and no fuel is needed.

  \<^bold>\<open>The parts and their theories.\<close>

  \<^item> \<^verbatim>\<open>Checker\<close>, \<^verbatim>\<open>CheckerProps\<close> (\<^verbatim>\<open>checker.cpp\<close>): the checks that a party makes before it signs.
    The locale \<open>block_headers\<close> is the contract of the block chain RPC. The results say what a
    passed check guarantees, that the checks answer on well-formed transactions, and that the
    total of a trade is exact or reported as too large.
  \<^item> \<^verbatim>\<open>MyOrders\<close> (\<^verbatim>\<open>myorders.cpp\<close>): the own orders with their locks; the locale \<open>lock_store\<close> is the
    mutual exclusion that trades rely on, \<open>order_validator\<close> the contract of the validation.
  \<^item> \<^verbatim>\<open>Trades\<close>, \<^verbatim>\<open>TradeLife\<close>, \<^verbatim>\<open>TradeRuns\<close>, \<^verbatim>\<open>TradeProps\<close> (class \<^verbatim>\<open>Trade\<close> of \<^verbatim>\<open>trades.cpp\<close>): one trade, what a
    call of each operation does on every branch, its runs as a step relation, and the safety
    of buyer and seller: what they sign, and when a trade counts as success or failure.
  \<^item> \<^verbatim>\<open>TradeManager\<close>, \<^verbatim>\<open>ManagerRuns\<close>, \<^verbatim>\<open>Interleaving\<close>, \<^verbatim>\<open>ManagerProps\<close> (class \<^verbatim>\<open>TradeManager\<close>): all trades
    together with the own orders; the invariant that ties trades and locks together.
    \<^verbatim>\<open>Interleaving\<close> cuts every method into the critical sections of the code, shows that a method
    is its sections one after the other, and runs the sections of any number of threads in
    any order; the invariant holds there too. \<^verbatim>\<open>TradeLimits\<close> is about the units of the active trades.
  \<^item> \<^verbatim>\<open>Settlement\<close>, \<^verbatim>\<open>TwoNodes\<close>, \<^verbatim>\<open>SampleDeal\<close>, \<^verbatim>\<open>Conversation\<close>: two daemons that trade with each
    other. The locale \<open>wallets\<close> says what a trade relies on in the wallets and servers of both
    sides; \<^verbatim>\<open>TwoNodes\<close> and \<^verbatim>\<open>SampleDeal\<close> show that two of the mock servers satisfy it. The results are
    of total correctness: the messages of an ask or a bid, handled by both sides, end with
    the transaction broadcast and both trades pending. \<^verbatim>\<open>Completion\<close> goes on from there: once the
    transaction is confirmed, the next update on each side archives the trade as a success.
  \<^item> \<^verbatim>\<open>Threads\<close> (\<^verbatim>\<open>intervaljob.cpp\<close>, the main loop of \<^verbatim>\<open>rpcserver.cpp\<close>, \<^verbatim>\<open>private/rpcclient.tpp\<close>): threads that
    wait for each other, with program counters, mutexes and condition variables. The locale
    \<open>winding_down\<close> is the argument that a thread which was asked to end does so.
  \<^item> \<^verbatim>\<open>LockOrder\<close>, \<^verbatim>\<open>DaemonLocks\<close> (\<^verbatim>\<open>private/state.hpp\<close> and all that has a mutex): which mutexes each
    method takes, in which order, and what it accesses under them. The locale \<open>lock_discipline\<close>
    gives freedom from deadlocks and races from an order on the mutexes. \<^verbatim>\<open>Lifetimes\<close> adds the parts whose
    methods are called, and their construction and destruction.
  \<^item> \<^verbatim>\<open>OrderBook\<close> (\<^verbatim>\<open>orderbook.cpp\<close>): the orders of others. The queue of update events refines a
    plain timeout rule (the locale \<open>simulation\<close>), and queries are sorted and complete. \<^verbatim>\<open>Refreshing\<close> reads
    the book off the history of its events, and relates the intervals of the refresh of the own
    orders and of the timeout.
  \<^item> \<^verbatim>\<open>Authenticator\<close> (\<^verbatim>\<open>authenticator.cpp\<close>): from JIDs to accounts; the decoder of names is the exact
    inverse of the encoding (the locale \<open>name_codec\<close>).
  \<^item> \<^verbatim>\<open>JsonConv\<close> (\<^verbatim>\<open>json.cpp\<close>): conversions to and from JSON, with the round trip of orders.
  \<^item> \<^verbatim>\<open>Stanzas\<close>, \<^verbatim>\<open>MucClient\<close> (\<^verbatim>\<open>stanzas.tpp\<close>, \<^verbatim>\<open>mucclient.cpp\<close>): the messages and the XMPP client. Its
    state has the room, the nicknames, the worker thread that disconnects, and a log of
    what was sent; the callbacks and the worker may come in any order.
  \<^item> \<^verbatim>\<open>Gsp\<close>, \<^verbatim>\<open>TradeTracker\<close> (\<^verbatim>\<open>gsp/game.cpp\<close>, \<^verbatim>\<open>pending.cpp\<close>, \<^verbatim>\<open>rpcserver.cpp\<close>): the game state processor.
    The locale \<open>trade_tracker\<close> is the contract of \<^verbatim>\<open>checktrade\<close> that a trade's update relies on;
    the code of the processor satisfies it, and so does the mock used by the tests.
  \<^item> \<^verbatim>\<open>Nonfungible\<close> (\<^verbatim>\<open>nonfungible/main.cpp\<close>): the asset specification of that game.
  \<^item> \<^verbatim>\<open>RpcTypes\<close>: a small language of JSON types, and the types of what the RPC methods return.
  \<^item> \<^verbatim>\<open>Programs\<close> (\<^verbatim>\<open>nonfungible/main.cpp\<close>, \<^verbatim>\<open>gsp/main.cpp\<close>): the main programs from the parsed flags to
    the exit code, with the destruction of the daemon. Here operations may also throw.
  \<^item> \<^verbatim>\<open>Daemon\<close>, \<^verbatim>\<open>DaemonProps\<close>, \<^verbatim>\<open>DaemonRuns\<close> (\<^verbatim>\<open>daemon.cpp\<close>, \<^verbatim>\<open>rpcserver.cpp\<close>): the composition. The
    record \<open>Impl\<close> holds all parts; the trade code runs on it unchanged, in a world that
    contains the XMPP client. The locale \<open>world_frame\<close> (\<^verbatim>\<open>WorldFrame\<close>) shows once for all
    operations that they touch the world only through their interfaces.
  \<^item> \<^verbatim>\<open>Mock\<close>, \<^verbatim>\<open>TestEnv\<close> (\<^verbatim>\<open>mockxaya.cpp\<close>, \<^verbatim>\<open>mockxaya.tpp\<close>, \<^verbatim>\<open>testutils.cpp\<close>): the servers that the repository's
    tests use, with their ports and the test accounts. The servers are executable instances of the
    parameters, and the witnesses run on them.

  This theory has the properties of the whole daemon: its invariant, the authenticity of
  what it accepts and the addressees of what it sends, and two ways to make it abort.

  \<^bold>\<open>Concurrency.\<close> The code takes a mutex for each access to the global state, the book and the
  client. There are five models, from coarse to fine. The step relations \<open>own_step\<close>,
  \<open>manager_step\<close>, \<open>book_step\<close>, \<open>muc_step\<close> and \<open>daemon_step\<close> take each operation as one step and
  interleave the operations, periodic jobs and callbacks in any order; they have the
  operations that return, and assume that the 64-bit counter of order IDs does not run out.
  \<open>perform_all\<close> of \<^verbatim>\<open>Programs\<close> has those that throw as well. \<open>conc_step\<close> of \<^verbatim>\<open>Interleaving\<close> takes the
  critical sections of the trade manager and the own orders as steps, with any other
  section between them. \<^verbatim>\<open>Threads\<close> has the waiting on mutexes and condition variables itself, for the
  objects that start and stop threads. \<^verbatim>\<open>DaemonLocks\<close> leaves out what the methods compute and keeps
  the mutexes and accesses of all of them, on all paths, and \<^verbatim>\<open>Lifetimes\<close> interleaves these with the
  construction and destruction of the daemon's parts. After an operation that is \<open>Fatal\<close> there is no process
  any more.

  \<^bold>\<open>Not modelled.\<close> The mutexes inside the libraries; the effect of using a part of the daemon
  after it was destroyed (undefined in C++; \<^verbatim>\<open>Lifetimes\<close> shows which uses these are); the parsers that
  the tests apply to literals, and the bookkeeping of the test framework. gloox, charon, protobuf, jsoncpp, libjson-rpc-cpp, SQLite and
  libxayagame are outside the repository and appear as parameters or as the events that
  they report.
\<close>

section \<open>A selling daemon\<close>

text \<open>
  The witnesses run a daemon for \<^verbatim>\<open>seller\<close> on the mock servers: it connects, offers gold, and
  \<^verbatim>\<open>buyer\<close> takes three units.
\<close>

definition seller_conf :: "mock DaemonConf" where
  "seller_conf = \<lparr>dc_spec = TestAssets, dc_env = sample_env, dc_flags = default_flags\<lparr>democrit_feerate_wo_names := 100\<rparr>\<rparr>"

definition quiet_world :: mock where
  "quiet_world = new_mock\<lparr>ta_balances := [(''seller'', [(''gold'', 5)]), (''buyer'', [])], mock_time := 1000000000000\<rparr>"

definition xmpp_jid :: "string \<Rightarrow> JID" where
  "xmpp_jid account = \<lparr>jid_username = EncodeName account, jid_server = ''chat.xaya.io'', jid_resource = ''dem''\<rparr>"

definition seller_client :: MucClient where
  "seller_client = (new_client False False muc_room)\<lparr>mc_room := Some 1, mc_connected := True, mc_joining := True\<rparr>"

definition known :: "string list \<Rightarrow> Authenticator" where
  "known accounts = fold (\<lambda>account a. snd (Authenticate (xmpp_jid account) a)) accounts (new_authenticator ''chat.xaya.io'')"

definition seller_daemon :: "mock Impl" where
  "seller_daemon = \<lparr>im_state = init_state ''seller'', im_auth = known [''seller''],
     im_allOrders = new_book 10, im_net = (new_client False False muc_room, quiet_world), im_reconnecter = False\<rparr>"

text \<open>What the seller publishes: the offer, and after it is taken that there is none.\<close>

definition offer :: "OrdersOfAccount" where
  "offer = \<lparr>ooa_account = Some ''seller'', ooa_orders = [(0, sample_order\<lparr>order_account := None, order_id := None\<rparr>)]\<rparr>"

definition offering_daemon :: "mock Impl" where
  "offering_daemon = seller_daemon\<lparr>im_state := selling, im_net := (seller_client\<lparr>mc_out := [Published offer]\<rparr>, quiet_world)\<rparr>"

definition take_stanza :: Stanza where
  "take_stanza = \<lparr>msg_from = xmpp_jid ''buyer'', ext_orders = None,
     ext_procmsg = Some (stanza_of (taking_msg\<lparr>pm_counterparty := None\<rparr>))\<rparr>"

definition trading_daemon :: "mock Impl" where
  "trading_daemon = \<lparr>im_state = sold, im_auth = known [''seller'', ''buyer''], im_allOrders = new_book 10,
     im_net = (seller_client\<lparr>mc_out := [Published offer, Published (offer\<lparr>ooa_orders := []\<rparr>),
        Sent (xmpp_jid ''buyer'') (data_reply\<lparr>pm_counterparty := None\<rparr>)]\<rparr>,
       quiet_world\<lparr>mx_addrCount := 2, mx_locked := [(''seller txid'', 12)]\<rparr>), im_reconnecter = False\<rparr>"

lemma xmpp_trusted: "trusted_jid (au_xidServers (known xs)) account (xmpp_jid account)"
proof -
  have "au_xidServers (known xs) = ParseCommaSeparated ''chat.xaya.io''"
    by (induction xs rule: rev_induct)
      (auto simp: known_def new_authenticator_def Authenticate_eq split: option.splits)
  moreover have "''chat.xaya.io'' \<in> ParseCommaSeparated ''chat.xaya.io''" by code_simp
  ultimately show ?thesis by (simp add: trusted_jid_def xmpp_jid_def)
qed

lemma xmpp_auth: "Authenticate (xmpp_jid account) (known xs) = (Ret (Some account), known (xs @ [account]))"
proof -
  have "fst (Authenticate (xmpp_jid account) (known xs)) = Ret (Some account)"
    using xmpp_trusted by (rule Authenticate_complete)
  then show ?thesis by (cases "Authenticate (xmpp_jid account) (known xs)") (simp add: known_def)
qed

lemma seller_starts:
  "new_impl ''chat.xaya.io'' 10 False False ''seller'' (xmpp_jid ''seller'') muc_room quiet_world = Ret seller_daemon"
proof -
  have "Authenticate (xmpp_jid ''seller'') (new_authenticator ''chat.xaya.io'') = (Ret (Some ''seller''), known [''seller''])"
    using xmpp_auth [of "''seller''" "[]"] by (simp only: known_def fold_simps append_Nil id_apply)
  then show ?thesis by (simp add: new_impl_def seller_daemon_def)
qed

text \<open>Reading off the effect of trade code from the parts of the result that can be compared.\<close>

lemma publishing_run:
  assumes "only_published c (snd (snd p))"
    "(case p of (r, s, n) \<Rightarrow> (r, s, mc_out (fst n), snd n)) = (r, s, out, w)"
  shows "p = (r, (s, (c\<lparr>mc_out := out\<rparr>, w)))"
  using assms by (cases p) (auto simp: only_published_def)

lemma seller_adds:
  "Add (MyOrdersImpl seller_conf) sample_order (init_state ''seller'', (seller_client, quiet_world)) =
     (Ret True, (selling, (seller_client\<lparr>mc_out := [Published offer]\<rparr>, quiet_world)))"
proof (rule publishing_run)
  let ?p = "Add (MyOrdersImpl seller_conf) sample_order (init_state ''seller'', (seller_client, quiet_world))"
  show "only_published seller_client (snd (snd ?p))"
  proof (rule keepsD [OF state_ops(1)])
    show "only_published seller_client (snd (init_state ''seller'', (seller_client, quiet_world)))"
      using only_published_refl [of "(seller_client, quiet_world)"] by simp
    show "Add (MyOrdersImpl seller_conf) sample_order (init_state ''seller'', (seller_client, quiet_world)) = (fst ?p, snd ?p)"
      by simp
  qed
qed code_simp

lemma seller_replies:
  "ProcessMessage (daemon_tm seller_conf) taking_msg (selling, im_net offering_daemon) =
     (Ret (Some data_reply), (sold, (seller_client\<lparr>mc_out := [Published offer, Published (offer\<lparr>ooa_orders := []\<rparr>)]\<rparr>,
       quiet_world\<lparr>mx_addrCount := 2, mx_locked := [(''seller txid'', 12)]\<rparr>)))"
proof -
  let ?p = "ProcessMessage (daemon_tm seller_conf) taking_msg (selling, im_net offering_daemon)"
  have "only_published (client offering_daemon) (snd (snd ?p))"
    using trade_code_publishes [of seller_conf taking_msg selling "im_net offering_daemon" "fst ?p" "fst (snd ?p)" "snd (snd ?p)"]
    by simp
  moreover have "(case ?p of (r, s, n) \<Rightarrow> (r, s, mc_out (fst n), snd n)) = (Ret (Some data_reply), sold,
      [Published offer, Published (offer\<lparr>ooa_orders := []\<rparr>)],
      quiet_world\<lparr>mx_addrCount := 2, mx_locked := [(''seller txid'', 12)]\<rparr>)"
    by code_simp
  ultimately have "?p = (Ret (Some data_reply), (sold, ((client offering_daemon)\<lparr>mc_out := [Published offer, Published (offer\<lparr>ooa_orders := []\<rparr>)]\<rparr>,
       quiet_world\<lparr>mx_addrCount := 2, mx_locked := [(''seller txid'', 12)]\<rparr>)))"
    by (rule publishing_run)
  then show ?thesis by (simp add: offering_daemon_def)
qed

lemma take_stanza_run: "on_message seller_conf take_stanza offering_daemon = (Ret (), trading_daemon)"
proof -
  have look: "LookupJid (known [''seller'', ''buyer'']) ''buyer'' = Some (xmpp_jid ''buyer'')"
    using Authenticate_Some(2) [OF xmpp_auth [of "''buyer''" "[''seller'']"]] by simp
  have msg: "taking_msg\<lparr>pm_counterparty := Some ''buyer''\<rparr> = taking_msg" "pm_counterparty data_reply = Some ''buyer''"
    by code_simp+
  have con: "IsConnected (seller_client\<lparr>mc_out := out\<rparr>)" for out
    by (simp add: IsConnected_def seller_client_def new_client_def)
  have im: "im_auth offering_daemon = known [''seller'']" "im_state offering_daemon = selling"
    by (simp_all add: offering_daemon_def seller_daemon_def)
  show ?thesis
    using seller_replies look msg con xmpp_auth [of "''buyer''" "[''seller'']"]
    by (simp add: on_message_def Impl_HandlePrivate_def bnd_def onAuth_def onState_def im take_stanza_def stanza_of_def
        SendProcessingMessage_def SendMessage_def onNet_def onL_def)
      (simp add: offering_daemon_def trading_daemon_def seller_daemon_def)
qed

lemma seller_runs:
  "runs (daemon_step seller_conf) (seller_daemon, 0) [ClientEvent, RpcAdd sample_order, PrivateMessage take_stanza]
     (trading_daemon, 0)"
proof -
  have "muc_step False (Connects True 1) (client seller_daemon) seller_client"
    by (rule muc_connect [where b = True])
      (simp add: ConnectStart_def join_disconnecter_def seller_daemon_def seller_client_def new_client_def)
  then have "daemon_step seller_conf ClientEvent (seller_daemon, 0) (seller_daemon\<lparr>im_net := (seller_client, quiet_world)\<rparr>, 0)"
    using d_client [of False "Connects True 1" seller_daemon seller_client seller_conf 0] by (simp add: seller_daemon_def client_event_def)
  moreover have "daemon_step seller_conf (RpcAdd sample_order) (seller_daemon\<lparr>im_net := (seller_client, quiet_world)\<rparr>, 0) (offering_daemon, 0)"
    by (rule d_add [where b = True], simp add: AddOrder_def onState_def seller_adds seller_daemon_def offering_daemon_def)
      (simp add: seller_daemon_def init_state_def)
  moreover have "daemon_step seller_conf (PrivateMessage take_stanza) (offering_daemon, 0) (trading_daemon, 0)"
    using take_stanza_run by (rule d_private)
  ultimately show ?thesis by (auto simp: runs_cons_iff)
qed

section \<open>Properties of the whole daemon\<close>



text \<open>
  C25: The order book can always be shown: in every reachable state the RPC commands for the
  orders of one asset and of all assets answer without failing a check and without changing
  anything. In particular every order that the validation of room messages lets through
  passes the checks of the JSON conversion, although that one compares signed numbers.
\<close>

theorem book_always_printable:
  assumes "new_impl servers orderTimeout g1 g2 account jid mucRoom w = Ret im0"
    "runs (daemon_step C) (im0, t0) es (im, t)"
  shows "(\<exists>j. rpc_getordersforasset asset im = (Ret j, im)) \<and> (\<exists>j. rpc_getordersbyasset im = (Ret j, im))"
  using reachable_daemon [OF assms] print_asset [of t im asset] print_all [of t im] by (simp add: daemon_inv_def)

theorem book_always_printable_witness:
  "(\<exists>j. rpc_getordersforasset ''gold'' trading_daemon = (Ret j, trading_daemon)) \<and>
   (\<exists>j. rpc_getordersbyasset trading_daemon = (Ret j, trading_daemon))"
  by (rule book_always_printable [OF seller_starts seller_runs])

text \<open>
  C15: Handling a private message sends at most one message, and only back to the JID the message
  came from, which must be trusted for an account; besides, only own orders are published.
  Who the message claims to be from makes no difference at all.
\<close>

theorem private_reply_to_sender:
  assumes "Impl_HandlePrivate C sender msg im = (r, im')"
  shows "(\<exists>pubs replies. mc_out (client im') = mc_out (client im) @ map Published pubs @ map (Sent sender) replies \<and>
      length replies \<le> 1 \<and> (replies \<noteq> [] \<longrightarrow> (\<exists>account. trusted_jid (au_xidServers (im_auth im)) account sender))) \<and>
    Impl_HandlePrivate C sender (claiming other msg) im = (r, im')"
  using handle_private_out [OF assms] assms by (simp add: claiming_ignored)

theorem private_reply_to_sender_witness:
  "Impl_HandlePrivate seller_conf (xmpp_jid ''buyer'') (claiming (Some ''mallory'') take_stanza) offering_daemon = (Ret (), trading_daemon)"
proof -
  have "Impl_HandlePrivate seller_conf (xmpp_jid ''buyer'') take_stanza offering_daemon = (Ret (), trading_daemon)"
    using take_stanza_run by (simp add: on_message_def) (simp add: take_stanza_def)
  from private_reply_to_sender [OF this] show ?thesis by blast
qed

text \<open>
  C14: A room message changes the orders of at most one account, the one that the real JID behind
  the sender's nickname is trusted for. What the book has for it afterwards is a selection
  of the orders in the message that all passed the validation for that account.
\<close>

theorem room_orders_authentic:
  assumes "on_room_message C now r msg priv im = (Ret (), im')"
    "map_of (ob_orders (im_allOrders im')) account \<noteq> map_of (ob_orders (im_allOrders im)) account"
  shows "\<exists>jid. ResolveNickname (client im) (jid_resource (msg_from msg)) = Some jid \<and>
    trusted_jid (au_xidServers (im_auth im)) account jid \<and>
    (case map_of (ob_orders (im_allOrders im')) account of
       None \<Rightarrow> True
     | Some ao \<Rightarrow> subseq (ooa_orders (ao_orders ao)) (carried msg) \<and>
         (\<forall>e \<in> set (ooa_orders (ao_orders ao)). passes (dc_spec C) account (snd e)))"
proof -
  from assms(2) have "im_allOrders im' \<noteq> im_allOrders im" by auto
  with on_room_message_Ret [OF assms(1)] obtain jid acc vs where
      jid: "ResolveNickname (client im) (jid_resource (msg_from msg)) = Some jid"
        "Authenticate jid (im_auth im) = (Ret (Some acc), im_auth im')"
      and vs: "subseq vs (carried msg)" "\<forall>v \<in> set vs. passes (dc_spec C) acc (snd v)"
      and upd: "OrderBook.UpdateOrders now \<lparr>ooa_account = Some acc, ooa_orders = vs\<rparr> (im_allOrders im) = (Ret (), im_allOrders im')"
    by blast
  from upd have book: "map_of (ob_orders (im_allOrders im')) = (map_of (ob_orders (im_allOrders im)))(acc :=
      if vs = [] then None else Some \<lparr>ao_orders = \<lparr>ooa_account = None, ooa_orders = vs\<rparr>, ao_lastUpdate = now\<rparr>)"
    by (cases rule: UpdateOrders_Ret) (auto simp: alist_simps)
  with assms(2) have "account = acc" by (auto split: if_splits)
  with jid vs book Authenticate_Some(1) [OF jid(2)] show ?thesis by (auto split: if_splits)
qed

text \<open>The daemon of the buyer sees the offer of the seller in the room.\<close>

definition listening_daemon :: "mock Impl" where
  "listening_daemon = \<lparr>im_state = init_state ''buyer'', im_auth = known [''buyer''], im_allOrders = new_book 10,
     im_net = (seller_client\<lparr>mc_nickToJid := [''n1'' \<mapsto> xmpp_jid ''seller'']\<rparr>, quiet_world), im_reconnecter = False\<rparr>"

definition offer_stanza :: "Order \<Rightarrow> Stanza" where
  "offer_stanza ord = \<lparr>msg_from = muc_room\<lparr>jid_resource := ''n1''\<rparr>,
     ext_orders = Some (stanza_of (offer\<lparr>ooa_orders := [(0, ord)]\<rparr>)), ext_procmsg = None\<rparr>"

definition informed_daemon :: "mock Impl" where
  "informed_daemon = snd (on_room_message seller_conf 5 1 (offer_stanza sample_order) False listening_daemon)"

lemma offer_seen:
  "on_room_message seller_conf 5 1 (offer_stanza sample_order) False listening_daemon = (Ret (), informed_daemon)"
  "map_of (ob_orders (im_allOrders informed_daemon)) ''seller'' =
     Some \<lparr>ao_orders = \<lparr>ooa_account = None, ooa_orders = [(0, sample_order)]\<rparr>, ao_lastUpdate = 5\<rparr>"
proof -
  have "fst (on_room_message seller_conf 5 1 (offer_stanza sample_order) False listening_daemon) = Ret ()" by code_simp
  then show "on_room_message seller_conf 5 1 (offer_stanza sample_order) False listening_daemon = (Ret (), informed_daemon)"
    unfolding informed_daemon_def by (metis prod.collapse)
  show "map_of (ob_orders (im_allOrders informed_daemon)) ''seller'' =
     Some \<lparr>ao_orders = \<lparr>ooa_account = None, ooa_orders = [(0, sample_order)]\<rparr>, ao_lastUpdate = 5\<rparr>" by code_simp
qed

theorem room_orders_authentic_witness:
  "map_of (ob_orders (im_allOrders informed_daemon)) ''seller'' \<noteq> None \<and>
    trusted_jid (au_xidServers (im_auth listening_daemon)) ''seller'' (xmpp_jid ''seller'') \<and>
    subseq [(0, sample_order)] (carried (offer_stanza sample_order)) \<and> passes TestAssets ''seller'' sample_order"
proof -
  have "map_of (ob_orders (im_allOrders listening_daemon)) ''seller'' = None"
    by (simp add: listening_daemon_def new_book_def)
  with offer_seen(2) room_orders_authentic [OF offer_seen(1), of "''seller''"]
  show ?thesis by (auto simp: ResolveNickname_def listening_daemon_def offer_stanza_def seller_conf_def)
qed

text \<open>
  When a participant leaves the room, all orders of the account its JID is trusted for are
  removed from the book at once, those of the other accounts stay as they are, and the
  nickname is forgotten. This never fails a check.
\<close>

theorem leaving_clears_orders:
  assumes "mc_room (client im) = Some r" "pr_unavailable p" "\<not> pr_nickChanged p" "\<not> pr_self p" "pr_jid p = Some jid"
    "trusted_jid (au_xidServers (im_auth im)) account jid"
  shows "\<exists>im'. on_presence vlog now r p im = (Ret (), im') \<and>
    map_of (ob_orders (im_allOrders im')) = (map_of (ob_orders (im_allOrders im)))(account := None) \<and>
    ResolveNickname (client im') (pr_nick p) = None"
proof -
  obtain a where "Authenticate jid (im_auth im) = (Ret (Some account), a)"
    using Authenticate_complete [OF assms(6)] by (metis prod.collapse)
  moreover obtain c w where "im_net im = (c, w)" by (rule prod.exhaust)
  ultimately show ?thesis using assms
    by (simp add: on_presence_def handleMUCParticipantPresence_def Impl_HandleDisconnect_def OrderBook.UpdateOrders_def
        bnd_def onNet_def onL_def onAuth_def onBook_def ResolveNickname_def checked_def alist_simps)
qed

definition leaving :: Presence where
  "leaving = \<lparr>pr_nick = ''n1'', pr_jid = Some (xmpp_jid ''seller''), pr_newNick = [], pr_self = False,
     pr_nickChanged = False, pr_unavailable = True\<rparr>"

theorem leaving_clears_orders_witness:
  "\<exists>im'. on_presence False 7 1 leaving informed_daemon = (Ret (), im') \<and>
    map_of (ob_orders (im_allOrders informed_daemon)) ''seller'' \<noteq> None \<and>
    map_of (ob_orders (im_allOrders im')) ''seller'' = None"
proof -
  have "mc_room (client informed_daemon) = Some 1"
    using on_room_message_Ret [OF offer_seen(1)] by (simp add: listening_daemon_def seller_client_def)
  moreover have "trusted_jid (au_xidServers (im_auth informed_daemon)) ''seller'' (xmpp_jid ''seller'')"
    using on_room_message_Ret [OF offer_seen(1)] xmpp_trusted by (auto simp: listening_daemon_def dest: Authenticate_servers)
  ultimately show ?thesis
    using leaving_clears_orders [of informed_daemon 1 leaving "xmpp_jid ''seller''" "''seller''" False 7] offer_seen(2)
    by (auto simp: leaving_def)
qed

section \<open>How the daemon can be made to abort\<close>

lemma collect_single:
  "Impl_ValidateOrder sp account ord w = (Ret True, w') \<Longrightarrow>
     fold_prog (collect_valid sp account) [(oid, ord)] [] w = (Ret [(oid, ord)], w')"
  by (simp add: collect_valid_def bnd_run_Ret)

text \<open>
  C37: An order without a type passes the validation as an ask, the default of the enumeration,
  but the order book insists on the type: whoever may speak in the room, from any account
  that owns something to sell, can abort the daemons of all others with one message.
\<close>

theorem untyped_order_aborts:
  assumes "mc_room (client im) = Some r" "bareJID (msg_from msg) = mc_roomName (client im)"
    "ResolveNickname (client im) (jid_resource (msg_from msg)) = Some jid"
    "trusted_jid (au_xidServers (im_auth im)) account jid"
    "ext_orders msg = Some (stanza_of \<lparr>ooa_account = a, ooa_orders = [(oid, ord)]\<rparr>)" "order_type ord = None"
    "static_valid ord" "IsAsset (dc_spec C) (dflt [] (order_asset ord)) (snd (im_net im)) = (Ret True, w1)"
    "CanSell (dc_spec C) account (dflt [] (order_asset ord)) (dflt 0 (order_max_units ord)) w1 = (Ret (Some hash), w2)"
  shows "fst (on_room_message C now r msg False im) = Fatal"
proof -
  obtain a' where auth: "Authenticate jid (im_auth im) = (Ret (Some account), a')"
    using Authenticate_complete [OF assms(4)] by (metis prod.collapse)
  obtain c w where net: "im_net im = (c, w)" by (rule prod.exhaust)
  have "Impl_ValidateOrder (dc_spec C) account ord w = (Ret True, w2)"
    using assms(6-9) net by (simp add: Impl_ValidateOrder_def bnd_run_Ret Let_def)
  note collected = collect_single [OF this, of oid]
  have "\<not> complete_order ord" using assms(6) by (simp add: complete_order_def)
  then show ?thesis using assms(1-3,5) auth net collected
    by (simp add: on_room_message_def handleMUCMessage_def Impl_HandleMessage_def OrderBook.UpdateOrders_def stanza_of_def
        bnd_def onNet_def onL_def onW_def onAuth_def onBook_def checked_def del: fold_prog.simps)
qed

theorem untyped_order_aborts_witness:
  "fst (on_room_message seller_conf 5 1 (offer_stanza (sample_order\<lparr>order_type := None\<rparr>)) False listening_daemon) = Fatal"
proof (rule untyped_order_aborts)
  show "trusted_jid (au_xidServers (im_auth listening_daemon)) ''seller'' (xmpp_jid ''seller'')"
    using xmpp_trusted by (simp add: listening_daemon_def)
  show "static_valid (sample_order\<lparr>order_type := None\<rparr>)" by code_simp
  show "CanSell (dc_spec seller_conf) ''seller'' (dflt [] (order_asset (sample_order\<lparr>order_type := None\<rparr>)))
      (dflt 0 (order_max_units (sample_order\<lparr>order_type := None\<rparr>))) quiet_world = (Ret (Some 0), quiet_world)" by code_simp
  show "IsAsset (dc_spec seller_conf) (dflt [] (order_asset (sample_order\<lparr>order_type := None\<rparr>))) (snd (im_net listening_daemon)) =
      (Ret True, quiet_world)" by (simp add: listening_daemon_def, code_simp)
qed (simp_all add: listening_daemon_def seller_client_def new_client_def offer_stanza_def offer_def bareJID_def
      ResolveNickname_def muc_room_def)

text \<open>
  C38: Taking an order while the XMPP connection is down aborts the daemon if the maker was ever
  seen: the trade is started first and then the message to the maker is sent without
  testing the connection, which sending requires.
\<close>

theorem take_while_disconnected_aborts:
  assumes "\<not> IsConnected (client im)"
    "TakeOrder (daemon_tm C) ord units (im_state im, im_net im) = (Ret (Some m), (s, n))"
    "has (LookupJid (im_auth im) (dflt [] (pm_counterparty m)))"
  shows "fst (Daemon_TakeOrder C ord units im) = Fatal"
proof -
  from take_publishes [OF assms(2) [unfolded prod.collapse]] assms(2) have "only_published (client im) n" by simp
  with assms(1) have "\<not> IsConnected (fst n)" by (auto simp: only_published_def IsConnected_def)
  moreover obtain c w where "n = (c, w)" by (rule prod.exhaust)
  moreover obtain jid where "LookupJid (im_auth im) (dflt [] (pm_counterparty m)) = Some jid"
    using assms(3) by (cases "LookupJid (im_auth im) (dflt [] (pm_counterparty m))") auto
  ultimately show ?thesis using assms(2)
    by (simp add: Daemon_TakeOrder_def SendProcessingMessage_def SendMessage_def bnd_def onState_def onNet_def onL_def checked_def)
qed

definition offline_daemon :: "mock Impl" where
  "offline_daemon = \<lparr>im_state = init_state ''buyer'', im_auth = known [''buyer'', ''seller''], im_allOrders = new_book 10,
     im_net = (seller_client\<lparr>mc_connected := False\<rparr>, quiet_world), im_reconnecter = False\<rparr>"

lemma offline_take:
  "case fst (TakeOrder (daemon_tm seller_conf) sample_order 3 (im_state offline_daemon, im_net offline_daemon)) of
     Ret (Some m) \<Rightarrow> pm_counterparty m = Some ''seller'' | _ \<Rightarrow> False"
  by (simp only: offline_daemon_def Impl.simps) code_simp

theorem take_while_disconnected_aborts_witness:
  "fst (Daemon_TakeOrder seller_conf sample_order 3 offline_daemon) = Fatal"
proof -
  obtain m s n where run: "TakeOrder (daemon_tm seller_conf) sample_order 3 (im_state offline_daemon, im_net offline_daemon)
      = (Ret (Some m), (s, n))" and m: "pm_counterparty m = Some ''seller''"
    using offline_take by (cases "TakeOrder (daemon_tm seller_conf) sample_order 3 (im_state offline_daemon, im_net offline_daemon)")
      (auto split: outcome.splits option.splits)
  show ?thesis
  proof (rule take_while_disconnected_aborts [OF _ run])
    show "\<not> IsConnected (client offline_daemon)" by (simp add: offline_daemon_def IsConnected_def)
    show "has (LookupJid (im_auth offline_daemon) (dflt [] (pm_counterparty m)))"
      using Authenticate_Some(2) [OF xmpp_auth [of "''seller''" "[''buyer'']"]] m by (simp add: offline_daemon_def)
  qed
qed

end
